(* ===== verification/Dafeng_Prelude.thy ===== *)
theory Dafeng_Prelude
  imports Main "HOL-Library.Word" "HOL-Library.List_Lexorder" "HOL-Library.Multiset"
begin

unbundle bit_operations_syntax

text \<open>
  Shared vocabulary of the development: the machine types of the C++ code, byte strings,
  association lists standing for \<^verbatim>\<open>std::unordered_map\<close>, and the two sorting
  algorithms of the standard library.

  \<^item> \<open>bytes\<close> is \<^verbatim>\<open>std::string\<close> and \<^verbatim>\<open>std::vector<uint8_t>\<close>: a list of
    8-bit words.  Its order (from \<^verbatim>\<open>HOL-Library.List_Lexorder\<close>) is the
    lexicographic order on unsigned bytes, which is what \<^verbatim>\<open>std::string::operator<\<close> is.
  \<^item> An \<^verbatim>\<open>unordered_map\<close> is an association list with distinct keys; the order of the
    list is the (unspecified) iteration order of the container.
  \<^item> \<open>sort_by\<close> is \<^verbatim>\<open>std::stable_sort\<close>, and the locale \<open>std_sort\<close> is what
    \<^verbatim>\<open>std::sort\<close> promises: some permutation without inversions, ties in any order.
\<close>

section \<open>Machine types\<close>

type_synonym byte = "8 word"
type_synonym u16 = "16 word"
type_synonym u32 = "32 word"
type_synonym u64 = "64 word"
type_synonym i32 = "32 word"
type_synonym bytes = "byte list"

text \<open>String literals of the source: the bytes of an ASCII literal.\<close>

definition lit :: "string \<Rightarrow> bytes" where
  "lit s = map of_char s"

lemma lit_simps [simp]:
  "lit [] = []"
  "lit (c # s) = of_char c # lit s"
  by (simp_all add: lit_def)

lemma lit_eq_Nil [simp]: "lit s = [] \<longleftrightarrow> s = []"
  by (simp add: lit_def)

lemma length_lit [simp]: "length (lit s) = length s"
  by (simp add: lit_def)

lemma unat_bound: "unat (w :: 'a :: len word) < 2 ^ LENGTH('a)"
  by (rule unsigned_less)

text \<open>The bytes of a word put together again; both byte orders of the sources use these.\<close>

lemma frame_word_split:
  "push_bit 24 (ucast (ucast (drop_bit 24 w AND 0xFF) :: byte))
     OR push_bit 16 (ucast (ucast (drop_bit 16 w AND 0xFF) :: byte))
     OR push_bit 8 (ucast (ucast (drop_bit 8 w AND 0xFF) :: byte))
     OR ucast (ucast (w AND 0xFF) :: byte) = (w :: u32)"
proof -
  have m: "(0xFF :: u32) = mask 8" by (simp add: mask_eq_exp_minus_1)
  show ?thesis
    unfolding m
  proof (rule bit_word_eqI, goal_cases)
    case (1 n)
    then consider "24 \<le> n" "n < 32" | "16 \<le> n" "n < 24" | "8 \<le> n" "n < 16" | "n < 8"
      by fastforce
    then show ?case
      by cases (auto simp: bit_simps)
  qed
qed

lemma short_word_split:
  "ucast (ucast (w AND 0xFF) :: byte) OR push_bit 8 (ucast (ucast (drop_bit 8 w AND 0xFF) :: byte)) = (w :: u16)"
proof -
  have m: "(0xFF :: u16) = mask 8" by (simp add: mask_eq_exp_minus_1)
  show ?thesis
    unfolding m
  proof (rule bit_word_eqI, goal_cases)
    case (1 n)
    then consider "8 \<le> n" "n < 16" | "n < 8" by fastforce
    then show ?case by cases (auto simp: bit_simps)
  qed
qed

section \<open>Hint collections\<close>

named_theorems wire_simps \<open>evaluation of packers, converters and frame headers\<close>
named_theorems sort_facts \<open>permutation and order of the sorting functions\<close>

section \<open>Lists\<close>

lemma take_length_append [simp]: "take (length xs) (xs @ ys) = xs"
  by simp

lemma mset_eq_set: "mset xs = mset ys \<Longrightarrow> set xs = set ys"
  by (metis set_mset_mset)

lemma permutation_of_upt:
  assumes "mset is = mset [0..<length xs]"
  shows "mset (map ((!) xs) is) = mset xs"
proof -
  have "mset (map ((!) xs) is) = image_mset ((!) xs) (mset [0..<length xs])"
    by (simp add: assms)
  also have "\<dots> = mset (map ((!) xs) [0..<length xs])"
    by simp
  finally show ?thesis by (simp only: map_nth)
qed

section \<open>Association lists as unordered maps\<close>

text \<open>\<^verbatim>\<open>m[k] = v\<close>: overwrite the value at an existing key, else add the pair.\<close>

fun al_put :: "'k \<Rightarrow> 'v \<Rightarrow> ('k \<times> 'v) list \<Rightarrow> ('k \<times> 'v) list" where
  "al_put k v [] = [(k, v)]"
| "al_put k v ((k', v') # m) = (if k = k' then (k, v) # m else (k', v') # al_put k v m)"

lemma map_of_al_put [simp]: "map_of (al_put k v m) = (map_of m)(k \<mapsto> v)"
  by (induction m) auto

lemma map_fst_al_put:
  "map fst (al_put k v m) = (if k \<in> fst ` set m then map fst m else map fst m @ [k])"
  by (induction m) (auto split: if_splits)

lemma keys_al_put [simp]: "fst ` set (al_put k v m) = insert k (fst ` set m)"
proof -
  have "set (map fst (al_put k v m)) = insert k (fst ` set m)"
    by (auto simp: map_fst_al_put)
  then show ?thesis by simp
qed

lemma distinct_al_put [simp, intro]:
  "distinct (map fst m) \<Longrightarrow> distinct (map fst (al_put k v m))"
  by (simp add: map_fst_al_put)

lemma set_al_put:
  "distinct (map fst m) \<Longrightarrow> set (al_put k v m) = insert (k, v) {p \<in> set m. fst p \<noteq> k}"
  by (induction m) (auto split: if_splits simp: rev_image_eqI)

section \<open>Sorting as the standard library does it\<close>

text \<open>
  \<^verbatim>\<open>std::stable_sort(first, last, lt)\<close>: insertion from the right, an element goes in
  front of everything it does not have to follow.
\<close>

fun insert_by :: "('a \<Rightarrow> 'a \<Rightarrow> bool) \<Rightarrow> 'a \<Rightarrow> 'a list \<Rightarrow> 'a list" where
  "insert_by lt x [] = [x]"
| "insert_by lt x (y # ys) = (if lt y x then y # insert_by lt x ys else x # y # ys)"

definition sort_by :: "('a \<Rightarrow> 'a \<Rightarrow> bool) \<Rightarrow> 'a list \<Rightarrow> 'a list" where
  "sort_by lt xs = foldr (insert_by lt) xs []"

lemma sort_by_simps [simp]:
  "sort_by lt [] = []"
  "sort_by lt (x # xs) = insert_by lt x (sort_by lt xs)"
  by (simp_all add: sort_by_def)

lemma mset_insert_by [sort_facts]: "mset (insert_by lt x xs) = add_mset x (mset xs)"
  by (induction xs) auto

lemma mset_sort_by [simp, sort_facts]: "mset (sort_by lt xs) = mset xs"
  by (induction xs) (auto simp: mset_insert_by)

lemma set_insert_by [simp]: "set (insert_by lt x xs) = insert x (set xs)"
  by (induction xs) auto

lemma set_sort_by [simp]: "set (sort_by lt xs) = set xs"
  by (induction xs) auto

lemma length_sort_by [simp]: "length (sort_by lt xs) = length xs"
  by (metis mset_sort_by size_mset)

lemma insert_by_cong:
  "(\<And>y. y \<in> set xs \<Longrightarrow> lt y x = lt' y x) \<Longrightarrow> insert_by lt x xs = insert_by lt' x xs"
  by (induction xs) auto

lemma sort_by_cong:
  "(\<And>x y. x \<in> set xs \<Longrightarrow> y \<in> set xs \<Longrightarrow> lt x y = lt' x y) \<Longrightarrow> sort_by lt xs = sort_by lt' xs"
proof (induction xs)
  case (Cons x xs)
  then have "sort_by lt xs = sort_by lt' xs" by simp
  moreover have "insert_by lt x (sort_by lt' xs) = insert_by lt' x (sort_by lt' xs)"
    using Cons.prems by (intro insert_by_cong) simp
  ultimately show ?case by simp
qed simp

text \<open>The requirement \<^emph>\<open>Compare\<close> of the C++ library: a strict weak order.\<close>

locale compare =
  fixes lt :: "'a \<Rightarrow> 'a \<Rightarrow> bool"
  assumes lt_irrefl: "\<not> lt x x"
    and lt_trans: "lt x y \<Longrightarrow> lt y z \<Longrightarrow> lt x z"
    and incomp_trans: "\<not> lt x y \<Longrightarrow> \<not> lt y x \<Longrightarrow> \<not> lt y z \<Longrightarrow> \<not> lt z y \<Longrightarrow> \<not> lt x z"
begin

lemma lt_asym: "lt x y \<Longrightarrow> \<not> lt y x"
  using lt_irrefl lt_trans by blast

lemma not_lt_trans: "\<not> lt y x \<Longrightarrow> \<not> lt z y \<Longrightarrow> \<not> lt z x"
  using incomp_trans lt_irrefl lt_trans by blast

lemma sorted_insert_by:
  "sorted_wrt (\<lambda>a b. \<not> lt b a) xs \<Longrightarrow> sorted_wrt (\<lambda>a b. \<not> lt b a) (insert_by lt x xs)"
proof (induction xs)
  case (Cons y ys)
  show ?case
  proof (cases "lt y x")
    case True
    with Cons lt_asym show ?thesis by auto
  next
    case False
    with Cons.prems not_lt_trans show ?thesis by auto
  qed
qed simp

lemma sorted_sort_by: "sorted_wrt (\<lambda>a b. \<not> lt b a) (sort_by lt xs)"
  by (induction xs) (auto intro: sorted_insert_by)

text \<open>Stability: among elements equivalent to \<open>a\<close> the input order is kept.\<close>

definition equiv_to :: "'a \<Rightarrow> 'a \<Rightarrow> bool" where
  "equiv_to a x \<longleftrightarrow> \<not> lt a x \<and> \<not> lt x a"

lemma filter_insert_by:
  "sorted_wrt (\<lambda>a b. \<not> lt b a) xs \<Longrightarrow>
     filter (equiv_to a) (insert_by lt x xs)
       = (if equiv_to a x then x # filter (equiv_to a) xs else filter (equiv_to a) xs)"
proof (induction xs)
  case (Cons y ys)
  have "equiv_to a x \<Longrightarrow> lt y x \<Longrightarrow> \<not> equiv_to a y"
    unfolding equiv_to_def using incomp_trans by blast
  with Cons show ?case by auto
qed auto

text \<open>Equivalent elements also keep any order \<open>R\<close> that the input has, e.g. of positions.\<close>

lemma insert_by_keeps:
  "sorted_wrt (\<lambda>a b. lt a b \<or> \<not> lt b a \<and> R a b) xs \<Longrightarrow> \<forall>y\<in>set xs. R x y \<Longrightarrow>
     sorted_wrt (\<lambda>a b. lt a b \<or> \<not> lt b a \<and> R a b) (insert_by lt x xs)"
proof (induction xs)
  case (Cons y ys)
  show ?case
  proof (cases "lt y x")
    case True
    with Cons show ?thesis by auto
  next
    case False
    have "\<not> lt z x" if "z \<in> set ys" for z
      using False Cons.prems(1) that by (intro not_lt_trans [of y x z]) (auto dest: lt_asym)
    with Cons.prems False show ?thesis by auto
  qed
qed simp

lemma sort_by_keeps:
  "sorted_wrt R xs \<Longrightarrow> sorted_wrt (\<lambda>a b. lt a b \<or> \<not> lt b a \<and> R a b) (sort_by lt xs)"
  by (induction xs) (simp_all add: insert_by_keeps)

lemma stable_sort_by: "filter (equiv_to a) (sort_by lt xs) = filter (equiv_to a) xs"
  by (induction xs) (simp_all add: filter_insert_by sorted_sort_by)

end

lemma sorted_wrt_unique:
  assumes asym: "\<And>a b. lt a b \<Longrightarrow> \<not> lt b a"
  shows "sorted_wrt lt xs \<Longrightarrow> sorted_wrt lt ys \<Longrightarrow> mset xs = mset ys \<Longrightarrow> xs = ys"
proof (induction xs arbitrary: ys)
  case (Cons x xs)
  then obtain y ys' where ys: "ys = y # ys'" by (cases ys) auto
  have "x = y"
  proof (rule ccontr)
    assume "x \<noteq> y"
    with Cons.prems(3) ys have "y \<in> set xs" "x \<in> set ys'"
      by (metis insert_iff list.simps(15) mset_eq_set)+
    with Cons.prems ys asym show False by auto
  qed
  with Cons ys show ?case by auto
qed simp

text \<open>What \<^verbatim>\<open>std::sort\<close> promises about its result.\<close>

locale std_sort =
  fixes srt :: "'a list \<Rightarrow> 'a list" and lt :: "'a \<Rightarrow> 'a \<Rightarrow> bool"
  assumes sort_perm: "mset (srt xs) = mset xs"
    and sort_sorted: "sorted_wrt (\<lambda>a b. \<not> lt b a) (srt xs)"
begin

lemma sort_set: "set (srt xs) = set xs"
  using sort_perm by (rule mset_eq_set)

lemma sort_length: "length (srt xs) = length xs"
  by (metis sort_perm size_mset)

lemma sort_distinct: "distinct (srt xs) = distinct xs"
  using sort_perm by (rule mset_eq_imp_distinct_iff)

text \<open>If the order is total on the elements the result does not depend on the algorithm.\<close>

lemma sort_unique:
  assumes "mset ys = mset xs" and "sorted_wrt lt ys"
    and asym: "\<And>a b. lt a b \<Longrightarrow> \<not> lt b a"
    and total: "\<And>a b. a \<in> set xs \<Longrightarrow> b \<in> set xs \<Longrightarrow> a \<noteq> b \<Longrightarrow> lt a b \<or> lt b a"
    and "distinct xs"
  shows "srt xs = ys"
proof -
  have "distinct (srt xs)" using assms(5) by (simp add: sort_distinct)
  then have "sorted_wrt lt (srt xs)"
    using sort_sorted[of xs] total unfolding sorted_wrt_iff_nth_less
    by (metis nth_eq_iff_index_eq nth_mem order.strict_trans less_irrefl sort_set)
  then show ?thesis
    using assms(1,2) asym sort_perm by (metis sorted_wrt_unique)
qed

end

text \<open>\<^verbatim>\<open>stable_sort\<close> is one algorithm that keeps this promise, for any \<^emph>\<open>Compare\<close>.\<close>

sublocale compare \<subseteq> stable: std_sort "sort_by lt" lt
  by unfold_locales (simp_all add: sorted_sort_by)

text \<open>What \<^verbatim>\<open>std::partial_sort(first, first + k, last)\<close> promises.\<close>

locale partial_sort =
  fixes psrt :: "nat \<Rightarrow> 'a list \<Rightarrow> 'a list" and lt :: "'a \<Rightarrow> 'a \<Rightarrow> bool"
  assumes psort_perm: "mset (psrt k xs) = mset xs"
    and psort_sorted: "sorted_wrt (\<lambda>a b. \<not> lt b a) (take k (psrt k xs))"
    and psort_first: "x \<in> set (take k (psrt k xs)) \<Longrightarrow> y \<in> set (drop k (psrt k xs)) \<Longrightarrow> \<not> lt y x"
begin

lemma psort_set: "set (psrt k xs) = set xs"
  using psort_perm by (rule mset_eq_set)

lemma psort_length: "length (psrt k xs) = length xs"
  by (metis psort_perm size_mset)

lemma psort_rest: "y \<in> set xs \<Longrightarrow> y \<notin> set (take k (psrt k xs)) \<Longrightarrow> y \<in> set (drop k (psrt k xs))"
  by (metis Un_iff append_take_drop_id psort_set set_append)

end

text \<open>Sorting everything is one way to do it.\<close>

sublocale std_sort \<subseteq> partial: partial_sort "\<lambda>k. srt" lt
proof unfold_locales
  fix k :: nat and xs :: "'a list" and x y
  show "mset (srt xs) = mset xs" by (rule sort_perm)
  show "sorted_wrt (\<lambda>a b. \<not> lt b a) (take k (srt xs))"
    using sort_sorted by (rule sorted_wrt_take)
  have "sorted_wrt (\<lambda>a b. \<not> lt b a) (take k (srt xs) @ drop k (srt xs))"
    using sort_sorted by simp
  then show "x \<in> set (take k (srt xs)) \<Longrightarrow> y \<in> set (drop k (srt xs)) \<Longrightarrow> \<not> lt y x"
    unfolding sorted_wrt_append by blast
qed

end
