(* ===== verification/Utf8_Text.thy ===== *)
theory Utf8_Text
  imports Dafeng_Prelude
begin

unbundle bit_operations_syntax

text \<open>
  UTF-8 handling.  The sources hold three private copies of \<^verbatim>\<open>Utf8Len\<close>: a lax one in
  \<^verbatim>\<open>wubi_codec.cc\<close> that looks at the lead byte only (\<open>Utf8Len_lax\<close>), and a strict one
  in \<^verbatim>\<open>ngram.cc\<close> and \<^verbatim>\<open>new_word.cc\<close> that also checks the continuation bytes
  (\<open>Utf8Len\<close>).  \<open>walk\<close> is the loop all three files run over a string; the locale
  \<open>utf8_scanner\<close> is what that loop needs of a length function, interpreted on both.
\<close>

section \<open>Length of the next character\<close>

text \<open>The lead-byte cascade shared by the three copies; \<open>None\<close> is the final \<^verbatim>\<open>return 0\<close>.\<close>

definition lead_need :: "byte \<Rightarrow> nat option" where
  "lead_need c =
     (if c AND 0x80 = 0 then Some 1
      else if c AND 0xE0 = 0xC0 then Some 2
      else if c AND 0xF0 = 0xE0 then Some 3
      else if c AND 0xF8 = 0xF0 then Some 4
      else None)"

definition is_cont :: "byte \<Rightarrow> bool" where
  "is_cont c \<longleftrightarrow> c AND 0xC0 = 0x80"

definition Utf8Len_lax :: "bytes \<Rightarrow> nat \<Rightarrow> nat" where
  "Utf8Len_lax s pos =
     (if pos \<ge> length s then 0
      else case lead_need (s ! pos) of
        None \<Rightarrow> 0
      | Some need \<Rightarrow> if pos + need > length s then 0 else need)"

definition Utf8Len :: "bytes \<Rightarrow> nat \<Rightarrow> nat" where
  "Utf8Len s pos =
     (if pos \<ge> length s then 0
      else case lead_need (s ! pos) of
        None \<Rightarrow> 0
      | Some need \<Rightarrow>
          if pos + need > length s then 0
          else if \<forall>i \<in> set [1..<need]. is_cont (s ! (pos + i)) then need else 0)"

lemma lead_need_bounds: "lead_need c = Some n \<Longrightarrow> 1 \<le> n \<and> n \<le> 4"
  by (auto simp: lead_need_def split: if_splits)

lemma Utf8Len_implies_lax: "Utf8Len s i \<noteq> 0 \<Longrightarrow> Utf8Len_lax s i = Utf8Len s i"
  by (auto simp: Utf8Len_def Utf8Len_lax_def split: option.splits if_splits)

text \<open>A lead byte is never a continuation byte.\<close>

lemma cont_not_lead: "is_cont c \<Longrightarrow> lead_need c = None"
proof -
  assume c: "is_cont c"
  have a: "c AND 0x80 = (c AND 0xC0) AND 0x80" "c AND 0xC0 = (c AND 0xE0) AND 0xC0"
    "c AND 0xC0 = (c AND 0xF0) AND 0xC0" "c AND 0xC0 = (c AND 0xF8) AND 0xC0"
    by (simp_all add: and.assoc)
  have "c AND 0x80 \<noteq> 0" using a(1) c by (simp add: is_cont_def)
  moreover have "c AND 0xE0 \<noteq> 0xC0" using a(2) c by (auto simp: is_cont_def)
  moreover have "c AND 0xF0 \<noteq> 0xE0" using a(3) c by (auto simp: is_cont_def)
  moreover have "c AND 0xF8 \<noteq> 0xF0" using a(4) c by (auto simp: is_cont_def)
  ultimately show ?thesis by (simp add: lead_need_def)
qed

section \<open>The scanning loop\<close>

function walk :: "(bytes \<Rightarrow> nat \<Rightarrow> nat) \<Rightarrow> bytes \<Rightarrow> nat \<Rightarrow> bytes list" where
  "walk len s i =
     (if i < length s then
        let n = len s i in
        if n = 0 then [] else take n (drop i s) # walk len s (i + n)
      else [])"
  by pat_completeness auto
termination
  by (relation "measure (\<lambda>(len, s, i). length s - i)") auto

declare walk.simps [simp del]

function offsets :: "(bytes \<Rightarrow> nat \<Rightarrow> nat) \<Rightarrow> bytes \<Rightarrow> nat \<Rightarrow> nat list" where
  "offsets len s i =
     (if i < length s then
        let n = len s i in
        if n = 0 then [] else i # offsets len s (i + n)
      else [])"
  by pat_completeness auto
termination
  by (relation "measure (\<lambda>(len, s, i). length s - i)") auto

declare offsets.simps [simp del]

text \<open>\<^verbatim>\<open>SplitUtf8Chars\<close> of wubi_codec.cc and \<^verbatim>\<open>CharOffsets\<close> of new_word.cc.\<close>

definition SplitUtf8Chars :: "bytes \<Rightarrow> bytes list" where
  "SplitUtf8Chars s = walk Utf8Len_lax s 0"

definition CharOffsets :: "bytes \<Rightarrow> nat list" where
  "CharOffsets s = offsets Utf8Len s 0"

text \<open>
  The piece of \<open>s\<close> that belongs to the \<open>k\<close>-th offset: up to the next offset, or up to the
  end of the string for the last one.
\<close>

definition piece :: "bytes \<Rightarrow> nat list \<Rightarrow> nat \<Rightarrow> bytes" where
  "piece s offs k =
     (let end = (if k + 1 < length offs then offs ! (k + 1) else length s)
      in take (end - offs ! k) (drop (offs ! k) s))"

definition pieces :: "bytes \<Rightarrow> nat list \<Rightarrow> bytes list" where
  "pieces s offs = map (piece s offs) [0..<length offs]"

lemma pieces_Nil [simp]: "pieces s [] = []"
  by (simp add: pieces_def)

lemma length_pieces [simp]: "length (pieces s offs) = length offs"
  by (simp add: pieces_def)

lemma pieces_single: "pieces s [i] = [drop i s]"
  by (simp add: pieces_def piece_def)

lemma pieces_Cons_Cons: "pieces s (i # j # os) = take (j - i) (drop i s) # pieces s (j # os)"
  by (rule nth_equalityI) (auto simp: pieces_def piece_def Let_def nth_Cons simp del: upt_Suc split: nat.split)

lemma pieces_shift: "pieces s (map ((+) n) os) = pieces (drop n s) os"
  by (rule nth_equalityI) (auto simp: pieces_def piece_def Let_def add.commute)

text \<open>What the loop needs of a length function.\<close>

locale utf8_scanner =
  fixes len :: "bytes \<Rightarrow> nat \<Rightarrow> nat"
  assumes len_le: "len s 0 \<le> length s"
    and len_le4: "len s 0 \<le> 4"
    and len_drop: "len s i = len (drop i s) 0"
    and len_append: "len c 0 \<noteq> 0 \<Longrightarrow> len (c @ r) 0 = len c 0"
    and len_take: "len (take (len s 0) s) 0 = len s 0"
begin

definition is_char :: "bytes \<Rightarrow> bool" where
  "is_char c \<longleftrightarrow> c \<noteq> [] \<and> len c 0 = length c"

lemma len_Nil [simp]: "len [] 0 = 0"
  using len_le [of "[]"] by simp

lemma walk_drop: "walk len s i = walk len (drop i s) 0"
proof (induction "length s - i" arbitrary: s i rule: less_induct)
  case less
  show ?case
  proof (cases "i < length s \<and> len s i \<noteq> 0")
    case True
    define n where "n = len s i"
    have n: "len (drop i s) 0 = n" using len_drop [of s i] by (simp add: n_def)
    have "walk len s i = take n (drop i s) # walk len s (i + n)"
      using True by (subst walk.simps) (simp add: n_def Let_def)
    also have "walk len s (i + n) = walk len (drop (i + n) s) 0"
      using True by (intro less) (auto simp: n_def)
    also have "\<dots> = walk len (drop n (drop i s)) 0"
      by (simp add: add.commute)
    also have "\<dots> = walk len (drop i s) n"
      using True by (intro less [symmetric]) (auto simp: n_def)
    also have "take n (drop i s) # walk len (drop i s) n = walk len (drop i s) 0"
      using True n by (subst (2) walk.simps) (simp add: n_def Let_def)
    finally show ?thesis .
  next
    case False
    then show ?thesis
      using len_drop [of s i] by (auto simp: walk.simps [of len s i] walk.simps [of len "drop i s" 0])
  qed
qed

lemma offsets_drop: "offsets len s i = map ((+) i) (offsets len (drop i s) 0)"
proof (induction "length s - i" arbitrary: s i rule: less_induct)
  case less
  show ?case
  proof (cases "i < length s \<and> len s i \<noteq> 0")
    case True
    define n where "n = len s i"
    have n: "len (drop i s) 0 = n" using len_drop [of s i] by (simp add: n_def)
    have step: "offsets len (drop i s) 0 = 0 # offsets len (drop i s) n"
      using True n by (subst offsets.simps) (simp add: n_def)
    have "offsets len s i = i # offsets len s (i + n)"
      using True by (subst offsets.simps) (simp add: n_def)
    also have "offsets len s (i + n) = map ((+) (i + n)) (offsets len (drop (i + n) s) 0)"
      using True by (intro less) (auto simp: n_def)
    also have "\<dots> = map ((+) i) (map ((+) n) (offsets len (drop n (drop i s)) 0))"
      by (simp add: add.commute add.assoc comp_def)
    also have "map ((+) n) (offsets len (drop n (drop i s)) 0) = offsets len (drop i s) n"
      using True by (intro less [symmetric]) (auto simp: n_def)
    also have "i # map ((+) i) (offsets len (drop i s) n) = map ((+) i) (offsets len (drop i s) 0)"
      by (simp add: step)
    finally show ?thesis .
  next
    case False
    then show ?thesis
      using len_drop [of s i]
      by (auto simp: offsets.simps [of len s i] offsets.simps [of len "drop i s" 0])
  qed
qed

lemma walk_step:
  "walk len s 0 = (if len s 0 = 0 then [] else take (len s 0) s # walk len (drop (len s 0) s) 0)"
  using len_le [of s] walk_drop [of s "len s 0"] by (simp add: walk.simps [of len s 0] Let_def)

lemma offsets_step:
  "offsets len s 0 = (if len s 0 = 0 then []
     else 0 # map ((+) (len s 0)) (offsets len (drop (len s 0) s) 0))"
  using len_le [of s] offsets_drop [of s "len s 0"] by (simp add: offsets.simps [of len s 0] Let_def)

text \<open>Scanning is induction over the characters that are found.\<close>

lemma scan_induct [case_names stop char]:
  assumes "\<And>s. len s 0 = 0 \<Longrightarrow> P s"
    and "\<And>s. len s 0 \<noteq> 0 \<Longrightarrow> P (drop (len s 0) s) \<Longrightarrow> P s"
  shows "P s"
proof (induction "length s" arbitrary: s rule: less_induct)
  case less
  show ?case
  proof (cases "len s 0 = 0")
    case False
    moreover from this have "length (drop (len s 0) s) < length s"
      using len_le [of s] by simp
    ultimately show ?thesis using less assms(2) by blast
  qed (rule assms(1))
qed

lemma walk_chars: "c \<in> set (walk len s 0) \<Longrightarrow> is_char c"
proof (induction s rule: scan_induct)
  case (stop s)
  then show ?case by (simp add: walk_step)
next
  case (char s)
  then show ?case
    using len_le [of s] len_take [of s] by (auto simp: walk_step [of s] is_char_def min_def)
qed

lemma walk_char_length: "c \<in> set (walk len s 0) \<Longrightarrow> length c \<in> {1..4}"
  using walk_chars len_le4 [of c] by (auto simp: is_char_def Suc_le_eq)

lemma concat_walk: "concat (walk len s 0) @ drop (length (concat (walk len s 0))) s = s"
proof (induction s rule: scan_induct)
  case (stop s)
  then show ?case by (simp add: walk_step)
next
  case (char s)
  then show ?case
    using len_le [of s] by (simp add: walk_step [of s] add.commute)
qed

lemma walk_concat_append:
  "\<forall>c \<in> set cs. is_char c \<Longrightarrow> walk len (concat cs @ r) 0 = cs @ walk len r 0"
proof (induction cs)
  case (Cons c cs)
  then have "len (c @ concat cs @ r) 0 = length c" "c \<noteq> []"
    by (auto simp: is_char_def len_append)
  with Cons show ?case by (simp add: walk_step [of "c @ concat cs @ r"])
qed simp

lemma walk_concat: "\<forall>c \<in> set cs. is_char c \<Longrightarrow> walk len (concat cs) 0 = cs"
  using walk_concat_append [of cs "[]"] by (simp add: walk_step)

lemma length_offsets: "length (offsets len s 0) = length (walk len s 0)"
  by (induction s rule: scan_induct) (simp_all add: walk_step offsets_step)

lemma offsets_Nil_iff: "offsets len s 0 = [] \<longleftrightarrow> len s 0 = 0"
  by (simp add: offsets_step)

text \<open>
  The pieces of a string are its characters, except that bytes after the last character the
  scan recognised stay glued to that character.
\<close>

lemma pieces_offsets:
  assumes "len s 0 \<noteq> 0"
  shows "pieces s (offsets len s 0)
    = butlast (walk len s 0) @ [last (walk len s 0) @ drop (length (concat (walk len s 0))) s]"
  using assms
proof (induction s rule: scan_induct)
  case (char s)
  let ?n = "len s 0" and ?t = "drop (len s 0) s"
  show ?case
  proof (cases "len ?t 0 = 0")
    case True
    then show ?thesis
      using char len_le [of s]
      by (simp add: offsets_step [of s] offsets_step [of ?t] walk_step [of s] walk_step [of ?t]
          pieces_single min_def)
  next
    case False
    then obtain os where os: "offsets len ?t 0 = 0 # os" by (simp add: offsets_step)
    have ne: "walk len ?t 0 \<noteq> []" using False by (simp add: walk_step [of ?t])
    have "pieces s (offsets len s 0) = take ?n s # pieces s (map ((+) ?n) (offsets len ?t 0))"
      using char by (simp add: offsets_step [of s] os pieces_Cons_Cons)
    also have "\<dots> = take ?n s # pieces ?t (offsets len ?t 0)"
      by (simp add: pieces_shift)
    finally show ?thesis
      using char False ne len_le [of s]
      by (simp add: walk_step [of s] min_def add.commute)
  qed
qed simp

lemma concat_butlast_last: "xs \<noteq> [] \<Longrightarrow> concat (butlast xs) @ last xs = concat xs"
  by (induction xs) auto

lemma concat_pieces:
  assumes "len s 0 \<noteq> 0"
  shows "concat (pieces s (offsets len s 0)) = s"
proof -
  have ne: "walk len s 0 \<noteq> []" using assms by (simp add: walk_step)
  have "concat (pieces s (offsets len s 0))
      = concat (butlast (walk len s 0)) @ last (walk len s 0) @ drop (length (concat (walk len s 0))) s"
    by (simp add: pieces_offsets [OF assms])
  also have "\<dots> = concat (walk len s 0) @ drop (length (concat (walk len s 0))) s"
    using concat_butlast_last [OF ne] by (metis append.assoc)
  finally show ?thesis by (simp only: concat_walk)
qed

lemma piece_nonempty: "len s 0 \<noteq> 0 \<Longrightarrow> p \<in> set (pieces s (offsets len s 0)) \<Longrightarrow> p \<noteq> []"
proof -
  assume a: "len s 0 \<noteq> 0" "p \<in> set (pieces s (offsets len s 0))"
  then have ne: "walk len s 0 \<noteq> []" by (simp add: walk_step)
  have nonempty: "c \<noteq> []" if "c \<in> set (walk len s 0)" for c
    using walk_chars that by (auto simp: is_char_def)
  have "p \<in> set (butlast (walk len s 0)) \<or> (\<exists>r. p = last (walk len s 0) @ r)"
    using a(2) unfolding pieces_offsets [OF a(1)] by auto
  moreover have "last (walk len s 0) \<noteq> []" using nonempty last_in_set [OF ne] by blast
  ultimately show "p \<noteq> []"
    using nonempty [OF in_set_butlastD [of p]] by fastforce
qed

lemma pieces_chars:
  assumes "cs \<noteq> []" and "\<forall>c \<in> set cs. is_char c"
  shows "pieces (concat cs) (offsets len (concat cs) 0) = cs"
proof -
  have w: "walk len (concat cs) 0 = cs" using assms(2) by (rule walk_concat)
  then have "len (concat cs) 0 \<noteq> 0" using assms(1) by (metis walk_step)
  from pieces_offsets [OF this] show ?thesis using assms(1) by (simp add: w)
qed

end

section \<open>Both length functions are scanners\<close>

lemma nth_drop_0: "i < length s \<Longrightarrow> drop i s ! 0 = s ! i"
  by simp

interpretation lax: utf8_scanner Utf8Len_lax
proof unfold_locales
  fix s :: bytes and i :: nat
  show "Utf8Len_lax s 0 \<le> length s"
    by (auto simp: Utf8Len_lax_def split: option.split)
  show "Utf8Len_lax s 0 \<le> 4"
    using lead_need_bounds by (auto simp: Utf8Len_lax_def split: option.split)
  show "Utf8Len_lax s i = Utf8Len_lax (drop i s) 0"
    by (auto simp: Utf8Len_lax_def split: option.split)
next
  fix c r :: bytes
  show "Utf8Len_lax c 0 \<noteq> 0 \<Longrightarrow> Utf8Len_lax (c @ r) 0 = Utf8Len_lax c 0"
    by (auto simp: Utf8Len_lax_def nth_append split: option.splits if_splits)
next
  fix s :: bytes
  show "Utf8Len_lax (take (Utf8Len_lax s 0) s) 0 = Utf8Len_lax s 0"
    by (auto simp: Utf8Len_lax_def split: option.splits dest: lead_need_bounds)
qed

interpretation strict: utf8_scanner Utf8Len
proof unfold_locales
  fix s :: bytes and i :: nat
  show "Utf8Len s 0 \<le> length s"
    by (auto simp: Utf8Len_def split: option.split)
  show "Utf8Len s 0 \<le> 4"
    using lead_need_bounds by (auto simp: Utf8Len_def split: option.split)
  show "Utf8Len s i = Utf8Len (drop i s) 0"
    by (auto simp: Utf8Len_def split: option.split)
next
  fix c r :: bytes
  show "Utf8Len c 0 \<noteq> 0 \<Longrightarrow> Utf8Len (c @ r) 0 = Utf8Len c 0"
    by (auto simp: Utf8Len_def nth_append split: option.splits if_splits)
next
  fix s :: bytes
  show "Utf8Len (take (Utf8Len s 0) s) 0 = Utf8Len s 0"
    by (auto simp: Utf8Len_def split: option.splits dest: lead_need_bounds)
qed

text \<open>A well-formed UTF-8 character, as the strict scanner sees it.\<close>

definition utf8_char :: "bytes \<Rightarrow> bool" where
  "utf8_char c \<longleftrightarrow> c \<noteq> [] \<and> Utf8Len c 0 = length c"

lemma utf8_char_strict: "utf8_char c = strict.is_char c"
  by (simp add: utf8_char_def strict.is_char_def)

lemma utf8_char_lax: "utf8_char c \<Longrightarrow> lax.is_char c"
  using Utf8Len_implies_lax [of c 0] by (auto simp: utf8_char_def lax.is_char_def)

lemma SplitUtf8Chars_concat:
  "\<forall>c \<in> set cs. utf8_char c \<Longrightarrow> SplitUtf8Chars (concat cs) = cs"
  unfolding SplitUtf8Chars_def by (rule lax.walk_concat) (auto intro: utf8_char_lax)

lemma pieces_CharOffsets:
  "cs \<noteq> [] \<Longrightarrow> \<forall>c \<in> set cs. utf8_char c \<Longrightarrow> pieces (concat cs) (CharOffsets (concat cs)) = cs"
  unfolding CharOffsets_def by (rule strict.pieces_chars) (auto simp: utf8_char_strict)

lemma utf8_char_bytes:
  assumes "utf8_char c"
  shows "\<exists>b t. c = b # t \<and> \<not> is_cont b \<and> (\<forall>x \<in> set t. is_cont x)"
proof -
  obtain b t where c: "c = b # t" using assms by (cases c) (auto simp: utf8_char_def)
  have l: "Utf8Len c 0 = Suc (length t)" using assms c by (simp add: utf8_char_def)
  then have lead: "lead_need b = Some (Suc (length t))"
    and cont: "\<forall>i \<in> set [1..<Suc (length t)]. is_cont (c ! i)"
    by (auto simp: Utf8Len_def c simp del: upt_Suc split: option.splits if_splits)
  have "is_cont (t ! k)" if "k < length t" for k
    using bspec [OF cont, of "Suc k"] that c by (simp del: upt_Suc)
  then have "\<forall>x \<in> set t. is_cont x" by (auto simp: in_set_conv_nth)
  moreover have "\<not> is_cont b" using lead cont_not_lead by fastforce
  ultimately show ?thesis using c by blast
qed

text \<open>Every ASCII byte is a character.\<close>

lemma walk_ascii: "length s = n \<Longrightarrow> list_all (\<lambda>c. c AND 0x80 = 0) s \<Longrightarrow> walk Utf8Len s 0 = map (\<lambda>c. [c]) s"
proof (induction n arbitrary: s)
  case (Suc n)
  then obtain c t where "s = c # t" by (cases s) auto
  moreover from this Suc.prems have "Utf8Len (c # t) 0 = 1"
    by (simp add: Utf8Len_def lead_need_def)
  ultimately show ?case using Suc by (simp add: strict.walk_step [of "c # t"])
qed (simp add: walk.simps)

section \<open>The last character\<close>

text \<open>
  \<^verbatim>\<open>LastUtf8Char\<close> of reranker_deterministic.cc: a \<^verbatim>\<open>do .. while\<close> that steps back once
  and then over continuation bytes.
\<close>

fun last_start :: "bytes \<Rightarrow> nat \<Rightarrow> nat" where
  "last_start s 0 = 0"
| "last_start s (Suc i) = (if is_cont (s ! Suc i) then last_start s i else Suc i)"

definition LastUtf8Char :: "bytes \<Rightarrow> bytes" where
  "LastUtf8Char s = (if s = [] then [] else drop (last_start s (length s - 1)) s)"

lemma last_start_conts:
  assumes "\<not> is_cont b" and "\<forall>x \<in> set t. is_cont x"
  shows "j \<le> length t \<Longrightarrow> last_start (pre @ b # t) (length pre + j) = length pre"
proof (induction j)
  case 0
  show ?case using assms(1) by (cases "length pre") (auto simp: nth_append)
next
  case (Suc j)
  then have "(pre @ b # t) ! Suc (length pre + j) = t ! j"
    by (simp add: nth_append)
  then show ?case using Suc assms(2) by auto
qed

theorem LastUtf8Char_append:
  assumes "utf8_char c"
  shows "LastUtf8Char (pre @ c) = c"
proof -
  obtain b t where c: "c = b # t" "\<not> is_cont b" "\<forall>x \<in> set t. is_cont x"
    using utf8_char_bytes [OF assms] by blast
  have "last_start (pre @ c) (length (pre @ c) - 1) = length pre"
    using last_start_conts [OF c(2,3), of "length t" pre] c(1) by simp
  then show ?thesis using c(1) by (simp add: LastUtf8Char_def)
qed

lemma LastUtf8Char_suffix: "\<exists>pre. s = pre @ LastUtf8Char s"
  by (metis LastUtf8Char_def append_Nil append_take_drop_id)

end
