(* ===== verification/History_Types.thy ===== *)
theory History_Types
  imports Utf8_Text
begin

text \<open>
  The rows of the history store and the phrase chaining that the bigram counter
  (\<^verbatim>\<open>UpdateBigramsFromHistory\<close>) and the new-word discovery share: entries in
  chronological order belong to one run as long as the gap to the previous entry does not
  exceed a threshold.  \<open>runs\<close> is the specification of that grouping; the loops of the code
  carry the previous time stamp along instead, and \<open>chain_loop\<close> is their shape.
\<close>

section \<open>Rows\<close>

record HistoryEntry =
  he_id :: u64
  he_ts_us :: u64
  he_code :: bytes
  he_committed_text :: bytes
  he_context_before :: bytes

text \<open>The comparator of both calls of \<^verbatim>\<open>std::sort\<close>: ascending time stamps.\<close>

definition ts_less :: "HistoryEntry \<Rightarrow> HistoryEntry \<Rightarrow> bool" where
  "ts_less a b \<longleftrightarrow> he_ts_us a < he_ts_us b"

interpretation ts: compare ts_less
  by unfold_locales (auto simp: ts_less_def)

section \<open>Runs\<close>

text \<open>\<^verbatim>\<open>(e.ts_us - prev_ts) > gap\<close> on 64-bit words.\<close>

definition gap_between :: "u64 \<Rightarrow> HistoryEntry \<Rightarrow> HistoryEntry \<Rightarrow> bool" where
  "gap_between gap e e' \<longleftrightarrow> he_ts_us e' - he_ts_us e > gap"

fun runs :: "u64 \<Rightarrow> HistoryEntry list \<Rightarrow> HistoryEntry list list" where
  "runs gap [] = []"
| "runs gap [e] = [[e]]"
| "runs gap (e # e' # es) =
     (if gap_between gap e e' then [e] # runs gap (e' # es)
      else case runs gap (e' # es) of r # rs \<Rightarrow> (e # r) # rs | [] \<Rightarrow> [[e]])"

lemma runs_Cons_ne: "\<exists>r rs. runs gap (e # es) = (e # r) # rs"
proof (induction es arbitrary: e)
  case (Cons e' es)
  from Cons.IH [of e'] obtain r rs where "runs gap (e' # es) = (e' # r) # rs" by blast
  then show ?case by simp
qed simp

lemma concat_runs: "concat (runs gap es) = es"
proof (induction gap es rule: runs.induct)
  case (3 gap e e' es)
  then show ?case using runs_Cons_ne [of gap e' es] by (auto split: list.split)
qed auto

lemma runs_nonempty: "r \<in> set (runs gap es) \<Longrightarrow> r \<noteq> []"
proof (induction gap es arbitrary: r rule: runs.induct)
  case (3 gap e e' es)
  then show ?case using runs_Cons_ne [of gap e' es] by (auto split: if_splits list.splits)
qed auto

text \<open>Inside a run no gap exceeds the threshold.\<close>

lemma runs_close: "r \<in> set (runs gap es) \<Longrightarrow> successively (\<lambda>a b. \<not> gap_between gap a b) r"
proof (induction gap es arbitrary: r rule: runs.induct)
  case (3 gap e e' es)
  obtain r0 rs where "runs gap (e' # es) = (e' # r0) # rs"
    using runs_Cons_ne by blast
  with 3 show ?case by (cases "gap_between gap e e'") auto
qed auto

section \<open>The loop of the code\<close>

text \<open>
  A loop over the entries that carries an accumulator and the time stamp of the previous
  entry; \<open>live\<close> is the guard in front of the gap test (\<^verbatim>\<open>!prev_char.empty()\<close>,
  \<^verbatim>\<open>!run.empty()\<close>), \<open>brk\<close> what a boundary does, \<open>body\<close> what an entry adds.
\<close>

fun chain_loop :: "('s \<Rightarrow> bool) \<Rightarrow> ('s \<Rightarrow> 's) \<Rightarrow> (HistoryEntry \<Rightarrow> 's \<Rightarrow> 's) \<Rightarrow> u64 \<Rightarrow>
    HistoryEntry list \<Rightarrow> u64 \<Rightarrow> 's \<Rightarrow> 's" where
  "chain_loop live brk body gap [] prev_ts s = s"
| "chain_loop live brk body gap (e # es) prev_ts s =
     chain_loop live brk body gap es (he_ts_us e)
       (body e (if live s \<and> he_ts_us e - prev_ts > gap then brk s else s))"

text \<open>
  If \<open>brk\<close> is the identity on states that are not \<open>live\<close>, the loop handles the runs one
  after the other with a \<open>brk\<close> in between.
\<close>

lemma chain_loop_runs_from:
  assumes "\<And>s. \<not> live s \<Longrightarrow> brk s = s"
  shows "chain_loop live brk body gap es (he_ts_us e) (body e s) =
    (case runs gap (e # es) of
       r # rs \<Rightarrow> fold (\<lambda>r s. fold body r (brk s)) rs (fold body r s)
     | [] \<Rightarrow> s)"
proof (induction es arbitrary: e s)
  case (Cons e' es)
  obtain r rs where rr: "runs gap (e' # es) = (e' # r) # rs"
    using runs_Cons_ne by blast
  show ?case
    using Cons.IH [of e' "body e s"] Cons.IH [of e' "brk (body e s)"] assms [of "body e s"] rr
    by (auto simp: gap_between_def)
qed simp

lemma chain_loop_runs:
  assumes "\<And>s. \<not> live s \<Longrightarrow> brk s = s" and "\<not> live s"
  shows "chain_loop live brk body gap es prev_ts s = fold (\<lambda>r s. fold body r (brk s)) (runs gap es) s"
proof (cases es)
  case (Cons e es')
  obtain r rs where rr: "runs gap (e # es') = (e # r) # rs"
    using runs_Cons_ne by blast
  show ?thesis
    using chain_loop_runs_from [of live brk body gap es' e s] assms rr Cons by simp
qed simp

end
