(* ===== verification/Files.thy ===== *)
theory Files
  imports Dafeng_Prelude
begin

text \<open>
  The part of the file system the learning code relies on: a map from paths to contents, and
  the idiom ``write \<^verbatim>\<open>path.tmp\<close>, then rename it over \<^verbatim>\<open>path\<close>'' that
  \<^verbatim>\<open>NgramTable::Save\<close>, \<^verbatim>\<open>YamlGenerator::Generate\<close> and
  \<^verbatim>\<open>WriteRimeDictYaml\<close> share.  What the operating system answers is a record of
  outcomes; \<open>replace_file\<close> is the code's control flow over it.  \<open>replace_step\<close> shows the same
  run one system call at a time, so that a crash or a reader in between is a reachable state.
\<close>

section \<open>Paths and contents\<close>

type_synonym path = bytes
type_synonym fs = "path \<Rightarrow> bytes option"

definition tmp_path :: "path \<Rightarrow> path" where
  "tmp_path p = p @ lit ''.tmp''"

text \<open>
  \<^verbatim>\<open>operator/\<close> of \<^verbatim>\<open>std::filesystem::path\<close> on POSIX: an absolute right operand
  replaces the left one, and no second separator is added.
\<close>

definition join :: "path \<Rightarrow> bytes \<Rightarrow> path" where
  "join p q =
     (if q \<noteq> [] \<and> hd q = 0x2F then q
      else if p = [] \<or> last p = 0x2F then p @ q
      else p @ [0x2F] @ q)"

lemma join_relative: "q = [] \<or> hd q \<noteq> 0x2F \<Longrightarrow> \<exists>r. join p q = r @ q"
  by (auto simp: join_def)

lemma tmp_path_neq [simp]: "tmp_path p \<noteq> p" "p \<noteq> tmp_path p"
  by (simp_all add: tmp_path_def)

section \<open>Outcomes of the calls\<close>

text \<open>
  \<open>fe_open\<close>: the \<^verbatim>\<open>ofstream\<close> opens; \<open>fe_stop\<close>: the number of bytes that reach the
  file when writing or closing fails; \<open>fe_rename\<close>: \<^verbatim>\<open>std::filesystem::rename\<close> succeeds.
\<close>

record file_events =
  fe_open :: bool
  fe_stop :: "nat option"
  fe_rename :: bool

definition replace_file :: "file_events \<Rightarrow> path \<Rightarrow> bytes \<Rightarrow> fs \<Rightarrow> bool \<times> fs" where
  "replace_file ev p content f =
     (if \<not> fe_open ev then (False, f)
      else case fe_stop ev of
        Some n \<Rightarrow> (False, f(tmp_path p \<mapsto> take n content))
      | None \<Rightarrow>
          if fe_rename ev then (True, (f(tmp_path p := None))(p \<mapsto> content))
          else (False, f(tmp_path p \<mapsto> content)))"

section \<open>The same run, call by call\<close>

datatype replace_pc = Opening | Writing nat | Renaming | Returned bool

inductive replace_step :: "path \<Rightarrow> bytes \<Rightarrow> replace_pc \<times> fs \<Rightarrow> replace_pc \<times> fs \<Rightarrow> bool"
  for p :: path and content :: bytes where
  open_fails: "replace_step p content (Opening, f) (Returned False, f)"
| opened: "replace_step p content (Opening, f) (Writing 0, f(tmp_path p \<mapsto> []))"
| wrote: "n < length content \<Longrightarrow>
    replace_step p content (Writing n, f) (Writing (Suc n), f(tmp_path p \<mapsto> take (Suc n) content))"
| write_fails: "replace_step p content (Writing n, f) (Returned False, f)"
| closed: "n = length content \<Longrightarrow> replace_step p content (Writing n, f) (Renaming, f)"
| renamed: "replace_step p content (Renaming, f)
    (Returned True, (f(tmp_path p := None))(p := f (tmp_path p)))"
| rename_fails: "replace_step p content (Renaming, f) (Returned False, f)"

inductive_cases replace_stepE: "replace_step p content (pc, f) s"

text \<open>What holds between any two system calls.\<close>

fun replace_inv :: "path \<Rightarrow> bytes \<Rightarrow> fs \<Rightarrow> replace_pc \<times> fs \<Rightarrow> bool" where
  "replace_inv p content f0 (Opening, f) = (f = f0)"
| "replace_inv p content f0 (Writing n, f) = (f = f0(tmp_path p \<mapsto> take n content) \<and> n \<le> length content)"
| "replace_inv p content f0 (Renaming, f) = (f = f0(tmp_path p \<mapsto> content))"
| "replace_inv p content f0 (Returned ok, f) =
     (if ok then f = (f0(tmp_path p := None))(p \<mapsto> content)
      else \<exists>t. f = f0(tmp_path p := t))"

lemma replace_inv_step:
  "replace_step p content s s' \<Longrightarrow> replace_inv p content f0 s \<Longrightarrow> replace_inv p content f0 s'"
  by (induction rule: replace_step.induct) (auto intro: exI [of _ "f0 (tmp_path p)"])

lemma replace_inv_reachable:
  "(replace_step p content)\<^sup>*\<^sup>* (Opening, f0) s \<Longrightarrow> replace_inv p content f0 s"
  by (induction rule: rtranclp_induct) (auto intro: replace_inv_step)

text \<open>The functional form is one of these runs.\<close>

lemma writes_prefix:
  "n \<le> length content \<Longrightarrow>
     (replace_step p content)\<^sup>*\<^sup>* (Opening, f) (Writing n, f(tmp_path p \<mapsto> take n content))"
proof (induction n)
  case 0
  show ?case using r_into_rtranclp [of "replace_step p content", OF opened [of p content f]] by (simp only: take_0)
next
  case (Suc n)
  have "(replace_step p content)\<^sup>*\<^sup>* (Opening, f) (Writing n, f(tmp_path p \<mapsto> take n content))"
    using Suc.prems by (rule Suc.IH [OF Suc_leD])
  moreover have "replace_step p content (Writing n, f(tmp_path p \<mapsto> take n content))
      (Writing (Suc n), f(tmp_path p \<mapsto> take (Suc n) content))"
    using wrote [of n content p "f(tmp_path p \<mapsto> take n content)"] Suc.prems by simp
  ultimately show ?case by (rule rtranclp.rtrancl_into_rtrancl)
qed

lemma replace_file_run:
  "(replace_step p content)\<^sup>*\<^sup>* (Opening, f)
     (Returned (fst (replace_file ev p content f)), snd (replace_file ev p content f))"
proof -
  let ?step = "replace_step p content" and ?tmp = "tmp_path p"
  have full: "?step\<^sup>*\<^sup>* (Opening, f) (Renaming, f(?tmp \<mapsto> content))"
    using writes_prefix [of "length content" content p f] closed [of "length content" content p]
    by (auto intro: rtranclp.rtrancl_into_rtrancl)
  have cut: "?step\<^sup>*\<^sup>* (Opening, f) (Returned False, f(?tmp \<mapsto> take n content))" for n
  proof -
    have "take (min n (length content)) content = take n content" by (simp add: min_def)
    then show ?thesis
      using writes_prefix [of "min n (length content)" content p f]
        write_fails [of p content "min n (length content)" "f(?tmp \<mapsto> take n content)"]
      by (auto intro: rtranclp.rtrancl_into_rtrancl)
  qed
  have ren: "?step (Renaming, f(?tmp \<mapsto> content)) (Returned True, (f(?tmp := None))(p \<mapsto> content))"
    using renamed [of p content "f(?tmp \<mapsto> content)"] by simp
  have "?step\<^sup>*\<^sup>* (Opening, f) (Returned False, f)"
    using open_fails by (rule r_into_rtranclp)
  then show ?thesis
    using full cut ren rename_fails [of p content]
    by (auto simp: replace_file_def split: option.split intro: rtranclp.rtrancl_into_rtrancl)
qed

text \<open>C18: Replacing a file is atomic for everybody who looks at the target path: at every moment
  of the run, so also after a crash, the target holds its old contents or all of the new ones,
  and no path but the target and its \<^verbatim>\<open>.tmp\<close> changes; a run that reports failure leaves
  the target as it was, and one that reports success leaves the new contents and no
  \<^verbatim>\<open>.tmp\<close> file.\<close>

theorem replace_never_torn:
  assumes "(replace_step p content)\<^sup>*\<^sup>* (Opening, f0) (pc, f)"
  shows "(f p = f0 p \<or> f p = Some content) \<and> (\<forall>q. q \<noteq> p \<and> q \<noteq> tmp_path p \<longrightarrow> f q = f0 q)
    \<and> (pc = Returned False \<longrightarrow> f p = f0 p)
    \<and> (pc = Returned True \<longrightarrow> f p = Some content \<and> f (tmp_path p) = None)"
proof -
  have "replace_inv p content f0 (pc, f)"
    using assms by (rule replace_inv_reachable)
  then show ?thesis by (cases pc) (auto split: if_splits)
qed

theorem replace_never_torn_witness:
  "replace_file \<lparr>fe_open = True, fe_stop = Some 1, fe_rename = True\<rparr> [97] [7, 8] [[97] \<mapsto> [5]]
     = (False, [[97] \<mapsto> [5], [97, 46, 116, 109, 112] \<mapsto> [7]])
   \<and> snd (replace_file \<lparr>fe_open = True, fe_stop = Some 1, fe_rename = True\<rparr> [97] [7, 8] [[97] \<mapsto> [5]]) [97]
     = Some [5]"
  using replace_never_torn [OF replace_file_run [of "[97]" "[7, 8]" "[[97] \<mapsto> [5]]"
      "\<lparr>fe_open = True, fe_stop = Some 1, fe_rename = True\<rparr>"]]
  by (simp add: replace_file_def tmp_path_def)

lemma replace_file_result:
  assumes "replace_file ev p content f = (ok, f')"
  shows "f' p = (if ok then Some content else f p)"
    and "q \<noteq> p \<Longrightarrow> q \<noteq> tmp_path p \<Longrightarrow> f' q = f q"
  using assms by (auto simp: replace_file_def split: if_splits option.splits)

section \<open>Lines\<close>

text \<open>\<^verbatim>\<open>while (std::getline(f, line))\<close>: a last line without a newline counts, an empty
  rest does not.\<close>

function getlines :: "bytes \<Rightarrow> bytes list" where
  "getlines s =
     (if s = [] then []
      else takeWhile (\<lambda>c. c \<noteq> 0x0A) s # getlines (drop (Suc (length (takeWhile (\<lambda>c. c \<noteq> 0x0A) s))) s))"
  by pat_completeness auto
termination
  by (relation "measure length") auto

declare getlines.simps [simp del]

lemma getlines_eval:
  "getlines [] = []"
  "getlines (c # s) = takeWhile (\<lambda>c. c \<noteq> 0x0A) (c # s)
     # getlines (drop (Suc (length (takeWhile (\<lambda>c. c \<noteq> 0x0A) (c # s)))) (c # s))"
  by (subst getlines.simps; simp)+

lemma getlines_no_newline: "line \<in> set (getlines s) \<Longrightarrow> 0x0A \<notin> set line"
proof (induction s rule: getlines.induct)
  case (1 s)
  then show ?case
    by (subst (asm) (2) getlines.simps) (auto split: if_splits dest: set_takeWhileD)
qed

text \<open>Writing lines and reading them again.\<close>

definition text_line :: "bytes \<Rightarrow> bytes" where
  "text_line s = s @ [0x0A]"

lemma takeWhile_text_line: "0x0A \<notin> set l \<Longrightarrow> takeWhile (\<lambda>c. c \<noteq> 0x0A) (text_line l @ r) = l"
  unfolding text_line_def by (induction l) auto

lemma getlines_text_line: "0x0A \<notin> set l \<Longrightarrow> getlines (text_line l @ r) = l # getlines r"
proof -
  assume "0x0A \<notin> set l"
  then have "takeWhile (\<lambda>c. c \<noteq> 0x0A) (text_line l @ r) = l" by (rule takeWhile_text_line)
  moreover have "drop (Suc (length l)) (text_line l @ r) = r" "text_line l @ r \<noteq> []"
    by (simp_all add: text_line_def)
  ultimately show ?thesis by (subst getlines.simps) simp
qed

lemma getlines_lines:
  "\<forall>l \<in> set ls. 0x0A \<notin> set l \<Longrightarrow> getlines (concat (map text_line ls) @ r) = ls @ getlines r"
  by (induction ls) (simp_all add: getlines_text_line)

end
