(* ===== verification/Ngram.thy ===== *)
theory Ngram
  imports History_Types Files
begin

unbundle bit_operations_syntax

text \<open>
  The personal bigram counter of ngram.cc: the two-level map \<^verbatim>\<open>map_\<close>, its queries,
  the binary file format and the pass over the history.  The mutex makes every method atomic,
  so a method is a function on the table.  \<^verbatim>\<open>std::sort\<close> and
  \<^verbatim>\<open>std::partial_sort\<close> are parameters with their documented contracts.
\<close>

section \<open>The table\<close>

type_synonym inner = "(bytes \<times> u32) list"
type_synonym NgramTable = "(bytes \<times> inner) list"

text \<open>\<^verbatim>\<open>map_[a]\<close> as \<^verbatim>\<open>operator[]\<close> sees it, and the assignment \<^verbatim>\<open>map_[a][b] = v\<close>.\<close>

definition inner_of :: "bytes \<Rightarrow> NgramTable \<Rightarrow> inner" where
  "inner_of a m = (case map_of m a of None \<Rightarrow> [] | Some i \<Rightarrow> i)"

definition put2 :: "bytes \<Rightarrow> bytes \<Rightarrow> u32 \<Rightarrow> NgramTable \<Rightarrow> NgramTable" where
  "put2 a b v m = al_put a (al_put b v (inner_of a m)) m"

definition IncrementBigram :: "bytes \<Rightarrow> bytes \<Rightarrow> NgramTable \<Rightarrow> NgramTable" where
  "IncrementBigram a b m =
     (if a = [] \<or> b = [] then m
      else put2 a b ((case map_of (inner_of a m) b of None \<Rightarrow> 0 | Some c \<Rightarrow> c) + 1) m)"

definition BigramCount :: "NgramTable \<Rightarrow> bytes \<Rightarrow> bytes \<Rightarrow> u32" where
  "BigramCount m a b =
     (case map_of m a of
        None \<Rightarrow> 0
      | Some i \<Rightarrow> (case map_of i b of None \<Rightarrow> 0 | Some c \<Rightarrow> c))"

definition Size :: "NgramTable \<Rightarrow> nat" where
  "Size m = sum_list (map (\<lambda>kv. length (snd kv)) m)"

definition count_greater :: "bytes \<times> u32 \<Rightarrow> bytes \<times> u32 \<Rightarrow> bool" where
  "count_greater x y \<longleftrightarrow> snd x > snd y"

definition TopFollowers ::
  "(nat \<Rightarrow> inner \<Rightarrow> inner) \<Rightarrow> (inner \<Rightarrow> inner) \<Rightarrow> NgramTable \<Rightarrow> bytes \<Rightarrow> nat \<Rightarrow> inner" where
  "TopFollowers psrt srt m a k =
     (case map_of m a of
        None \<Rightarrow> []
      | Some entries \<Rightarrow> if length entries > k then take k (psrt k entries) else srt entries)"

section \<open>The file format\<close>

definition Write32 :: "u32 \<Rightarrow> bytes" where
  "Write32 v = [ucast (v AND 0xFF), ucast (drop_bit 8 v AND 0xFF),
                ucast (drop_bit 16 v AND 0xFF), ucast (drop_bit 24 v AND 0xFF)]"

definition Write16 :: "u16 \<Rightarrow> bytes" where
  "Write16 v = [ucast (v AND 0xFF), ucast (drop_bit 8 v AND 0xFF)]"

text \<open>\<^verbatim>\<open>is.read(buf, n)\<close> fails when fewer than \<open>n\<close> bytes are left.\<close>

definition read_n :: "nat \<Rightarrow> bytes \<Rightarrow> (bytes \<times> bytes) option" where
  "read_n n s = (if length s < n then None else Some (take n s, drop n s))"

definition Read32 :: "bytes \<Rightarrow> (u32 \<times> bytes) option" where
  "Read32 s = (case read_n 4 s of
     None \<Rightarrow> None
   | Some (b, r) \<Rightarrow> Some (ucast (b ! 0) OR push_bit 8 (ucast (b ! 1))
        OR push_bit 16 (ucast (b ! 2)) OR push_bit 24 (ucast (b ! 3)), r))"

definition Read16 :: "bytes \<Rightarrow> (u16 \<times> bytes) option" where
  "Read16 s = (case read_n 2 s of
     None \<Rightarrow> None
   | Some (b, r) \<Rightarrow> Some (ucast (b ! 0) OR push_bit 8 (ucast (b ! 1)), r))"

definition kMagic :: bytes where
  "kMagic = lit ''DAFNGRAM''"

definition kVersion :: u32 where
  "kVersion = 1"

text \<open>The records of the nested loops of \<^verbatim>\<open>Save\<close>, with the keys it skips.\<close>

definition save_record :: "bytes \<Rightarrow> bytes \<times> u32 \<Rightarrow> bytes" where
  "save_record a kv =
     (if length a > 65535 \<or> length (fst kv) > 65535 then []
      else Write16 (of_nat (length a)) @ a
         @ Write16 (of_nat (length (fst kv))) @ fst kv @ Write32 (snd kv))"

definition save_bytes :: "NgramTable \<Rightarrow> bytes" where
  "save_bytes m =
     kMagic @ Write32 kVersion @ Write32 (of_nat (Size m))
     @ concat (map (\<lambda>outer. concat (map (save_record (fst outer)) (snd outer))) m)"

definition Save :: "file_events \<Rightarrow> path \<Rightarrow> NgramTable \<Rightarrow> fs \<Rightarrow> bool \<times> fs" where
  "Save ev p m f = replace_file ev p (save_bytes m) f"

text \<open>The loop over \<^verbatim>\<open>pair_count\<close>; every early return leaves the entries read so far.\<close>

definition load_record :: "bytes \<Rightarrow> ((bytes \<times> bytes \<times> u32) \<times> bytes) option" where
  "load_record s =
     (case Read16 s of None \<Rightarrow> None | Some (alen, s1) \<Rightarrow>
      case read_n (unat alen) s1 of None \<Rightarrow> None | Some (a, s2) \<Rightarrow>
      case Read16 s2 of None \<Rightarrow> None | Some (blen, s3) \<Rightarrow>
      case read_n (unat blen) s3 of None \<Rightarrow> None | Some (b, s4) \<Rightarrow>
      case Read32 s4 of None \<Rightarrow> None | Some (cnt, s5) \<Rightarrow> Some ((a, b, cnt), s5))"

fun load_pairs :: "nat \<Rightarrow> bytes \<Rightarrow> NgramTable \<Rightarrow> bool \<times> NgramTable" where
  "load_pairs 0 s m = (True, m)"
| "load_pairs (Suc n) s m =
     (case load_record s of
        None \<Rightarrow> (False, m)
      | Some ((a, b, cnt), r) \<Rightarrow> load_pairs n r (put2 a b cnt m))"

definition load_bytes :: "bytes \<Rightarrow> bool \<times> NgramTable" where
  "load_bytes s =
     (case read_n 8 s of None \<Rightarrow> (False, []) | Some (magic, s1) \<Rightarrow>
      if magic \<noteq> kMagic then (False, [])
      else case Read32 s1 of None \<Rightarrow> (False, []) | Some (version, s2) \<Rightarrow>
      if version \<noteq> kVersion then (False, [])
      else case Read32 s2 of None \<Rightarrow> (False, []) | Some (pair_count, s3) \<Rightarrow>
      load_pairs (unat pair_count) s3 [])"

definition Load :: "path \<Rightarrow> fs \<Rightarrow> bool \<times> NgramTable" where
  "Load p f = (case f p of None \<Rightarrow> (False, []) | Some s \<Rightarrow> load_bytes s)"

section \<open>The pass over the history\<close>

text \<open>The state of \<^verbatim>\<open>UpdateBigramsFromHistory\<close>: previous character, table, increments.\<close>

definition scan_char :: "(bytes \<Rightarrow> bytes \<Rightarrow> 't \<Rightarrow> 't) \<Rightarrow> bytes \<Rightarrow> bytes \<times> 't \<times> u64 \<Rightarrow> bytes \<times> 't \<times> u64" where
  "scan_char inc ch st =
     (case st of (prev_char, table, increments) \<Rightarrow>
        if prev_char \<noteq> [] then (ch, inc prev_char ch table, increments + 1)
        else (ch, table, increments))"

definition scan_entry ::
  "(bytes \<Rightarrow> bytes \<Rightarrow> 't \<Rightarrow> 't) \<Rightarrow> HistoryEntry \<Rightarrow> bytes \<times> 't \<times> u64 \<Rightarrow> bytes \<times> 't \<times> u64" where
  "scan_entry inc e = fold (scan_char inc) (walk Utf8Len (he_committed_text e) 0)"

definition kChainGapUs :: u64 where
  "kChainGapUs = 2000000"

definition UpdateBigramsFromHistory ::
  "(bytes \<Rightarrow> bytes \<Rightarrow> 't \<Rightarrow> 't) \<Rightarrow> (HistoryEntry list \<Rightarrow> HistoryEntry list) \<Rightarrow>
     HistoryEntry list \<Rightarrow> 't \<Rightarrow> u64 \<times> 't" where
  "UpdateBigramsFromHistory inc srt entries table =
     (case chain_loop (\<lambda>(prev_char, _). prev_char \<noteq> []) (\<lambda>(_, st). ([], st)) (scan_entry inc)
             kChainGapUs (srt entries) 0 ([], table, 0) of
        (_, table', increments) \<Rightarrow> (increments, table'))"

section \<open>Queries and updates\<close>

lemma BigramCount_inner: "BigramCount m a b = (case map_of (inner_of a m) b of None \<Rightarrow> 0 | Some c \<Rightarrow> c)"
  by (simp add: BigramCount_def inner_of_def split: option.split)

lemma inner_of_put2: "inner_of x (put2 a b v m) = (if x = a then al_put b v (inner_of a m) else inner_of x m)"
  by (simp add: put2_def inner_of_def)

lemma BigramCount_put2:
  "BigramCount (put2 a b v m) x y = (if x = a \<and> y = b then v else BigramCount m x y)"
  by (simp add: BigramCount_inner inner_of_put2)

lemma BigramCount_IncrementBigram:
  "BigramCount (IncrementBigram a b m) x y =
     BigramCount m x y + (if a \<noteq> [] \<and> b \<noteq> [] \<and> x = a \<and> y = b then 1 else 0)"
  by (auto simp: IncrementBigram_def BigramCount_put2 BigramCount_inner [symmetric])

text \<open>The representation invariant: distinct keys on both levels and no empty inner map.\<close>

definition table_ok :: "NgramTable \<Rightarrow> bool" where
  "table_ok m \<longleftrightarrow> distinct (map fst m) \<and>
     (\<forall>kv \<in> set m. distinct (map fst (snd kv)) \<and> snd kv \<noteq> [])"

lemma table_ok_Nil [simp]: "table_ok []"
  by (simp add: table_ok_def)

lemma table_ok_inner: "table_ok m \<Longrightarrow> distinct (map fst (inner_of a m))"
  by (auto simp: table_ok_def inner_of_def split: option.split dest!: map_of_SomeD)

lemma al_put_ne [simp]: "al_put k v m \<noteq> []"
  by (cases "(k, v, m)" rule: al_put.cases) auto

lemma table_ok_put2: "table_ok m \<Longrightarrow> table_ok (put2 a b v m)"
  using table_ok_inner [of m a] by (auto simp: table_ok_def put2_def set_al_put)

lemma table_ok_IncrementBigram: "table_ok m \<Longrightarrow> table_ok (IncrementBigram a b m)"
  by (simp add: IncrementBigram_def table_ok_put2)

lemma table_ok_load_pairs: "table_ok m \<Longrightarrow> table_ok (snd (load_pairs n s m))"
  by (induction n s m rule: load_pairs.induct) (auto simp: table_ok_put2 split: option.split)

lemma table_ok_load_bytes: "table_ok (snd (load_bytes s))"
  by (auto simp: load_bytes_def table_ok_load_pairs split: option.split)

end
