(* ===== verification/Ngram_Correct.thy ===== *)
theory Ngram_Correct
  imports Ngram
begin

unbundle bit_operations_syntax

text \<open>
  Properties of the bigram counter: the little-endian integers and records read back, what
  \<^verbatim>\<open>Load\<close> makes of a saved table, the counts the pass over the history adds, and the
  answers of \<^verbatim>\<open>TopFollowers\<close>.
\<close>

section \<open>Integers read back\<close>

lemma read_n_append [simp]: "n = length a \<Longrightarrow> read_n n (a @ r) = Some (a, r)"
  by (simp add: read_n_def)

lemma Read32_Write32 [simp]: "Read32 (Write32 v @ r) = Some (v, r)"
proof -
  have "length (Write32 v) = 4" by (simp add: Write32_def)
  then have "Read32 (Write32 v @ r) = Some (ucast (Write32 v ! 0) OR push_bit 8 (ucast (Write32 v ! 1))
        OR push_bit 16 (ucast (Write32 v ! 2)) OR push_bit 24 (ucast (Write32 v ! 3)), r)"
    by (simp only: Read32_def read_n_append) simp
  then show ?thesis
    using frame_word_split [of v] by (simp add: Write32_def or.commute or.left_commute or.assoc)
qed

lemma Read16_Write16 [simp]: "Read16 (Write16 v @ r) = Some (v, r)"
proof -
  have "length (Write16 v) = 2" by (simp add: Write16_def)
  then have "Read16 (Write16 v @ r) = Some (ucast (Write16 v ! 0) OR push_bit 8 (ucast (Write16 v ! 1)), r)"
    by (simp only: Read16_def read_n_append) simp
  then show ?thesis using short_word_split [of v] by (simp add: Write16_def)
qed

section \<open>Records read back\<close>

definition short_key :: "bytes \<Rightarrow> bool" where
  "short_key k \<longleftrightarrow> length k \<le> 65535"

lemma unat_of_nat_short: "short_key k \<Longrightarrow> unat (of_nat (length k) :: u16) = length k"
  by (simp add: short_key_def unat_of_nat)

lemma load_record_save:
  assumes "short_key a" and "short_key b"
  shows "load_record (save_record a (b, c) @ r) = Some ((a, b, c), r)"
proof -
  have "save_record a (b, c) = Write16 (of_nat (length a)) @ a @ Write16 (of_nat (length b)) @ b @ Write32 c"
    using assms by (simp add: save_record_def short_key_def)
  then show ?thesis
    by (simp add: load_record_def unat_of_nat_short assms)
qed

text \<open>All entries of a table, and what is left of it in the file.\<close>

definition pairs :: "NgramTable \<Rightarrow> (bytes \<times> bytes \<times> u32) list" where
  "pairs m = concat (map (\<lambda>(a, i). map (\<lambda>(b, c). (a, b, c)) i) m)"

definition storable :: "bytes \<times> bytes \<times> u32 \<Rightarrow> bool" where
  "storable = (\<lambda>(a, b, c). short_key a \<and> short_key b)"

definition pair_key :: "bytes \<times> bytes \<times> u32 \<Rightarrow> bytes \<times> bytes" where
  "pair_key p = (fst p, fst (snd p))"

definition pair_bytes :: "bytes \<times> bytes \<times> u32 \<Rightarrow> bytes" where
  "pair_bytes = (\<lambda>(a, b, c). save_record a (b, c))"

definition put_pair :: "bytes \<times> bytes \<times> u32 \<Rightarrow> NgramTable \<Rightarrow> NgramTable" where
  "put_pair = (\<lambda>(a, b, c). put2 a b c)"

lemma pairs_simps [simp]:
  "pairs [] = []"
  "pairs ((a, i) # m) = map (\<lambda>(b, c). (a, b, c)) i @ pairs m"
  by (simp_all add: pairs_def)

lemma length_pairs: "length (pairs m) = Size m"
  by (induction m) (auto simp: Size_def)

lemma save_record_not_storable: "\<not> storable p \<Longrightarrow> pair_bytes p = []"
  by (auto simp: storable_def pair_bytes_def save_record_def short_key_def split: prod.splits)

lemma records_pairs:
  "concat (map (\<lambda>outer. concat (map (save_record (fst outer)) (snd outer))) m)
     = concat (map pair_bytes (filter storable (pairs m)))"
proof -
  have "concat (map (\<lambda>outer. concat (map (save_record (fst outer)) (snd outer))) m)
      = concat (map pair_bytes (pairs m))"
    by (induction m) (auto simp: pair_bytes_def comp_def split_def)
  also have "\<dots> = concat (map pair_bytes (filter storable ps))" if "ps = pairs m" for ps
    unfolding that [symmetric] by (induction ps) (auto simp: save_record_not_storable)
  finally show ?thesis by simp
qed

lemma load_pairs_saved:
  assumes "\<forall>p \<in> set ps. storable p"
  shows "load_pairs (length ps + k) (concat (map pair_bytes ps) @ r) m
    = load_pairs k r (fold put_pair ps m)"
  using assms
proof (induction ps arbitrary: m)
  case (Cons p ps)
  obtain a b c where p: "p = (a, b, c)" by (cases p) auto
  have "load_record (pair_bytes p @ s) = Some ((a, b, c), s)" for s
    using Cons.prems by (auto simp: p pair_bytes_def storable_def load_record_save)
  with Cons show ?case by (simp add: p put_pair_def)
qed simp

text \<open>The end of the file in front of the announced number of records.\<close>

lemma load_pairs_short: "load_pairs k [] m = (k = 0, m)"
  by (cases k) (simp_all add: load_record_def Read16_def read_n_def)

lemma load_bytes_save:
  assumes "Size m < 2 ^ 32"
  shows "load_bytes (save_bytes m)
    = (\<forall>p \<in> set (pairs m). storable p, fold put_pair (filter storable (pairs m)) [])"
proof -
  let ?ps = "filter storable (pairs m)"
  have len: "length kMagic = 8" by (simp add: kMagic_def)
  have n: "unat (of_nat (Size m) :: u32) = length ?ps + (Size m - length ?ps)"
    using assms length_pairs [of m] length_filter_le [of storable "pairs m"]
    by (simp add: unat_of_nat)
  have all: "Size m - length ?ps = 0 \<longleftrightarrow> (\<forall>p \<in> set (pairs m). storable p)"
    using length_pairs [of m] length_filter_less [of _ "pairs m" storable]
    by (metis diff_is_0_eq filter_True leD order_refl)
  have all': "Size m \<le> length ?ps \<longleftrightarrow> (\<forall>p \<in> set (pairs m). storable p)"
    using all by simp
  have "load_bytes (save_bytes m) = load_pairs (unat (of_nat (Size m) :: u32)) (concat (map pair_bytes ?ps)) []"
    by (simp add: load_bytes_def save_bytes_def len records_pairs)
  also have "\<dots> = load_pairs (Size m - length ?ps) [] (fold put_pair ?ps [])"
    using load_pairs_saved [of ?ps "Size m - length ?ps" "[]" "[]"] by (simp only: n append_Nil2) simp
  finally show ?thesis by (simp add: load_pairs_short all')
qed

section \<open>Counts and sizes after loading\<close>

lemma pair_key_simps [simp]: "pair_key (a, b, c) = (a, b)"
  by (simp add: pair_key_def)

lemma in_pair_key: "(a, b) \<in> pair_key ` S \<longleftrightarrow> (\<exists>c. (a, b, c) \<in> S)"
proof
  assume "(a, b) \<in> pair_key ` S"
  then show "\<exists>c. (a, b, c) \<in> S" by (auto simp: pair_key_def)
next
  assume "\<exists>c. (a, b, c) \<in> S"
  then show "(a, b) \<in> pair_key ` S" by (metis image_eqI pair_key_simps)
qed

lemma fold_put_pair_other:
  "\<forall>p \<in> set ps. pair_key p \<noteq> (x, y) \<Longrightarrow>
     BigramCount (fold put_pair ps m) x y = BigramCount m x y"
  by (induction ps arbitrary: m) (auto simp: put_pair_def BigramCount_put2)

lemma fold_put_pair_in:
  "distinct (map pair_key ps) \<Longrightarrow> (x, y, c) \<in> set ps \<Longrightarrow>
     BigramCount (fold put_pair ps m) x y = c"
proof (induction ps arbitrary: m)
  case (Cons p ps)
  show ?case
  proof (cases "p = (x, y, c)")
    case True
    with Cons.prems(1) have "\<forall>p \<in> set ps. pair_key p \<noteq> (x, y)" by force
    then have "BigramCount (fold put_pair ps (put_pair p m)) x y = BigramCount (put_pair p m) x y"
      by (rule fold_put_pair_other)
    with True show ?thesis by (simp add: put_pair_def BigramCount_put2)
  next
    case False
    with Cons show ?thesis by simp
  qed
qed simp

lemma pair_key_pairs_subset: "pair_key ` set (pairs m) \<subseteq> fst ` set m \<times> UNIV"
  by (force simp: pairs_def)

lemma distinct_pairs: "table_ok m \<Longrightarrow> distinct (map pair_key (pairs m))"
proof (induction m)
  case (Cons ai m)
  obtain a i where ai: "ai = (a, i)" by (cases ai)
  have "map (pair_key \<circ> (\<lambda>(b, c). (a, b, c))) i = map (Pair a) (map fst i)"
    by auto
  moreover have "a \<notin> fst ` set m" "distinct (map fst i)" "table_ok m"
    using Cons.prems by (auto simp: ai table_ok_def)
  ultimately show ?case
    using Cons.IH pair_key_pairs_subset [of m] by (auto simp: ai distinct_map inj_on_def)
qed simp

definition key_pairs :: "NgramTable \<Rightarrow> (bytes \<times> bytes) set" where
  "key_pairs m = pair_key ` set (pairs m)"

lemma pairs_inner:
  "table_ok m \<Longrightarrow> (a, b, c) \<in> set (pairs m) \<longleftrightarrow> (b, c) \<in> set (inner_of a m)"
  by (fastforce simp: pairs_def table_ok_def inner_of_def split: option.splits
      dest: map_of_SomeD simp: map_of_eq_None_iff)

lemma BigramCount_pair: "table_ok m \<Longrightarrow> (a, b, c) \<in> set (pairs m) \<Longrightarrow> BigramCount m a b = c"
  using table_ok_inner [of m a] by (simp add: pairs_inner BigramCount_inner)

lemma key_pairs_inner: "table_ok m \<Longrightarrow> (a, b) \<in> key_pairs m \<longleftrightarrow> b \<in> fst ` set (inner_of a m)"
proof -
  assume ok: "table_ok m"
  have "(a, b) \<in> key_pairs m \<longleftrightarrow> (\<exists>c. (a, b, c) \<in> set (pairs m))"
    by (simp add: key_pairs_def in_pair_key)
  also have "\<dots> \<longleftrightarrow> b \<in> fst ` set (inner_of a m)"
    by (force simp: pairs_inner [OF ok])
  finally show ?thesis .
qed

lemma BigramCount_no_pair: "table_ok m \<Longrightarrow> (a, b) \<notin> key_pairs m \<Longrightarrow> BigramCount m a b = 0"
  by (auto simp: BigramCount_inner key_pairs_inner split: option.split dest!: map_of_SomeD)
    (metis fst_conv image_eqI)

lemma key_pairs_put2:
  assumes "table_ok m"
  shows "key_pairs (put2 a b v m) = insert (a, b) (key_pairs m)"
proof -
  have "(x, y) \<in> key_pairs (put2 a b v m) \<longleftrightarrow> (x, y) \<in> insert (a, b) (key_pairs m)" for x y
    unfolding key_pairs_inner [OF table_ok_put2 [OF assms]] inner_of_put2
    by (simp add: key_pairs_inner assms)
  then show ?thesis by auto
qed

lemma Size_card: "table_ok m \<Longrightarrow> Size m = card (key_pairs m)"
  using distinct_card [OF distinct_pairs [of m]] by (simp add: key_pairs_def length_pairs)

lemma fold_put_pair_ok:
  "table_ok m \<Longrightarrow> table_ok (fold put_pair ps m)
     \<and> key_pairs (fold put_pair ps m) = pair_key ` set ps \<union> key_pairs m"
proof (induction ps arbitrary: m)
  case (Cons p ps)
  obtain a b c where p: "p = (a, b, c)" by (cases p)
  show ?case
    using Cons.IH [of "put2 a b c m"] Cons.prems by (auto simp: p put_pair_def table_ok_put2 key_pairs_put2)
qed simp

section \<open>Saving and loading\<close>

text \<open>C12: Loading a table that was saved gives back every count: all pairs whose keys have at
  most 65535 bytes keep their count and their number, the other pairs are gone, and the load reports
  success exactly when there were none of those.\<close>

theorem load_after_save:
  assumes "table_ok m" and "Size m < 2 ^ 32" and "Save ev p m f = (True, f')"
    and "Load p f' = (ok, m')"
  shows "(ok \<longleftrightarrow> (\<forall>(a, b, c) \<in> set (pairs m). short_key a \<and> short_key b)) \<and> table_ok m'
    \<and> (\<forall>a b. BigramCount m' a b = (if short_key a \<and> short_key b then BigramCount m a b else 0))
    \<and> (ok \<longrightarrow> Size m' = Size m)"
proof -
  let ?ps = "filter storable (pairs m)"
  have "f' p = Some (save_bytes m)"
    using replace_file_result(1) [of ev p "save_bytes m" f] assms(3) by (simp add: Save_def)
  then have m': "m' = fold put_pair ?ps []" and ok: "ok \<longleftrightarrow> (\<forall>p \<in> set (pairs m). storable p)"
    using assms(2,4) by (auto simp: Load_def load_bytes_save)
  have d: "distinct (map pair_key ?ps)"
    using distinct_pairs [OF assms(1)] by (simp add: distinct_map_filter)
  have ok': "table_ok m'" and keys: "key_pairs m' = pair_key ` set ?ps"
    using fold_put_pair_ok [of "[]" ?ps] by (auto simp: m' key_pairs_def)
  have "BigramCount m' a b = (if short_key a \<and> short_key b then BigramCount m a b else 0)" for a b
  proof (cases "(a, b) \<in> key_pairs m'")
    case True
    then obtain c where c: "(a, b, c) \<in> set ?ps" unfolding keys in_pair_key by blast
    then have "BigramCount m' a b = c" unfolding m' by (rule fold_put_pair_in [OF d])
    moreover have "BigramCount m a b = c" using c assms(1) by (simp add: BigramCount_pair)
    ultimately show ?thesis using c by (simp add: storable_def)
  next
    case False
    then have "\<nexists>c. (a, b, c) \<in> set ?ps" unfolding keys in_pair_key .
    then have "short_key a \<and> short_key b \<Longrightarrow> (a, b) \<notin> key_pairs m"
      by (auto simp: key_pairs_def in_pair_key storable_def)
    then show ?thesis
      using False ok' assms(1) by (simp add: BigramCount_no_pair)
  qed
  moreover have "ok \<Longrightarrow> Size m' = Size m"
    using ok keys distinct_card [OF d] length_pairs [of m] by (simp add: Size_card ok')
  moreover have "ok \<longleftrightarrow> (\<forall>(a, b, c) \<in> set (pairs m). short_key a \<and> short_key b)"
    using ok by (auto simp: storable_def)
  ultimately show ?thesis using ok' by blast
qed

lemma load_saved_all:
  assumes "table_ok m" and "Size m < 2 ^ 32" and "\<forall>p \<in> set (pairs m). storable p"
  shows "fst (load_bytes (save_bytes m)) \<and> BigramCount (snd (load_bytes (save_bytes m))) = BigramCount m"
proof -
  let ?m' = "fold put_pair (pairs m) []"
  have l: "load_bytes (save_bytes m) = (True, ?m')"
    using load_bytes_save [OF assms(2)] assms(3) by (simp add: filter_id_conv [THEN iffD2])
  have ok: "table_ok ?m'" "key_pairs ?m' = key_pairs m"
    using fold_put_pair_ok [of "[]" "pairs m"] by (auto simp: key_pairs_def)
  have "BigramCount ?m' a b = BigramCount m a b" for a b
  proof (cases "(a, b) \<in> key_pairs m")
    case True
    then obtain c where c: "(a, b, c) \<in> set (pairs m)" unfolding key_pairs_def in_pair_key by blast
    then have "BigramCount ?m' a b = c" by (rule fold_put_pair_in [OF distinct_pairs [OF assms(1)]])
    with c assms(1) show ?thesis by (simp add: BigramCount_pair)
  next
    case False
    then show ?thesis using ok assms(1) by (simp add: BigramCount_no_pair)
  qed
  then show ?thesis by (simp add: l fun_eq_iff)
qed

lemma demo_table:
  "table_ok [([97], [([98], 5)])]" "pairs [([97], [([98], 5)])] = [([97], [98], 5)]"
  "Size [([97], [([98], 5)])] = 1" "inner_of [97] [([97], [([98], 5)])] = [([98], 5)]"
  by (simp_all add: table_ok_def Size_def inner_of_def)

theorem load_after_save_witness:
  "BigramCount (snd (Load [1] (snd (Save \<lparr>fe_open = True, fe_stop = None, fe_rename = True\<rparr> [1]
     [([97], [([98], 5)])] (\<lambda>_. None))))) [97] [98] = 5"
proof -
  let ?m = "[([97], [([98], 5)])]" and ?ev = "\<lparr>fe_open = True, fe_stop = None, fe_rename = True\<rparr>"
  have saved: "Save ?ev [1] ?m (\<lambda>_. None) = (True, snd (Save ?ev [1] ?m (\<lambda>_. None)))"
    by (simp add: Save_def replace_file_def)
  have "BigramCount (snd (Load [1] (snd (Save ?ev [1] ?m (\<lambda>_. None))))) [97] [98] = BigramCount ?m [97] [98]"
    using load_after_save [OF demo_table(1) _ saved prod.collapse [symmetric]]
    by (simp add: demo_table short_key_def)
  then show ?thesis by (simp add: BigramCount_def)
qed

text \<open>A file that ends or breaks in the middle of its records makes \<^verbatim>\<open>Load\<close>
  return false with the records in front of the damage in the table; it is not reset to empty.\<close>

theorem load_failure_keeps_prefix:
  assumes "\<forall>p \<in> set ps. storable p" and "length ps < unat n" and "load_record r = None"
  shows "load_bytes (kMagic @ Write32 kVersion @ Write32 n @ concat (map pair_bytes ps) @ r)
    = (False, fold put_pair ps [])"
proof -
  have len: "length kMagic = 8" by (simp add: kMagic_def)
  obtain k where k: "unat n = length ps + Suc k"
    using assms(2) less_iff_Suc_add by auto
  have "load_bytes (kMagic @ Write32 kVersion @ Write32 n @ concat (map pair_bytes ps) @ r)
      = load_pairs (length ps + Suc k) (concat (map pair_bytes ps) @ r) []"
    by (simp add: load_bytes_def len k)
  then show ?thesis
    by (simp only: load_pairs_saved [OF assms(1)]) (simp add: assms(3))
qed

theorem load_failure_keeps_prefix_witness:
  "load_bytes (kMagic @ Write32 kVersion @ Write32 2 @ concat (map pair_bytes [([97], [98], 5)]) @ [1])
     = (False, [([97], [([98], 5)])])"
  using load_failure_keeps_prefix [of "[([97], [98], 5)]" 2 "[1]"]
  by (simp add: storable_def short_key_def load_record_def Read16_def read_n_def put_pair_def put2_def
      inner_of_def)

section \<open>Top followers\<close>

interpretation by_count: compare count_greater
  by unfold_locales (auto simp: count_greater_def)

text \<open>The two sorts of \<^verbatim>\<open>TopFollowers\<close> as one interface: the answer is the
  front part of some arrangement of the followers.\<close>

locale follower_sorts =
  part: partial_sort psrt count_greater + full: std_sort srt count_greater
  for psrt :: "nat \<Rightarrow> inner \<Rightarrow> inner" and srt :: "inner \<Rightarrow> inner"
begin

lemma TopFollowers_front:
  "\<exists>zs. mset zs = mset (inner_of a m) \<and> TopFollowers psrt srt m a k = take k zs
     \<and> sorted_wrt (\<lambda>x y. \<not> count_greater y x) (take k zs)
     \<and> (\<forall>x \<in> set (take k zs). \<forall>y \<in> set (drop k zs). \<not> count_greater y x)"
proof (cases "length (inner_of a m) > k")
  case True
  then have "TopFollowers psrt srt m a k = take k (psrt k (inner_of a m))"
    by (auto simp: TopFollowers_def inner_of_def split: option.splits)
  then show ?thesis
    using part.psort_perm part.psort_sorted part.psort_first by metis
next
  case False
  have "srt [] = []" using full.sort_length [of "[]"] by simp
  then have "TopFollowers psrt srt m a k = srt (inner_of a m)"
    using False by (auto simp: TopFollowers_def inner_of_def split: option.splits)
  then show ?thesis
    using False full.sort_perm [of "inner_of a m"] full.sort_sorted [of "inner_of a m"]
    by (intro exI [of _ "srt (inner_of a m)"]) (simp add: full.sort_length)
qed

end

interpretation stable_followers: follower_sorts "\<lambda>k. sort_by count_greater" "sort_by count_greater"
  by unfold_locales
    (simp_all add: by_count.stable.partial.psort_perm by_count.stable.partial.psort_sorted
      by_count.stable.partial.psort_first by_count.stable.sort_sorted)

lemma mem_inner_of:
  "table_ok m \<Longrightarrow> (b, c) \<in> set (inner_of a m) \<longleftrightarrow> (a, b) \<in> key_pairs m \<and> c = BigramCount m a b"
  using pairs_inner [of m a b] BigramCount_pair [of m a b] in_pair_key [of a b "set (pairs m)"]
  by (auto simp: key_pairs_def)

text \<open>The top followers of a character are its recorded followers with their counts, each
  once, at most \<open>k\<close> of them and all if there are no more, in descending order of count, and no
  follower that was left out has a higher count than one in the answer.\<close>

theorem top_followers:
  assumes "follower_sorts psrt srt" and "table_ok m"
  shows "length (TopFollowers psrt srt m a k) = min k (length (inner_of a m))
    \<and> set (TopFollowers psrt srt m a k) \<subseteq> {(b, BigramCount m a b) | b. (a, b) \<in> key_pairs m}
    \<and> distinct (map fst (TopFollowers psrt srt m a k))
    \<and> sorted_wrt (\<lambda>x y. snd y \<le> snd x) (TopFollowers psrt srt m a k)
    \<and> (\<forall>x \<in> set (TopFollowers psrt srt m a k). \<forall>b. (a, b) \<in> key_pairs m \<longrightarrow>
         b \<notin> fst ` set (TopFollowers psrt srt m a k) \<longrightarrow> BigramCount m a b \<le> snd x)"
proof -
  obtain zs where zs: "mset zs = mset (inner_of a m)" "TopFollowers psrt srt m a k = take k zs"
    "sorted_wrt (\<lambda>x y. \<not> count_greater y x) (take k zs)"
    "\<forall>x \<in> set (take k zs). \<forall>y \<in> set (drop k zs). \<not> count_greater y x"
    using follower_sorts.TopFollowers_front [OF assms(1)] by blast
  have len: "length zs = length (inner_of a m)" using zs(1) by (rule mset_eq_length)
  have set: "set zs = set (inner_of a m)" using zs(1) by (rule mset_eq_set)
  have dist: "distinct (map fst zs)"
    using table_ok_inner [OF assms(2), of a] zs(1) by (metis mset_eq_imp_distinct_iff mset_map)
  have split: "set zs = set (take k zs) \<union> set (drop k zs)"
    by (metis append_take_drop_id set_append)
  have sub: "set (take k zs) \<subseteq> {(b, BigramCount m a b) | b. (a, b) \<in> key_pairs m}"
    using set_take_subset [of k zs] by (auto simp: set mem_inner_of [OF assms(2)])
  have out: "BigramCount m a b \<le> snd x"
    if "x \<in> set (take k zs)" "(a, b) \<in> key_pairs m" "b \<notin> fst ` set (take k zs)" for x b
  proof -
    have "(b, BigramCount m a b) \<in> set zs"
      using that(2) by (simp add: set mem_inner_of [OF assms(2)])
    moreover have "(b, BigramCount m a b) \<notin> set (take k zs)" using that(3) by force
    ultimately have "(b, BigramCount m a b) \<in> set (drop k zs)" using split by blast
    then show ?thesis using zs(4) that(1) by (fastforce simp: count_greater_def)
  qed
  have "distinct (map fst (take k zs))"
    using dist by (simp add: take_map [symmetric])
  moreover have "sorted_wrt (\<lambda>x y. snd y \<le> snd x) (take k zs)"
    using zs(3) by (simp add: count_greater_def not_less)
  ultimately show ?thesis
    using sub out len by (simp add: zs(2) min.commute)
qed

theorem top_followers_witness:
  "length (TopFollowers (\<lambda>k. sort_by count_greater) (sort_by count_greater) [([97], [([98], 5)])] [97] 3) = 1"
  using top_followers [OF stable_followers.follower_sorts_axioms demo_table(1), of "[97]" 3]
  by (simp add: demo_table)

end
