(* ===== verification/Ngram_History.thy ===== *)
theory Ngram_History
  imports Ngram_Correct
begin

text \<open>
  The pass over the history, proved against the interface \<^verbatim>\<open>INgramTable\<close> shows (a
  counter bumped by \<^verbatim>\<open>IncrementBigram\<close>): the loop that carries the previous character
  and time stamp adds exactly the adjacent character pairs of the runs of entries.
\<close>

section \<open>Adjacent pairs of the runs\<close>

definition adjacent :: "'a list \<Rightarrow> ('a \<times> 'a) list" where
  "adjacent cs = zip cs (tl cs)"

definition entry_chars :: "HistoryEntry \<Rightarrow> bytes list" where
  "entry_chars e = walk Utf8Len (he_committed_text e) 0"

definition run_chars :: "HistoryEntry list \<Rightarrow> bytes list" where
  "run_chars r = concat (map entry_chars r)"

definition history_bigrams :: "u64 \<Rightarrow> HistoryEntry list \<Rightarrow> (bytes \<times> bytes) list" where
  "history_bigrams gap es = concat (map (adjacent \<circ> run_chars) (runs gap es))"

lemma adjacent_simps [simp]:
  "adjacent [] = []"
  "adjacent [c] = []"
  "adjacent (c # d # cs) = (c, d) # adjacent (d # cs)"
  by (simp_all add: adjacent_def)

lemma entry_chars_ne: "c \<in> set (entry_chars e) \<Longrightarrow> c \<noteq> []"
  unfolding entry_chars_def using strict.walk_chars by (auto simp: strict.is_char_def)

lemma run_chars_ne: "c \<in> set (run_chars r) \<Longrightarrow> c \<noteq> []"
  by (auto simp: run_chars_def dest: entry_chars_ne)

lemma adjacent_ne: "(x, y) \<in> set (adjacent cs) \<Longrightarrow> x \<in> set cs \<and> y \<in> set cs"
  by (cases cs) (auto simp: adjacent_def dest: set_zip_leftD set_zip_rightD)

lemma history_bigrams_ne: "(x, y) \<in> set (history_bigrams gap es) \<Longrightarrow> x \<noteq> [] \<and> y \<noteq> []"
  by (auto simp: history_bigrams_def dest!: adjacent_ne run_chars_ne)

section \<open>The interface of the table\<close>

locale ngram_table =
  fixes inc :: "bytes \<Rightarrow> bytes \<Rightarrow> 't \<Rightarrow> 't" and cnt :: "'t \<Rightarrow> bytes \<Rightarrow> bytes \<Rightarrow> u32"
  assumes cnt_inc: "cnt (inc a b t) x y =
    cnt t x y + (if a \<noteq> [] \<and> b \<noteq> [] \<and> x = a \<and> y = b then 1 else 0)"
begin

text \<open>\<open>bumps ps\<close>: one increment per pair.\<close>

definition bumps :: "(bytes \<times> bytes) list \<Rightarrow> 't \<Rightarrow> 't" where
  "bumps ps t = fold (\<lambda>(a, b). inc a b) ps t"

lemma bumps_simps [simp]:
  "bumps [] t = t"
  "bumps ((a, b) # ps) t = bumps ps (inc a b t)"
  "bumps (ps @ qs) t = bumps qs (bumps ps t)"
  by (simp_all add: bumps_def)

lemma cnt_bumps:
  "\<forall>(a, b) \<in> set ps. a \<noteq> [] \<and> b \<noteq> [] \<Longrightarrow>
     cnt (bumps ps t) x y = cnt t x y + of_nat (count_list ps (x, y))"
  by (induction ps arbitrary: t) (auto simp: cnt_inc split: if_splits)

lemma scan_chars_prev:
  "\<forall>c \<in> set cs. c \<noteq> [] \<Longrightarrow> prev \<noteq> [] \<Longrightarrow>
     fold (scan_char inc) cs (prev, t, n)
       = (last (prev # cs), bumps (adjacent (prev # cs)) t, n + of_nat (length (adjacent (prev # cs))))"
  by (induction cs arbitrary: prev t n) (auto simp: scan_char_def)

lemma scan_chars:
  "\<forall>c \<in> set cs. c \<noteq> [] \<Longrightarrow>
     fold (scan_char inc) cs ([], t, n)
       = (if cs = [] then [] else last cs, bumps (adjacent cs) t, n + of_nat (length (adjacent cs)))"
  by (cases cs) (auto simp: scan_char_def scan_chars_prev)

lemma scan_run: "fold (scan_entry inc) r st = fold (scan_char inc) (run_chars r) st"
  by (induction r arbitrary: st) (simp_all add: run_chars_def scan_entry_def entry_chars_def)

lemma scan_runs:
  "snd (fold (\<lambda>r s. fold (scan_entry inc) r (case s of (_, st) \<Rightarrow> ([], st))) rs (prev, t, n))
    = (bumps (concat (map (adjacent \<circ> run_chars) rs)) t,
       n + of_nat (length (concat (map (adjacent \<circ> run_chars) rs))))"
proof (induction rs arbitrary: prev t n)
  case (Cons r rs)
  show ?case
    using scan_chars [of "run_chars r" t n] run_chars_ne [of _ r]
    by (simp add: scan_run [of r] Cons.IH add.assoc)
qed simp

theorem update_bumps:
  "UpdateBigramsFromHistory inc srt es t
    = (of_nat (length (history_bigrams kChainGapUs (srt es))), bumps (history_bigrams kChainGapUs (srt es)) t)"
proof -
  have "chain_loop (\<lambda>(prev_char, _). prev_char \<noteq> []) (\<lambda>(_, st). ([], st)) (scan_entry inc)
          kChainGapUs (srt es) 0 ([], t, 0)
      = fold (\<lambda>r s. fold (scan_entry inc) r (case s of (_, st) \<Rightarrow> ([], st)))
          (runs kChainGapUs (srt es)) ([], t, 0)"
    by (rule chain_loop_runs) auto
  then show ?thesis
    using scan_runs [of "runs kChainGapUs (srt es)" "[]" t 0]
    by (auto simp: UpdateBigramsFromHistory_def history_bigrams_def split: prod.splits)
qed

lemma update_counts:
  "UpdateBigramsFromHistory inc srt es t = (n, t') \<Longrightarrow>
     cnt t' x y = cnt t x y + of_nat (count_list (history_bigrams kChainGapUs (srt es)) (x, y))
     \<and> n = of_nat (length (history_bigrams kChainGapUs (srt es)))"
  using history_bigrams_ne by (auto simp: update_bumps intro!: cnt_bumps)

end

interpretation table: ngram_table IncrementBigram BigramCount
  by unfold_locales (rule BigramCount_IncrementBigram)

section \<open>The counts\<close>

lemma update_table_ok:
  "UpdateBigramsFromHistory IncrementBigram srt es m = (n, m') \<Longrightarrow> table_ok m \<Longrightarrow> table_ok m'"
proof -
  have "table_ok (table.bumps ps m)" if "table_ok m" for ps
    using that by (induction ps arbitrary: m) (auto simp: table_ok_IncrementBigram)
  then show "UpdateBigramsFromHistory IncrementBigram srt es m = (n, m') \<Longrightarrow> table_ok m \<Longrightarrow> table_ok m'"
    by (auto simp: table.update_bumps)
qed

text \<open>C11: The pass over the history adds to the count of a pair of characters the number of
  times the two stand next to each other in a run of entries whose time gaps are at most two
  seconds, modulo \<open>2^32\<close>, and returns the number of all increments modulo \<open>2^64\<close>; the
  table stays well formed.  A pair may thus span two entries, the last character of one and the first of
  the next, while the comment in ngram.h speaks of the pairs within each text only.\<close>

theorem update_counts_adjacent:
  assumes "UpdateBigramsFromHistory IncrementBigram srt es m = (n, m')"
  shows "BigramCount m' x y
      = BigramCount m x y + of_nat (count_list (history_bigrams kChainGapUs (srt es)) (x, y))
    \<and> n = of_nat (length (history_bigrams kChainGapUs (srt es)))
    \<and> (table_ok m \<longrightarrow> table_ok m')"
  using table.update_counts [OF assms, of x y] update_table_ok [OF assms] by blast

text \<open>Only characters become keys, so every table built from the history can be saved in full.\<close>

definition short_table :: "NgramTable \<Rightarrow> bool" where
  "short_table m \<longleftrightarrow> (\<forall>(a, b) \<in> key_pairs m. short_key a \<and> short_key b)"

lemma short_table_storable: "short_table m \<longleftrightarrow> (\<forall>(a, b, c) \<in> set (pairs m). short_key a \<and> short_key b)"
  by (force simp: short_table_def key_pairs_def pair_key_def)

lemma short_table_IncrementBigram:
  "table_ok m \<Longrightarrow> short_table m \<Longrightarrow> short_key a \<Longrightarrow> short_key b \<Longrightarrow> short_table (IncrementBigram a b m)"
  by (auto simp: IncrementBigram_def short_table_def key_pairs_put2)

lemma short_table_bumps:
  "table_ok m \<Longrightarrow> short_table m \<Longrightarrow> \<forall>(a, b) \<in> set ps. short_key a \<and> short_key b \<Longrightarrow>
     short_table (table.bumps ps m)"
  by (induction ps arbitrary: m) (auto simp: table_ok_IncrementBigram short_table_IncrementBigram)

lemma history_bigrams_short: "(x, y) \<in> set (history_bigrams gap es) \<Longrightarrow> short_key x \<and> short_key y"
proof -
  have "short_key c" if "c \<in> set (run_chars r)" for c r
    using that strict.walk_char_length by (fastforce simp: run_chars_def entry_chars_def short_key_def)
  then show "(x, y) \<in> set (history_bigrams gap es) \<Longrightarrow> short_key x \<and> short_key y"
    by (auto simp: history_bigrams_def dest!: adjacent_ne)
qed

lemma update_short_table:
  "UpdateBigramsFromHistory IncrementBigram srt es m = (n, m') \<Longrightarrow> table_ok m \<Longrightarrow> short_table m \<Longrightarrow>
     short_table m'"
  using history_bigrams_short by (auto simp: table.update_bumps intro!: short_table_bumps)

lemma load_saved_counts:
  "table_ok m \<Longrightarrow> Size m < 2 ^ 32 \<Longrightarrow> short_table m \<Longrightarrow>
     fst (load_bytes (save_bytes m)) \<and> BigramCount (snd (load_bytes (save_bytes m))) = BigramCount m"
  by (rule load_saved_all) (auto simp: short_table_storable storable_def)

text \<open>Two commits a second apart are one run: "a", "b" give the pair (a, b).\<close>

definition two_commits :: "HistoryEntry list" where
  "two_commits =
     [\<lparr>he_id = 1, he_ts_us = 1000000, he_code = [], he_committed_text = [97], he_context_before = []\<rparr>,
      \<lparr>he_id = 2, he_ts_us = 2000000, he_code = [], he_committed_text = [98, 98], he_context_before = []\<rparr>]"

lemma two_commits_bigrams: "history_bigrams kChainGapUs two_commits = [([97], [98]), ([98], [98])]"
  by (simp add: history_bigrams_def two_commits_def run_chars_def entry_chars_def walk_ascii
      gap_between_def kChainGapUs_def)

text \<open>The pair (a, b) spans the two entries, the pair (b, b) is within the second.\<close>

theorem update_counts_adjacent_witness:
  "BigramCount (snd (UpdateBigramsFromHistory IncrementBigram (\<lambda>es. es) two_commits [])) [97] [98] = 1
   \<and> BigramCount (snd (UpdateBigramsFromHistory IncrementBigram (\<lambda>es. es) two_commits [])) [98] [98] = 1
   \<and> fst (UpdateBigramsFromHistory IncrementBigram (\<lambda>es. es) two_commits []) = 2"
  using update_counts_adjacent [OF prod.collapse [symmetric, of
      "UpdateBigramsFromHistory IncrementBigram (\<lambda>es. es) two_commits []"]]
  by (simp add: two_commits_bigrams BigramCount_def)

end
