(* ===== verification/New_Word.thy ===== *)
theory New_Word
  imports History_Types
begin

text \<open>
  New-word discovery (new_word.cc): tokens, the counting of bigrams and trigrams over chained
  runs, the noise filter and the final order.  The hash map \<^verbatim>\<open>counts\<close> is an association
  list, both calls of \<^verbatim>\<open>std::sort\<close> are parameters.
\<close>

section \<open>Data\<close>

record DiscoveredWord =
  dw_text :: bytes
  dw_code :: bytes
  dw_frequency :: u32
  dw_first_seen_us :: u64
  dw_last_seen_us :: u64

record DiscoveryConfig =
  dc_min_frequency :: u32
  dc_scan_max_entries :: u64
  dc_include_bigrams :: bool
  dc_include_trigrams :: bool
  dc_chain_max_gap_us :: u64

definition DiscoveryConfig_init :: DiscoveryConfig where
  "DiscoveryConfig_init =
     \<lparr>dc_min_frequency = 3, dc_scan_max_entries = 5000, dc_include_bigrams = True,
      dc_include_trigrams = True, dc_chain_max_gap_us = 2000000\<rparr>"

record Counter =
  ct_count :: u32
  ct_first_us :: u64
  ct_last_us :: u64
  ct_code :: bytes

definition Counter_init :: Counter where
  "Counter_init = \<lparr>ct_count = 0, ct_first_us = 0xFFFFFFFFFFFFFFFF, ct_last_us = 0, ct_code = []\<rparr>"

record Token =
  tk_ch :: bytes
  tk_code :: bytes
  tk_ts :: u64

section \<open>The noise filter\<close>

definition is_space :: "byte \<Rightarrow> bool" where
  "is_space c \<longleftrightarrow> c = 0x20 \<or> c = 0x09 \<or> c = 0x0A \<or> c = 0x0D"

text \<open>Three or more characters, all equal to the first.\<close>

definition all_same :: "bytes \<Rightarrow> nat list \<Rightarrow> bool" where
  "all_same s offs =
     (let first = take (offs ! 1) s in
      list_all (\<lambda>i. piece s offs i = first) [1..<length offs])"

definition LooksLikeRealCandidate :: "bytes \<Rightarrow> bool" where
  "LooksLikeRealCandidate s =
     (if s = [] then False
      else if list_ex is_space s then False
      else if list_all (\<lambda>c. c < 0x80) s then False
      else let offs = CharOffsets s in \<not> (length offs \<ge> 3 \<and> all_same s offs))"

section \<open>Tokens and counting\<close>

definition entry_to_tokens :: "HistoryEntry \<Rightarrow> Token list" where
  "entry_to_tokens e =
     (let offs = CharOffsets (he_committed_text e); single_char = (length offs = 1) in
      map (\<lambda>i. \<lparr>tk_ch = piece (he_committed_text e) offs i,
                tk_code = (if single_char then he_code e else []),
                tk_ts = he_ts_us e\<rparr>) [0..<length offs])"

type_synonym Counts = "(bytes \<times> Counter) list"

definition count_gram :: "Token list \<Rightarrow> Counter \<Rightarrow> Counter" where
  "count_gram w c =
     (let code = concat (map tk_code w);
          code_ok = list_all (\<lambda>t. tk_code t \<noteq> []) w;
          ts0 = tk_ts (hd w)
      in \<lparr>ct_count = ct_count c + 1, ct_first_us = min (ct_first_us c) ts0,
          ct_last_us = max (ct_last_us c) ts0,
          ct_code = (if code_ok \<and> length code > length (ct_code c) then code else ct_code c)\<rparr>)"

definition gram_text :: "Token list \<Rightarrow> bytes" where
  "gram_text w = concat (map tk_ch w)"

definition count_of :: "bytes \<Rightarrow> Counts \<Rightarrow> Counter" where
  "count_of s counts = (case map_of counts s of None \<Rightarrow> Counter_init | Some c \<Rightarrow> c)"

definition emit :: "Token list \<Rightarrow> nat \<Rightarrow> nat \<Rightarrow> Counts \<Rightarrow> Counts" where
  "emit toks span i counts =
     (let w = take span (drop i toks)
      in al_put (gram_text w) (count_gram w (count_of (gram_text w) counts)) counts)"

definition emit_token_ngrams :: "DiscoveryConfig \<Rightarrow> Token list \<Rightarrow> Counts \<Rightarrow> Counts" where
  "emit_token_ngrams cfg toks counts =
     (let c1 = (if dc_include_bigrams cfg
                then fold (emit toks 2) [0..<length toks - 1] counts else counts)
      in if dc_include_trigrams cfg
         then fold (emit toks 3) [0..<length toks - 2] c1 else c1)"

definition count_entries ::
  "DiscoveryConfig \<Rightarrow> (HistoryEntry list \<Rightarrow> HistoryEntry list) \<Rightarrow> HistoryEntry list \<Rightarrow> Counts" where
  "count_entries cfg srt entries =
     (if dc_chain_max_gap_us cfg = 0
      then fold (\<lambda>e. emit_token_ngrams cfg (entry_to_tokens e)) entries []
      else case chain_loop (\<lambda>(run, _). run \<noteq> [])
                  (\<lambda>(run, counts). ([], emit_token_ngrams cfg run counts))
                  (\<lambda>e (run, counts). (run @ entry_to_tokens e, counts))
                  (dc_chain_max_gap_us cfg) (srt entries) 0 ([], []) of
             (run, counts) \<Rightarrow> if run \<noteq> [] then emit_token_ngrams cfg run counts else counts)"

definition word_of_counter :: "bytes \<times> Counter \<Rightarrow> DiscoveredWord" where
  "word_of_counter kv =
     \<lparr>dw_text = fst kv, dw_code = ct_code (snd kv), dw_frequency = ct_count (snd kv),
      dw_first_seen_us = ct_first_us (snd kv), dw_last_seen_us = ct_last_us (snd kv)\<rparr>"

definition keep_counter :: "DiscoveryConfig \<Rightarrow> bytes \<times> Counter \<Rightarrow> bool" where
  "keep_counter cfg kv \<longleftrightarrow>
     \<not> ct_count (snd kv) < dc_min_frequency cfg \<and> LooksLikeRealCandidate (fst kv)"

definition word_less :: "DiscoveredWord \<Rightarrow> DiscoveredWord \<Rightarrow> bool" where
  "word_less a b =
     (if dw_frequency a \<noteq> dw_frequency b then dw_frequency a > dw_frequency b
      else dw_text a < dw_text b)"

definition Discover ::
  "(HistoryEntry list \<Rightarrow> HistoryEntry list) \<Rightarrow> (DiscoveredWord list \<Rightarrow> DiscoveredWord list) \<Rightarrow>
     HistoryEntry list \<Rightarrow> DiscoveryConfig \<Rightarrow> DiscoveredWord list" where
  "Discover srt srt_out entries cfg =
     srt_out (map word_of_counter (filter (keep_counter cfg) (count_entries cfg srt entries)))"

section \<open>The comparator\<close>

interpretation words: compare word_less
  by unfold_locales (auto simp: word_less_def split: if_splits)

lemma word_less_total: "dw_text a \<noteq> dw_text b \<Longrightarrow> word_less a b \<or> word_less b a"
  by (auto simp: word_less_def neq_iff)

section \<open>The occurrences that are counted\<close>

definition windows :: "nat \<Rightarrow> 'a list \<Rightarrow> 'a list list" where
  "windows n xs = map (\<lambda>i. take n (drop i xs)) [0..<length xs - (n - 1)]"

definition run_grams :: "DiscoveryConfig \<Rightarrow> Token list \<Rightarrow> Token list list" where
  "run_grams cfg toks =
     (if dc_include_bigrams cfg then windows 2 toks else [])
     @ (if dc_include_trigrams cfg then windows 3 toks else [])"

definition token_runs ::
  "DiscoveryConfig \<Rightarrow> (HistoryEntry list \<Rightarrow> HistoryEntry list) \<Rightarrow> HistoryEntry list \<Rightarrow> Token list list" where
  "token_runs cfg srt entries =
     (if dc_chain_max_gap_us cfg = 0 then map entry_to_tokens entries
      else map (\<lambda>r. concat (map entry_to_tokens r)) (runs (dc_chain_max_gap_us cfg) (srt entries)))"

definition all_grams ::
  "DiscoveryConfig \<Rightarrow> (HistoryEntry list \<Rightarrow> HistoryEntry list) \<Rightarrow> HistoryEntry list \<Rightarrow> Token list list" where
  "all_grams cfg srt entries = concat (map (run_grams cfg) (token_runs cfg srt entries))"

text \<open>One step of counting, and counting as a fold over the occurrences.\<close>

definition put_gram :: "Token list \<Rightarrow> Counts \<Rightarrow> Counts" where
  "put_gram w counts = al_put (gram_text w) (count_gram w (count_of (gram_text w) counts)) counts"

lemma emit_token_ngrams_fold: "emit_token_ngrams cfg toks counts = fold put_gram (run_grams cfg toks) counts"
proof -
  have "emit toks n = (\<lambda>i. put_gram (take n (drop i toks)))" for n
    by (simp add: fun_eq_iff emit_def put_gram_def Let_def)
  then show ?thesis
    by (simp add: emit_token_ngrams_def run_grams_def windows_def fold_map comp_def)
qed

lemma run_grams_Nil [simp]: "run_grams cfg [] = []"
  by (simp add: run_grams_def windows_def)

lemma collect_run:
  "fold (\<lambda>e (run, counts). (run @ entry_to_tokens e, counts)) r (run, counts)
     = (run @ concat (map entry_to_tokens r), counts)"
  by (induction r arbitrary: run) auto

lemma collect_runs:
  "(case fold (\<lambda>r s. fold (\<lambda>e (run, counts). (run @ entry_to_tokens e, counts)) r
            (case s of (run, counts) \<Rightarrow> ([], emit_token_ngrams cfg run counts))) rs (run, counts) of
      (run, counts) \<Rightarrow> if run \<noteq> [] then emit_token_ngrams cfg run counts else counts)
   = fold put_gram (concat (map (run_grams cfg) (run # map (\<lambda>r. concat (map entry_to_tokens r)) rs))) counts"
proof (induction rs arbitrary: run counts)
  case Nil
  then show ?case by (simp add: emit_token_ngrams_fold)
next
  case (Cons r rs)
  then show ?case by (simp add: collect_run emit_token_ngrams_fold)
qed

theorem count_entries_fold: "count_entries cfg srt entries = fold put_gram (all_grams cfg srt entries) []"
proof (cases "dc_chain_max_gap_us cfg = 0")
  case True
  have "fold (\<lambda>e. emit_token_ngrams cfg (entry_to_tokens e)) es counts
      = fold put_gram (concat (map (run_grams cfg) (map entry_to_tokens es))) counts" for es counts
    by (induction es arbitrary: counts) (simp_all add: emit_token_ngrams_fold)
  with True show ?thesis by (simp add: count_entries_def all_grams_def token_runs_def)
next
  case False
  have "chain_loop (\<lambda>(run, _). run \<noteq> []) (\<lambda>(run, counts). ([], emit_token_ngrams cfg run counts))
          (\<lambda>e (run, counts). (run @ entry_to_tokens e, counts))
          (dc_chain_max_gap_us cfg) (srt entries) 0 ([], [])
      = fold (\<lambda>r s. fold (\<lambda>e (run, counts). (run @ entry_to_tokens e, counts)) r
            (case s of (run, counts) \<Rightarrow> ([], emit_token_ngrams cfg run counts)))
          (runs (dc_chain_max_gap_us cfg) (srt entries)) ([], [])"
    by (rule chain_loop_runs) (auto simp: emit_token_ngrams_fold)
  with False show ?thesis
    using collect_runs [of cfg "runs (dc_chain_max_gap_us cfg) (srt entries)" "[]" "[]"]
    by (simp add: count_entries_def all_grams_def token_runs_def)
qed

end
