(* ===== verification/New_Word_Correct.thy ===== *)
theory New_Word_Correct
  imports New_Word
begin

text \<open>
  What \<^verbatim>\<open>Discover\<close> returns, stated over the occurrences of an n-gram in the runs of
  tokens: which texts, with which counters, in which order, and that they are words of two or
  three characters.
\<close>

section \<open>The counters\<close>

definition occurrences :: "bytes \<Rightarrow> Token list list \<Rightarrow> Token list list" where
  "occurrences s ws = filter (\<lambda>w. gram_text w = s) ws"

lemma map_of_put_grams:
  "map_of (fold put_gram ws counts) s =
     (if occurrences s ws = [] then map_of counts s
      else Some (fold count_gram (occurrences s ws) (count_of s counts)))"
  by (induction ws arbitrary: counts)
    (auto simp: occurrences_def put_gram_def count_of_def filter_empty_conv)

lemma distinct_put_grams: "distinct (map fst counts) \<Longrightarrow> distinct (map fst (fold put_gram ws counts))"
  by (induction ws arbitrary: counts) (auto simp: put_gram_def)

lemma mem_put_grams:
  "(s, c) \<in> set (fold put_gram ws []) \<longleftrightarrow>
     occurrences s ws \<noteq> [] \<and> c = fold count_gram (occurrences s ws) Counter_init"
proof -
  have "(s, c) \<in> set (fold put_gram ws []) \<longleftrightarrow> map_of (fold put_gram ws []) s = Some c"
    using distinct_put_grams [of "[]" ws] by (simp add: map_of_eq_Some_iff)
  then show ?thesis by (auto simp: map_of_put_grams count_of_def)
qed

lemma count_gram_fields:
  "ct_count (fold count_gram ws c) = ct_count c + of_nat (length ws)"
  "ct_first_us (fold count_gram ws c) = fold min (map (\<lambda>w. tk_ts (hd w)) ws) (ct_first_us c)"
  "ct_last_us (fold count_gram ws c) = fold max (map (\<lambda>w. tk_ts (hd w)) ws) (ct_last_us c)"
  by (induction ws arbitrary: c) (simp_all add: count_gram_def Let_def min.commute max.commute)

lemma fold_min_Min: "xs \<noteq> [] \<Longrightarrow> fold min xs (0xFFFFFFFFFFFFFFFF :: u64) = Min (set xs)"
proof -
  assume ne: "xs \<noteq> []"
  have top: "y \<le> (0xFFFFFFFFFFFFFFFF :: u64)" for y
    using unat_bound [of y] by (simp add: word_le_nat_alt)
  have "fold min xs (0xFFFFFFFFFFFFFFFF :: u64) = Min (insert 0xFFFFFFFFFFFFFFFF (set xs))"
    by (simp add: Min.set_eq_fold [symmetric])
  also have "\<dots> = min 0xFFFFFFFFFFFFFFFF (Min (set xs))" using ne by simp
  also have "\<dots> = Min (set xs)" using top by (rule min.absorb2)
  finally show ?thesis .
qed

lemma fold_max_Max: "xs \<noteq> [] \<Longrightarrow> fold max xs (0 :: u64) = Max (set xs)"
proof -
  assume ne: "xs \<noteq> []"
  have "fold max xs (0 :: u64) = Max (insert 0 (set xs))"
    by (simp add: Max.set_eq_fold [symmetric])
  also have "\<dots> = max 0 (Max (set xs))" using ne by simp
  finally show ?thesis by (simp add: max_def)
qed

text \<open>An occurrence all of whose tokens carry a code, and that code.\<close>

definition coded :: "Token list \<Rightarrow> bool" where
  "coded w \<longleftrightarrow> list_all (\<lambda>t. tk_code t \<noteq> []) w"

definition gram_code :: "Token list \<Rightarrow> bytes" where
  "gram_code w = concat (map tk_code w)"

lemma count_gram_code:
  "ct_code (fold count_gram ws c) \<in> insert (ct_code c) (gram_code ` {w \<in> set ws. coded w})
   \<and> length (ct_code c) \<le> length (ct_code (fold count_gram ws c))
   \<and> (\<forall>w \<in> set ws. coded w \<longrightarrow> length (gram_code w) \<le> length (ct_code (fold count_gram ws c)))"
proof (induction ws arbitrary: c)
  case (Cons w ws)
  have "ct_code (count_gram w c) = (if coded w \<and> length (gram_code w) > length (ct_code c)
      then gram_code w else ct_code c)"
    by (simp add: count_gram_def Let_def coded_def gram_code_def)
  then show ?case
    using Cons.IH [of "count_gram w c"] by (auto split: if_splits)
qed simp

section \<open>The words\<close>

definition word_of_text :: "bytes \<Rightarrow> Token list list \<Rightarrow> DiscoveredWord" where
  "word_of_text s ws = word_of_counter (s, fold count_gram (occurrences s ws) Counter_init)"

definition frequent :: "DiscoveryConfig \<Rightarrow> bytes \<Rightarrow> Token list list \<Rightarrow> bool" where
  "frequent cfg s ws \<longleftrightarrow> occurrences s ws \<noteq> []
     \<and> dc_min_frequency cfg \<le> of_nat (length (occurrences s ws))"

lemma kept_words:
  "set (map word_of_counter (filter (keep_counter cfg) (fold put_gram ws [])))
     = {word_of_text s ws | s. frequent cfg s ws \<and> LooksLikeRealCandidate s}"
proof -
  have "p \<in> set (filter (keep_counter cfg) (fold put_gram ws [])) \<longleftrightarrow>
      (\<exists>s. p = (s, fold count_gram (occurrences s ws) Counter_init)
         \<and> frequent cfg s ws \<and> LooksLikeRealCandidate s)" for p
    by (cases p)
      (auto simp: mem_put_grams keep_counter_def frequent_def count_gram_fields Counter_init_def)
  then have "set (filter (keep_counter cfg) (fold put_gram ws []))
      = (\<lambda>s. (s, fold count_gram (occurrences s ws) Counter_init))
          ` {s. frequent cfg s ws \<and> LooksLikeRealCandidate s}"
    by (auto simp del: set_filter)
  then show ?thesis
    unfolding set_map by (auto simp: image_image word_of_text_def simp del: set_filter)
qed

lemma distinct_words:
  "distinct (map dw_text (map word_of_counter (filter P (fold put_gram ws []))))"
proof -
  have "map dw_text (map word_of_counter (filter P (fold put_gram ws [])))
      = map fst (filter P (fold put_gram ws []))"
    by (simp add: word_of_counter_def comp_def)
  moreover have "distinct (map fst (filter P (fold put_gram ws [])))"
    by (rule distinct_map_filter) (rule distinct_put_grams, simp)
  ultimately show ?thesis by (simp only:)
qed

lemma sorted_wrt_strict:
  "sorted_wrt (\<lambda>a b. \<not> lt b a) xs \<Longrightarrow> distinct (map f xs) \<Longrightarrow>
     (\<And>a b. f a \<noteq> f b \<Longrightarrow> lt a b \<or> lt b a) \<Longrightarrow> sorted_wrt lt xs"
  by (induction xs) (auto simp: image_iff)

lemma sorted_words:
  assumes "std_sort srt_out word_less" and d: "distinct (map dw_text words)"
  shows "set (srt_out words) = set words" "sorted_wrt word_less (srt_out words)"
    "distinct (map dw_text (srt_out words))"
proof -
  show "set (srt_out words) = set words" using assms(1) by (rule std_sort.sort_set)
  have m: "mset (map dw_text (srt_out words)) = mset (map dw_text words)"
    using std_sort.sort_perm [OF assms(1), of words] by simp
  then show d': "distinct (map dw_text (srt_out words))"
    using d by (metis mset_eq_imp_distinct_iff)
  have "sorted_wrt (\<lambda>a b. \<not> word_less b a) (srt_out words)"
    using assms(1) by (rule std_sort.sort_sorted)
  then show "sorted_wrt word_less (srt_out words)"
    using d' word_less_total by (rule sorted_wrt_strict)
qed

lemma set_Discover:
  assumes "std_sort srt_out word_less"
  shows "set (Discover srt srt_out entries cfg)
      = {word_of_text s (all_grams cfg srt entries) | s.
           frequent cfg s (all_grams cfg srt entries) \<and> LooksLikeRealCandidate s}"
  unfolding Discover_def count_entries_fold std_sort.sort_set [OF assms] by (rule kept_words)

text \<open>C10: \<^verbatim>\<open>Discover\<close> returns exactly the texts that occur as a bigram or trigram of a
  run (as configured) at least \<^verbatim>\<open>min_frequency\<close> times and pass the noise filter, each
  once, by descending frequency and then by text; so neither the iteration order of the hash map
  nor the sorting algorithm shows in the result.\<close>

theorem discover_exact:
  assumes "std_sort srt_out word_less"
  shows "set (Discover srt srt_out entries cfg)
      = {word_of_text s (all_grams cfg srt entries) | s.
           frequent cfg s (all_grams cfg srt entries) \<and> LooksLikeRealCandidate s}
    \<and> sorted_wrt word_less (Discover srt srt_out entries cfg)
    \<and> (\<forall>srt'. std_sort srt' word_less \<longrightarrow>
         Discover srt srt' entries cfg = Discover srt srt_out entries cfg)"
proof -
  let ?words = "map word_of_counter (filter (keep_counter cfg) (count_entries cfg srt entries))"
  have d: "distinct (map dw_text ?words)"
    unfolding count_entries_fold by (rule distinct_words)
  have "srt' ?words = srt_out ?words" if "std_sort srt' word_less" for srt'
  proof (rule sorted_wrt_unique)
    show "mset (srt' ?words) = mset (srt_out ?words)"
      using that assms by (simp only: std_sort.sort_perm)
  qed (use sorted_words(2) [OF that d] sorted_words(2) [OF assms d] words.lt_asym in auto)
  then show ?thesis
    using sorted_words(2) [OF assms d] set_Discover [OF assms, of srt entries cfg]
    by (simp add: Discover_def)
qed

lemma discovered_code:
  assumes "std_sort srt_out word_less" and "w \<in> set (Discover srt srt_out entries cfg)"
  shows "dw_code w = [] \<or> (\<exists>g \<in> set (occurrences (dw_text w) (all_grams cfg srt entries)).
      coded g \<and> dw_code w = gram_code g)"
proof -
  obtain s where s: "w = word_of_text s (all_grams cfg srt entries)"
    using assms(2) unfolding set_Discover [OF assms(1)] by blast
  let ?occ = "occurrences s (all_grams cfg srt entries)"
  have "dw_text w = s" "dw_code w = ct_code (fold count_gram ?occ Counter_init)"
    by (simp_all add: s word_of_text_def word_of_counter_def)
  then show ?thesis
    using count_gram_code [of ?occ Counter_init] by (auto simp: Counter_init_def)
qed

text \<open>C25: Every discovered word carries the number of its occurrences modulo \<open>2^32\<close>, the
  earliest and latest time of one, and as code the longest code attributable to an occurrence
  whose characters were all committed one by one, or no code if there is none.\<close>

theorem discovered_word_counters:
  assumes "std_sort srt_out word_less" and "w \<in> set (Discover srt srt_out entries cfg)"
  shows "let occ = occurrences (dw_text w) (all_grams cfg srt entries) in occ \<noteq> []
    \<and> dw_frequency w = of_nat (length occ)
    \<and> dw_first_seen_us w = Min ((\<lambda>g. tk_ts (hd g)) ` set occ)
    \<and> dw_last_seen_us w = Max ((\<lambda>g. tk_ts (hd g)) ` set occ)
    \<and> (dw_code w = [] \<or> (\<exists>g \<in> set occ. coded g \<and> dw_code w = gram_code g))
    \<and> (\<forall>g \<in> set occ. coded g \<longrightarrow> length (gram_code g) \<le> length (dw_code w))"
proof -
  obtain s where s: "w = word_of_text s (all_grams cfg srt entries)"
    "frequent cfg s (all_grams cfg srt entries)"
    using assms(2) unfolding set_Discover [OF assms(1)] by blast
  let ?occ = "occurrences s (all_grams cfg srt entries)"
  have w: "w = word_of_counter (s, fold count_gram ?occ Counter_init)"
    using s(1) by (simp only: word_of_text_def)
  have ne: "?occ \<noteq> []" using s(2) by (simp add: frequent_def)
  have "dw_text w = s" "dw_frequency w = of_nat (length ?occ)"
    "dw_code w = ct_code (fold count_gram ?occ Counter_init)"
    by (simp_all add: w word_of_counter_def count_gram_fields Counter_init_def)
  moreover have "dw_first_seen_us w = Min ((\<lambda>g. tk_ts (hd g)) ` set ?occ)"
    "dw_last_seen_us w = Max ((\<lambda>g. tk_ts (hd g)) ` set ?occ)"
    using ne fold_min_Min [of "map (\<lambda>g. tk_ts (hd g)) ?occ"] fold_max_Max [of "map (\<lambda>g. tk_ts (hd g)) ?occ"]
    by (simp_all add: w word_of_counter_def count_gram_fields Counter_init_def)
  moreover have "dw_code w = [] \<or> (\<exists>g \<in> set ?occ. coded g \<and> dw_code w = gram_code g)"
    "\<forall>g \<in> set ?occ. coded g \<longrightarrow> length (gram_code g) \<le> length (dw_code w)"
    using count_gram_code [of ?occ Counter_init] calculation(3) by (auto simp: Counter_init_def)
  ultimately show ?thesis using ne by (simp only: Let_def simp_thms)
qed

section \<open>Words of two or three characters\<close>

definition valid_utf8 :: "bytes \<Rightarrow> bool" where
  "valid_utf8 s \<longleftrightarrow> (\<exists>cs. s = concat cs \<and> (\<forall>c \<in> set cs. utf8_char c))"

lemma tokens_chars: "map tk_ch (entry_to_tokens e) = pieces (he_committed_text e) (CharOffsets (he_committed_text e))"
  by (simp add: entry_to_tokens_def pieces_def Let_def)

lemma tokens_valid:
  assumes "valid_utf8 (he_committed_text e)" and "t \<in> set (entry_to_tokens e)"
  shows "utf8_char (tk_ch t)"
proof -
  obtain cs where cs: "he_committed_text e = concat cs" "\<forall>c \<in> set cs. utf8_char c"
    using assms(1) by (auto simp: valid_utf8_def)
  have "cs \<noteq> []"
  proof
    assume "cs = []"
    then have "CharOffsets (he_committed_text e) = []" by (simp add: cs(1) CharOffsets_def offsets.simps)
    then show False using assms(2) by (simp add: entry_to_tokens_def)
  qed
  then have "map tk_ch (entry_to_tokens e) = cs"
    unfolding tokens_chars cs(1) using cs(2) by (rule pieces_CharOffsets)
  then show ?thesis using assms(2) cs(2) by (metis imageI list.set_map)
qed

lemma windows_facts: "w \<in> set (windows n xs) \<Longrightarrow> 0 < n \<Longrightarrow> length w = n \<and> set w \<subseteq> set xs"
  by (auto simp: windows_def dest: in_set_takeD in_set_dropD)

lemma all_grams_tokens:
  assumes "set (srt entries) = set entries" and "g \<in> set (all_grams cfg srt entries)"
  shows "length g \<in> {2, 3} \<and> (\<forall>t \<in> set g. \<exists>e \<in> set entries. t \<in> set (entry_to_tokens e))"
proof -
  obtain toks where toks: "toks \<in> set (token_runs cfg srt entries)" "g \<in> set (run_grams cfg toks)"
    using assms(2) by (auto simp: all_grams_def)
  have "\<exists>e \<in> set entries. t \<in> set (entry_to_tokens e)" if "t \<in> set toks" for t
  proof -
    have "set (concat (runs (dc_chain_max_gap_us cfg) (srt entries))) = set entries"
      using assms(1) by (simp only: concat_runs)
    then have "x \<in> set entries"
      if "r \<in> set (runs (dc_chain_max_gap_us cfg) (srt entries))" "x \<in> set r" for r x
      using that by auto
    then show ?thesis using toks(1) that by (fastforce simp: token_runs_def split: if_splits)
  qed
  then show ?thesis
    using toks(2) windows_facts [of g 2 toks] windows_facts [of g 3 toks]
    by (auto simp: run_grams_def split: if_splits)
qed

lemma candidate_chars:
  assumes "LooksLikeRealCandidate (concat cs)" and "\<forall>c \<in> set cs. utf8_char c" and "length cs = 3"
  shows "\<not> (cs ! 1 = cs ! 0 \<and> cs ! 2 = cs ! 0)"
proof
  assume same: "cs ! 1 = cs ! 0 \<and> cs ! 2 = cs ! 0"
  let ?s = "concat cs" and ?offs = "CharOffsets (concat cs)"
  have ne: "cs \<noteq> []" using assms(3) by auto
  have p: "pieces ?s ?offs = cs" using ne assms(2) by (rule pieces_CharOffsets)
  then have len: "length ?offs = 3" using assms(3) by (metis length_pieces)
  have nth: "piece ?s ?offs i = cs ! i" if "i < 3" for i
  proof -
    have "pieces ?s ?offs ! i = piece ?s ?offs i" using that len by (simp add: pieces_def)
    then show ?thesis by (simp only: p)
  qed
  have "?offs ! 0 = 0"
    using len by (auto simp: CharOffsets_def strict.offsets_step)
  then have "take (?offs ! 1) ?s = cs ! 0"
    using nth [of 0] len by (simp add: piece_def)
  moreover have "[1..<length ?offs] = [1, 2]" using len by (simp add: upt_conv_Cons numeral_2_eq_2)
  ultimately have "all_same ?s ?offs"
    using same nth [of 1] nth [of 2] by (simp add: all_same_def)
  then show False using assms(1) len by (simp add: LooksLikeRealCandidate_def split: if_splits)
qed

text \<open>C26: If the committed texts are well-formed UTF-8, every discovered word is two or three
  characters, contains no white space, is not pure ASCII, and is not one character three times.\<close>

theorem discovered_words_well_formed:
  assumes "std_sort srt ts_less" and "std_sort srt_out word_less"
    and "\<forall>e \<in> set entries. valid_utf8 (he_committed_text e)"
    and "w \<in> set (Discover srt srt_out entries cfg)"
  shows "\<exists>cs. dw_text w = concat cs \<and> length cs \<in> {2, 3} \<and> (\<forall>c \<in> set cs. utf8_char c)
    \<and> (\<forall>b \<in> set (dw_text w). \<not> is_space b) \<and> (\<exists>b \<in> set (dw_text w). b \<ge> 0x80)
    \<and> (length cs = 3 \<longrightarrow> \<not> (cs ! 1 = cs ! 0 \<and> cs ! 2 = cs ! 0))"
proof -
  obtain s where s: "w = word_of_text s (all_grams cfg srt entries)"
    "frequent cfg s (all_grams cfg srt entries)" "LooksLikeRealCandidate s"
    using assms(4) unfolding set_Discover [OF assms(2)] by blast
  have tw: "dw_text w = s" by (simp add: s(1) word_of_text_def word_of_counter_def)
  obtain g where g: "g \<in> set (all_grams cfg srt entries)" "gram_text g = s"
    using s(2) by (auto simp: frequent_def occurrences_def filter_empty_conv)
  let ?cs = "map tk_ch g"
  have grams: "length g \<in> {2, 3}" "\<forall>t \<in> set g. \<exists>e \<in> set entries. t \<in> set (entry_to_tokens e)"
    using all_grams_tokens [OF std_sort.sort_set [OF assms(1)] g(1)] by blast+
  have chars: "\<forall>c \<in> set ?cs. utf8_char c"
    using grams(2) assms(3) tokens_valid by fastforce
  have cat: "s = concat ?cs" using g(2) by (simp add: gram_text_def)
  have "length ?cs = 3 \<longrightarrow> \<not> (?cs ! 1 = ?cs ! 0 \<and> ?cs ! 2 = ?cs ! 0)"
    using candidate_chars [of ?cs] s(3) chars cat by blast
  moreover have "(\<forall>b \<in> set s. \<not> is_space b) \<and> (\<exists>b \<in> set s. b \<ge> 0x80)"
    using s(3) by (auto simp: LooksLikeRealCandidate_def list_ex_iff list_all_iff not_less split: if_splits)
  ultimately show ?thesis
    using chars cat grams(1) unfolding tw by (intro exI [of _ ?cs]) simp
qed

section \<open>A concrete history\<close>

text \<open>The two-byte characters C3 A4 and C3 B6, committed alternately by the codes "a" and "b".\<close>

definition demo_commit :: "u64 \<Rightarrow> byte \<Rightarrow> byte \<Rightarrow> HistoryEntry" where
  "demo_commit t k c = \<lparr>he_id = t, he_ts_us = t, he_code = [k], he_committed_text = [0xC3, c], he_context_before = []\<rparr>"

definition demo_commits :: "HistoryEntry list" where
  "demo_commits = [demo_commit 1 97 0xA4, demo_commit 2 98 0xB6, demo_commit 3 97 0xA4, demo_commit 4 98 0xB6]"

definition demo_config :: DiscoveryConfig where
  "demo_config = DiscoveryConfig_init\<lparr>dc_min_frequency := 2, dc_include_trigrams := False\<rparr>"

lemma demo_char: "utf8_char [0xC3, 0xA4]" "utf8_char [0xC3, 0xB6]"
  by (simp_all add: utf8_char_def Utf8Len_def lead_need_def is_cont_def upt_conv_Cons)

lemma demo_tokens:
  "utf8_char [0xC3, c] \<Longrightarrow> entry_to_tokens (demo_commit t k c) = [\<lparr>tk_ch = [0xC3, c], tk_code = [k], tk_ts = t\<rparr>]"
  by (simp add: entry_to_tokens_def demo_commit_def CharOffsets_def strict.offsets_step utf8_char_def
      piece_def)

definition demo_grams :: "Token list list" where
  "demo_grams = all_grams demo_config (sort_by ts_less) demo_commits"

definition demo_text :: bytes where
  "demo_text = [0xC3, 0xA4, 0xC3, 0xB6]"

lemma demo_occurrences:
  "occurrences demo_text demo_grams =
     [[\<lparr>tk_ch = [0xC3, 0xA4], tk_code = [97], tk_ts = 1\<rparr>, \<lparr>tk_ch = [0xC3, 0xB6], tk_code = [98], tk_ts = 2\<rparr>],
      [\<lparr>tk_ch = [0xC3, 0xA4], tk_code = [97], tk_ts = 3\<rparr>, \<lparr>tk_ch = [0xC3, 0xB6], tk_code = [98], tk_ts = 4\<rparr>]]"
proof -
  have "runs 2000000 (sort_by ts_less demo_commits) = [demo_commits]"
    by (simp add: demo_commits_def ts_less_def demo_commit_def gap_between_def)
  then show ?thesis
    by (simp add: demo_grams_def all_grams_def token_runs_def demo_config_def DiscoveryConfig_init_def)
      (simp add: demo_commits_def demo_tokens demo_char run_grams_def windows_def upt_conv_Cons
        occurrences_def gram_text_def demo_text_def)
qed

lemma demo_real: "LooksLikeRealCandidate demo_text"
proof -
  have "length (CharOffsets (concat [[0xC3, 0xA4], [0xC3, 0xB6]])) = length [[0xC3, 0xA4 :: byte], [0xC3, 0xB6]]"
    using pieces_CharOffsets [of "[[0xC3, 0xA4], [0xC3, 0xB6]]"] demo_char
    by (metis length_pieces list.distinct(1) list.set_cases set_ConsD empty_iff list.set(1))
  then show ?thesis
    by (simp add: LooksLikeRealCandidate_def demo_text_def is_space_def)
qed

theorem discover_exact_witness:
  "word_of_text demo_text demo_grams
     \<in> set (Discover (sort_by ts_less) (sort_by word_less) demo_commits demo_config)"
proof -
  have "frequent demo_config demo_text demo_grams"
    by (simp add: frequent_def demo_occurrences demo_config_def)
  then show ?thesis
    using discover_exact [OF words.stable.std_sort_axioms, of "sort_by ts_less" demo_commits demo_config]
      demo_real by (auto simp: demo_grams_def)
qed

lemma demo_discovered:
  "word_of_text demo_text demo_grams
     \<in> set (Discover (sort_by ts_less) (sort_by word_less) demo_commits demo_config)"
  unfolding set_Discover [OF words.stable.std_sort_axioms] demo_grams_def [symmetric]
  using demo_real by (auto simp: frequent_def demo_occurrences demo_config_def)

theorem discovered_word_counters_witness:
  "dw_frequency (word_of_text demo_text demo_grams) = 2 \<and> dw_first_seen_us (word_of_text demo_text demo_grams) = 1
   \<and> dw_last_seen_us (word_of_text demo_text demo_grams) = 3 \<and> dw_text (word_of_text demo_text demo_grams) = demo_text"
proof -
  have tw: "dw_text (word_of_text demo_text demo_grams) = demo_text"
    by (simp add: word_of_text_def word_of_counter_def)
  show ?thesis
    using discovered_word_counters [OF words.stable.std_sort_axioms demo_discovered]
    by (simp only: tw demo_grams_def [symmetric] demo_occurrences Let_def) simp
qed

theorem discovered_words_well_formed_witness:
  "\<exists>cs. dw_text (word_of_text demo_text demo_grams) = concat cs \<and> length cs \<in> {2, 3}"
proof -
  have "valid_utf8 [0xC3, 0xA4]" "valid_utf8 [0xC3, 0xB6]"
    using demo_char unfolding valid_utf8_def by (metis concat.simps append_Nil2 empty_iff list.set(1) set_ConsD)+
  then have valid: "\<forall>e \<in> set demo_commits. valid_utf8 (he_committed_text e)"
    by (simp add: demo_commits_def demo_commit_def)
  show ?thesis
    using discovered_words_well_formed [OF ts.stable.std_sort_axioms words.stable.std_sort_axioms
        valid demo_discovered] by blast
qed

end
