(* ===== verification/Wubi_Codec.thy ===== *)
theory Wubi_Codec
  imports Utf8_Text Files
begin

text \<open>
  The wubi 86 phrase encoder (wubi_codec.cc): the loader of the RIME dictionary, which keeps
  the longest code of every single character, and the phrase rules.
\<close>

section \<open>Fields\<close>

text \<open>\<^verbatim>\<open>line.find('\t', pos)\<close>; \<open>None\<close> is \<^verbatim>\<open>npos\<close>.\<close>

fun find_tab :: "bytes \<Rightarrow> nat option" where
  "find_tab [] = None"
| "find_tab (c # s) = (if c = 0x09 then Some 0 else map_option Suc (find_tab s))"

definition find_tab_from :: "nat \<Rightarrow> bytes \<Rightarrow> nat option" where
  "find_tab_from pos s = map_option ((+) pos) (find_tab (drop pos s))"

lemma find_tab_bound: "find_tab s = Some i \<Longrightarrow> i < length s \<and> s ! i = 0x09 \<and> 0x09 \<notin> set (take i s)"
  by (induction s arbitrary: i) (auto split: if_splits)

section \<open>The code table\<close>

type_synonym WubiCodec = "(bytes \<times> bytes) list"

definition FullCode :: "WubiCodec \<Rightarrow> bytes \<Rightarrow> bytes" where
  "FullCode m ch = (case map_of m ch of None \<Rightarrow> [] | Some c \<Rightarrow> c)"

text \<open>The two fields of a line with a tab; \<open>None\<close> is a \<^verbatim>\<open>continue\<close>.\<close>

definition parse_entry :: "bytes \<Rightarrow> (bytes \<times> bytes) option" where
  "parse_entry line =
     (case find_tab line of
        None \<Rightarrow> None
      | Some tab1 \<Rightarrow>
          let s = take tab1 line;
              code = (case find_tab_from (tab1 + 1) line of
                        None \<Rightarrow> drop (tab1 + 1) line
                      | Some tab2 \<Rightarrow> take (tab2 - tab1 - 1) (drop (tab1 + 1) line))
          in if s = [] \<or> code = [] then None
             else let chars = SplitUtf8Chars s in
                  if length chars \<noteq> 1 then None else Some (chars ! 0, code))"

definition keep_longest :: "bytes \<times> bytes \<Rightarrow> WubiCodec \<Rightarrow> WubiCodec" where
  "keep_longest e m =
     (let cur = FullCode m (fst e) in
      al_put (fst e) (if length (snd e) > length cur then snd e else cur) m)"

text \<open>One round of the loop: the state is \<^verbatim>\<open>past_header\<close> and the table.\<close>

definition load_line :: "bytes \<Rightarrow> bool \<times> WubiCodec \<Rightarrow> bool \<times> WubiCodec" where
  "load_line line st =
     (case st of (past_header, m) \<Rightarrow>
        if line = [] then (past_header, m)
        else if hd line = 0x23 then (past_header, m)
        else if \<not> past_header \<and> find_tab line = None then (past_header, m)
        else (True, case parse_entry line of None \<Rightarrow> m | Some e \<Rightarrow> keep_longest e m))"

definition LoadFromDict :: "path \<Rightarrow> fs \<Rightarrow> bool \<times> WubiCodec" where
  "LoadFromDict p f =
     (case f p of
        None \<Rightarrow> (False, [])
      | Some s \<Rightarrow> (True, snd (fold load_line (getlines s) (False, []))))"

section \<open>Phrases\<close>

fun look_up_codes :: "WubiCodec \<Rightarrow> bytes list \<Rightarrow> bytes list option" where
  "look_up_codes m [] = Some []"
| "look_up_codes m (c # cs) =
     (case map_of m c of
        None \<Rightarrow> None
      | Some code \<Rightarrow> if code = [] then None else map_option (Cons code) (look_up_codes m cs))"

definition EncodePhrase :: "WubiCodec \<Rightarrow> bytes \<Rightarrow> bytes" where
  "EncodePhrase m phrase =
     (let chars = SplitUtf8Chars phrase in
      if length chars < 2 then []
      else case look_up_codes m chars of
        None \<Rightarrow> []
      | Some codes \<Rightarrow>
          if length chars = 2 then take 2 (codes ! 0) @ take 2 (codes ! 1)
          else if length chars = 3 then take 1 (codes ! 0) @ take 1 (codes ! 1) @ take 2 (codes ! 2)
          else take 1 (codes ! 0) @ take 1 (codes ! 1) @ take 1 (codes ! 2) @ take 1 (last codes))"

section \<open>Loading\<close>

lemma FullCode_keep_longest:
  "FullCode (keep_longest (c, code) m) ch =
     (if ch = c \<and> length code > length (FullCode m c) then code else FullCode m ch)"
  by (simp add: keep_longest_def FullCode_def Let_def)

text \<open>The entries a dictionary contributes.\<close>

definition dict_entries :: "bytes \<Rightarrow> (bytes \<times> bytes) list" where
  "dict_entries s = List.map_filter parse_entry
     (filter (\<lambda>line. line \<noteq> [] \<and> hd line \<noteq> 0x23) (getlines s))"

lemma parse_entry_tab: "find_tab line = None \<Longrightarrow> parse_entry line = None"
  by (simp add: parse_entry_def)

text \<open>The header test changes nothing: header lines it skips have no tab and are no entries.\<close>

lemma load_lines_entries:
  "snd (fold load_line ls (b, m))
     = fold keep_longest (List.map_filter parse_entry (filter (\<lambda>line. line \<noteq> [] \<and> hd line \<noteq> 0x23) ls)) m"
proof (induction ls arbitrary: b m)
  case (Cons line ls)
  show ?case
    using Cons.IH parse_entry_tab [of line]
    by (cases "parse_entry line"; cases "find_tab line") (auto simp: load_line_def map_filter_simps)
qed (simp add: map_filter_simps)

lemma keep_longest_codes:
  "FullCode (fold keep_longest es m) ch \<in> insert (FullCode m ch) {code. (ch, code) \<in> set es}
   \<and> length (FullCode m ch) \<le> length (FullCode (fold keep_longest es m) ch)
   \<and> (\<forall>code. (ch, code) \<in> set es \<longrightarrow> length code \<le> length (FullCode (fold keep_longest es m) ch))"
proof (induction es arbitrary: m)
  case (Cons e es)
  obtain c code where e: "e = (c, code)" by (cases e)
  show ?case
    using Cons.IH [of "keep_longest e m"] by (auto simp: e FullCode_keep_longest split: if_splits)
qed simp

lemma find_tab_None: "find_tab s = None \<longleftrightarrow> 0x09 \<notin> set s"
  by (induction s) auto

lemma parse_entry_facts:
  assumes "parse_entry line = Some (ch, code)"
  shows "code \<noteq> [] \<and> lax.is_char ch \<and> 0x09 \<notin> set code \<and> set code \<subseteq> set line"
proof -
  obtain tab1 where tab1: "find_tab line = Some tab1"
    using assms by (auto simp: parse_entry_def split: option.splits)
  let ?rest = "drop (Suc tab1) line"
  have code: "code = (case find_tab ?rest of None \<Rightarrow> ?rest | Some j \<Rightarrow> take j ?rest)"
    and ne: "code \<noteq> []" and ch: "length (SplitUtf8Chars (take tab1 line)) = 1"
      "ch = SplitUtf8Chars (take tab1 line) ! 0"
    using assms
    by (auto simp: parse_entry_def tab1 find_tab_from_def Let_def split: option.splits if_splits)
  have "0x09 \<notin> set code"
    unfolding code using find_tab_bound [of ?rest] by (auto simp: find_tab_None split: option.split)
  moreover have "set code \<subseteq> set line"
    unfolding code by (auto dest: in_set_takeD in_set_dropD split: option.splits)
  moreover have "ch \<in> set (SplitUtf8Chars (take tab1 line))" using ch by simp
  ultimately show ?thesis
    using ne lax.walk_chars by (auto simp: SplitUtf8Chars_def)
qed

lemma dict_entries_facts:
  "(ch, code) \<in> set (dict_entries s) \<Longrightarrow>
     code \<noteq> [] \<and> lax.is_char ch \<and> 0x09 \<notin> set code \<and> 0x0A \<notin> set code"
  using parse_entry_facts getlines_no_newline
  by (fastforce simp: dict_entries_def List.map_filter_def)

text \<open>A character of the dictionary is the start of its line, so it is no comment sign.\<close>

lemma parse_entry_hd:
  assumes "parse_entry line = Some (ch, code)"
  shows "ch \<noteq> [] \<and> hd ch = hd line"
proof -
  obtain tab1 where tab1: "find_tab line = Some tab1"
    using assms by (auto simp: parse_entry_def split: option.splits)
  let ?s = "take tab1 line"
  have "?s \<noteq> []" and chars: "length (SplitUtf8Chars ?s) = 1" "ch = SplitUtf8Chars ?s ! 0"
    using assms by (auto simp: parse_entry_def tab1 Let_def split: if_splits)
  then have split: "SplitUtf8Chars ?s = [ch]" by (cases "SplitUtf8Chars ?s") auto
  then have "lax.is_char ch" using lax.walk_chars [of ch ?s] by (simp add: SplitUtf8Chars_def)
  then have "ch \<noteq> []" by (auto simp: lax.is_char_def)
  moreover obtain r where "ch @ r = ?s"
    using lax.concat_walk [of ?s] split by (auto simp: SplitUtf8Chars_def)
  ultimately show ?thesis using \<open>?s \<noteq> []\<close> by (metis hd_append2 hd_take take_eq_Nil bot_nat_0.not_eq_extremum)
qed

lemma load_codes_hash:
  assumes "LoadFromDict p f = (ok, m)" and "FullCode m ch \<noteq> []"
  shows "ch \<noteq> [] \<and> hd ch \<noteq> 0x23"
proof (cases "f p")
  case (Some s)
  then have "m = fold keep_longest (dict_entries s) []"
    using assms by (auto simp: LoadFromDict_def load_lines_entries dict_entries_def)
  then have "(ch, FullCode m ch) \<in> set (dict_entries s)"
    using keep_longest_codes [of "dict_entries s" "[]" ch] assms(2) by (auto simp: FullCode_def)
  then obtain line where "hd line \<noteq> 0x23" "parse_entry line = Some (ch, FullCode m ch)"
    by (auto simp: dict_entries_def List.map_filter_def)
  then show ?thesis using parse_entry_hd by metis
next
  case None
  then have "FullCode m ch = []" using assms(1) by (auto simp: LoadFromDict_def FullCode_def)
  with assms(2) show ?thesis by simp
qed

lemma load_codes_plain:
  assumes "LoadFromDict p f = (ok, m)"
  shows "0x09 \<notin> set (FullCode m ch) \<and> 0x0A \<notin> set (FullCode m ch)"
proof (cases "f p")
  case (Some s)
  then have "m = fold keep_longest (dict_entries s) []"
    using assms by (auto simp: LoadFromDict_def load_lines_entries dict_entries_def)
  then have "FullCode m ch \<in> insert [] {code. (ch, code) \<in> set (dict_entries s)}"
    using keep_longest_codes [of "dict_entries s" "[]" ch] by (simp add: FullCode_def)
  then show ?thesis using dict_entries_facts by fastforce
qed (use assms in \<open>auto simp: LoadFromDict_def FullCode_def\<close>)

text \<open>C36: Loading succeeds exactly when the file can be read, forgets what was loaded before,
  and then \<^verbatim>\<open>FullCode\<close> of a character is a longest code among the dictionary's
  single-character entries for it, empty exactly for a character without one; codes contain
  neither tabs nor newlines.\<close>

theorem load_longest_code:
  assumes "LoadFromDict p f = (ok, m)"
  shows "(ok \<longleftrightarrow> f p \<noteq> None) \<and> (\<not> ok \<longrightarrow> m = [])
    \<and> (\<forall>s. f p = Some s \<longrightarrow>
          (\<forall>ch code. (ch, code) \<in> set (dict_entries s) \<longrightarrow>
              (ch, FullCode m ch) \<in> set (dict_entries s) \<and> length code \<le> length (FullCode m ch))
        \<and> (\<forall>ch. FullCode m ch = [] \<longleftrightarrow> (\<forall>code. (ch, code) \<notin> set (dict_entries s)))
        \<and> (\<forall>ch. 0x09 \<notin> set (FullCode m ch) \<and> 0x0A \<notin> set (FullCode m ch)))"
proof (cases "f p")
  case None
  then show ?thesis using assms by (auto simp: LoadFromDict_def)
next
  case (Some s)
  then have ok: "ok" and m: "m = fold keep_longest (dict_entries s) []"
    using assms by (auto simp: LoadFromDict_def load_lines_entries dict_entries_def)
  have codes: "FullCode m ch \<in> insert [] {code. (ch, code) \<in> set (dict_entries s)}"
    "(ch, code) \<in> set (dict_entries s) \<Longrightarrow> length code \<le> length (FullCode m ch)" for ch code
    using keep_longest_codes [of "dict_entries s" "[]" ch] by (auto simp: m FullCode_def)
  have ne: "FullCode m ch \<noteq> [] \<and> (ch, FullCode m ch) \<in> set (dict_entries s)"
    if "(ch, code) \<in> set (dict_entries s)" for ch code
    using codes [of ch] dict_entries_facts that by fastforce
  have none: "FullCode m ch = [] \<longleftrightarrow> (\<forall>code. (ch, code) \<notin> set (dict_entries s))" for ch
    using codes(1) [of ch] ne by auto
  have "0x09 \<notin> set (FullCode m ch) \<and> 0x0A \<notin> set (FullCode m ch)" for ch
    using assms by (rule load_codes_plain)
  moreover have "\<forall>ch code. (ch, code) \<in> set (dict_entries s) \<longrightarrow>
      (ch, FullCode m ch) \<in> set (dict_entries s) \<and> length code \<le> length (FullCode m ch)"
    using codes(2) ne by blast
  ultimately show ?thesis using Some ok none by (simp, blast)
qed

section \<open>Encoding\<close>

lemma FullCode_Some: "FullCode m c \<noteq> [] \<Longrightarrow> map_of m c = Some (FullCode m c)"
  by (auto simp: FullCode_def split: option.splits)

lemma look_up_codes_eq:
  "look_up_codes m cs =
     (if list_all (\<lambda>c. FullCode m c \<noteq> []) cs then Some (map (FullCode m) cs) else None)"
  by (induction cs) (auto simp: FullCode_def split: option.split)

text \<open>The phrase rules of wubi 86 over the full codes of the characters.\<close>

fun wubi_rule :: "(bytes \<Rightarrow> bytes) \<Rightarrow> bytes list \<Rightarrow> bytes" where
  "wubi_rule k [a, b] = take 2 (k a) @ take 2 (k b)"
| "wubi_rule k [a, b, c] = take 1 (k a) @ take 1 (k b) @ take 2 (k c)"
| "wubi_rule k (a # b # c # d # ds) =
     take 1 (k a) @ take 1 (k b) @ take 1 (k c) @ take 1 (k (last (d # ds)))"
| "wubi_rule k _ = []"

lemma length_take_code: "x \<noteq> [] \<Longrightarrow> length (take 1 x) = 1" "x \<noteq> [] \<Longrightarrow> length (take 2 x) \<in> {1..2}"
  by (cases x; simp)+

lemma wubi_rule_length:
  "\<forall>c \<in> set cs. k c \<noteq> [] \<Longrightarrow> 2 \<le> length cs \<Longrightarrow> length (wubi_rule k cs) \<in> {2..4}"
proof (induction k cs rule: wubi_rule.induct)
  case (1 k a b)
  then show ?case using length_take_code(2) [of "k a"] length_take_code(2) [of "k b"] by (simp, arith)
next
  case (2 k a b c)
  then show ?case
    using length_take_code(1) [of "k a"] length_take_code(1) [of "k b"] length_take_code(2) [of "k c"] by (simp add: min_def)
next
  case (3 k a b c d ds)
  then have "k (last (d # ds)) \<noteq> []" using last_in_set [of "d # ds"] by auto
  with 3 show ?case
    using length_take_code(1) [of "k a"] length_take_code(1) [of "k b"] length_take_code(1) [of "k c"]
      length_take_code(1) [of "k (last (d # ds))"] by (simp add: min_def)
qed simp_all

text \<open>C23: The code of a phrase of well-formed characters follows the wubi rules for two, three
  and more characters; it is empty exactly for a phrase of fewer than two characters or with a
  character that has no code, and else has two to four keys.\<close>

theorem encode_phrase_rules:
  assumes "\<forall>c \<in> set cs. utf8_char c"
  shows "EncodePhrase m (concat cs) =
      (if \<exists>c \<in> set cs. FullCode m c = [] then [] else wubi_rule (FullCode m) cs)
    \<and> (EncodePhrase m (concat cs) = [] \<longleftrightarrow> length cs < 2 \<or> (\<exists>c \<in> set cs. FullCode m c = []))
    \<and> length (EncodePhrase m (concat cs)) \<in> {0} \<union> {2..4}"
proof -
  have chars: "SplitUtf8Chars (concat cs) = cs" using assms by (rule SplitUtf8Chars_concat)
  have eq: "EncodePhrase m (concat cs) =
      (if \<exists>c \<in> set cs. FullCode m c = [] then [] else wubi_rule (FullCode m) cs)"
    unfolding EncodePhrase_def chars look_up_codes_eq
    by (cases "(FullCode m, cs)" rule: wubi_rule.cases) (auto simp: list_all_iff last_map Let_def)
  note wubi_rule_length [of cs "FullCode m"]
  moreover have "wubi_rule (FullCode m) cs = []" if "length cs < 2"
    using that by (cases "(FullCode m, cs)" rule: wubi_rule.cases) auto
  ultimately show ?thesis
    by (cases "length cs < 2"; cases "\<exists>c \<in> set cs. FullCode m c = []") (auto simp: eq)
qed

section \<open>A concrete dictionary\<close>

text \<open>Two lines: "a", tab, "x" and "a", tab, "xy".\<close>

definition demo_dict :: bytes where
  "demo_dict = [97, 9, 120, 10, 97, 9, 120, 121]"

lemma demo_dict_entries: "dict_entries demo_dict = [([97], [120]), ([97], [120, 121])]"
proof -
  have "SplitUtf8Chars [97] = [[97]]"
    using SplitUtf8Chars_concat [of "[[97]]"] by (simp add: utf8_char_def Utf8Len_def lead_need_def)
  then have "parse_entry [97, 9, 120] = Some ([97], [120])"
    "parse_entry [97, 9, 120, 121] = Some ([97], [120, 121])"
    by (simp_all add: parse_entry_def find_tab_from_def)
  moreover have "getlines demo_dict = [[97, 9, 120], [97, 9, 120, 121]]"
    by (simp add: demo_dict_def getlines_eval)
  ultimately show ?thesis by (simp add: dict_entries_def map_filter_simps)
qed

theorem load_longest_code_witness:
  "length (FullCode (snd (LoadFromDict [1] [[1] \<mapsto> demo_dict])) [97]) \<ge> 2"
proof -
  have "([97], [120, 121]) \<in> set (dict_entries demo_dict)" by (simp add: demo_dict_entries)
  then have "length [120 :: byte, 121] \<le> length (FullCode (snd (LoadFromDict [1] [[1] \<mapsto> demo_dict])) [97])"
    using load_longest_code [OF prod.collapse [symmetric, of "LoadFromDict [1] [[1] \<mapsto> demo_dict]"]]
    by (metis fun_upd_same)
  then show ?thesis by simp
qed

theorem encode_phrase_rules_witness:
  "EncodePhrase [([97], [120, 121, 122]), ([98], [112])] [97, 98] = [120, 121, 112]"
  using encode_phrase_rules [of "[[97], [98]]" "[([97], [120, 121, 122]), ([98], [112])]"]
  by (simp add: utf8_char_def Utf8Len_def lead_need_def FullCode_def)

end
