(* ===== verification/Text_Output.thy ===== *)
theory Text_Output
  imports Dafeng_Prelude
begin

text \<open>
  Numbers and strings the way the C library prints and reads them: decimal output, the field
  widths of \<^verbatim>\<open>printf\<close>, strings that end at a NUL, and \<^verbatim>\<open>atoi\<close>.
\<close>

section \<open>Decimal numbers\<close>

text \<open>\<^verbatim>\<open>f << n\<close> of an unsigned integer.\<close>

fun dec :: "nat \<Rightarrow> bytes" where
  "dec n = (if n < 10 then [48 + of_nat n] else dec (n div 10) @ [48 + of_nat (n mod 10)])"

declare dec.simps [simp del]

definition undec :: "bytes \<Rightarrow> nat" where
  "undec s = foldl (\<lambda>n c. 10 * n + unat (c - 48)) 0 s"

lemma unat_digit: "n < 10 \<Longrightarrow> unat (of_nat n :: byte) = n"
  by (simp add: unat_of_nat)

lemma undec_dec [simp]: "undec (dec n) = n"
proof (induction n rule: dec.induct)
  case (1 n)
  then show ?case
    by (subst dec.simps) (auto simp: undec_def unat_digit)
qed

lemma digit_word: "n < 10 \<Longrightarrow> unat (48 + of_nat n :: byte) = 48 + n"
  by (simp add: unat_word_ariths unat_of_nat)

lemma dec_digits: "c \<in> set (dec n) \<Longrightarrow> 48 \<le> unat c \<and> unat c < 58"
proof (induction n rule: dec.induct)
  case (1 n)
  then show ?case
    by (subst (asm) (2) dec.simps) (auto simp: digit_word split: if_splits)
qed

lemma length_dec: "n < 10 ^ k \<Longrightarrow> 0 < k \<Longrightarrow> length (dec n) \<le> k"
proof (induction n arbitrary: k rule: dec.induct)
  case (1 n)
  show ?case
  proof (cases "n < 10")
    case False
    obtain j where j: "k = Suc j" using 1(3) by (cases k) auto
    then have k: "k = Suc j" "0 < j" using 1(2) False by (cases j; simp)+
    then have "n div 10 < 10 ^ j" using 1(2) by auto
    with 1 False k show ?thesis by (subst dec.simps) simp
  qed (use 1 in \<open>subst dec.simps, simp\<close>)
qed

section \<open>Fields\<close>

text \<open>\<^verbatim>\<open>%s\<close> of a \<^verbatim>\<open>c_str()\<close> stops at the first NUL.\<close>

definition c_str :: "bytes \<Rightarrow> bytes" where
  "c_str s = takeWhile (\<lambda>c. c \<noteq> 0) s"

text \<open>\<^verbatim>\<open>%4u\<close>, \<^verbatim>\<open>%02d\<close> and \<^verbatim>\<open>%-8s\<close>.\<close>

definition pad_left :: "byte \<Rightarrow> nat \<Rightarrow> bytes \<Rightarrow> bytes" where
  "pad_left c n s = replicate (n - length s) c @ s"

definition pad_right :: "nat \<Rightarrow> bytes \<Rightarrow> bytes" where
  "pad_right n s = s @ replicate (n - length s) 0x20"

lemma c_str_id [simp]: "0 \<notin> set s \<Longrightarrow> c_str s = s"
  unfolding c_str_def by (subst takeWhile_eq_all_conv) auto

lemma dec_nonempty [simp]: "dec n \<noteq> []"
  by (subst dec.simps) simp

section \<open>Reading numbers\<close>

text \<open>
  \<^verbatim>\<open>std::atoi\<close>: blanks, a sign, digits up to the first other character, and zero if
  there are none.  A value outside \<^verbatim>\<open>int\<close> is undefined behaviour in C; here it wraps.
\<close>

definition is_digit :: "byte \<Rightarrow> bool" where
  "is_digit c \<longleftrightarrow> 0x30 \<le> c \<and> c \<le> 0x39"

definition is_blank :: "byte \<Rightarrow> bool" where
  "is_blank c \<longleftrightarrow> c = 0x20 \<or> 0x09 \<le> c \<and> c \<le> 0x0D"

definition atoi :: "bytes \<Rightarrow> i32" where
  "atoi s =
     (let t = dropWhile is_blank s; digits = \<lambda>u. of_nat (undec (takeWhile is_digit u)) in
      case t of
        [] \<Rightarrow> 0
      | c # u \<Rightarrow> if c = 0x2D then - digits u else if c = 0x2B then digits u else digits t)"

lemma is_digit_dec: "c \<in> set (dec n) \<Longrightarrow> is_digit c"
  using dec_digits [of c n] by (simp add: is_digit_def word_le_nat_alt)

lemma atoi_dec: "atoi (dec n) = of_nat n"
proof -
  obtain c u where cu: "dec n = c # u" by (cases "dec n") simp_all
  have c: "is_digit c" using is_digit_dec [of c n] cu by simp
  then have "\<not> is_blank c" "c \<noteq> 0x2D" "c \<noteq> 0x2B"
    by (auto simp: is_digit_def is_blank_def word_le_nat_alt)
  moreover have "takeWhile is_digit (dec n) = dec n"
    using is_digit_dec by (simp add: takeWhile_eq_all_conv)
  then have "undec (takeWhile is_digit (c # u)) = n" by (simp only: cu [symmetric] undec_dec)
  ultimately show ?thesis
    using c by (simp add: atoi_def cu del: takeWhile.simps)
qed

text \<open>\<^verbatim>\<open>%d\<close>.\<close>

definition dec_int :: "i32 \<Rightarrow> bytes" where
  "dec_int w = (if w <s 0 then 0x2D # dec (unat (- w)) else dec (unat w))"

lemma takeWhile_dec [simp]: "takeWhile is_digit (dec n) = dec n"
  using is_digit_dec by (simp add: takeWhile_eq_all_conv)

lemma atoi_dec_int: "atoi (dec_int w) = w"
proof (cases "w <s 0")
  case True
  then have "atoi (dec_int w) = - of_nat (undec (takeWhile is_digit (dec (unat (- w)))))"
    by (simp add: dec_int_def atoi_def is_blank_def)
  then show ?thesis by simp
qed (simp add: dec_int_def atoi_dec)

text \<open>What is not a number reads as zero.\<close>

lemma atoi_junk: "s \<noteq> [] \<Longrightarrow> \<not> is_digit (hd s) \<Longrightarrow> \<not> is_blank (hd s) \<Longrightarrow> hd s \<notin> {0x2D, 0x2B} \<Longrightarrow> atoi s = 0"
  by (cases s) (simp_all add: atoi_def Let_def undec_def)

end
