(* ===== verification/Utf8_Valid.thy ===== *)
theory Utf8_Valid
  imports Text_Output Files
begin

text \<open>
  Well-formed UTF-8 as the Unicode standard has it (table 3-7: no overlong forms, no surrogates,
  nothing above U+10FFFF), as an automaton over the bytes.  A YAML stream is refused where it is not
  well formed; the program itself never checks this.
\<close>

section \<open>The automaton\<close>

text \<open>The state is the list of ranges in which the next bytes have to lie, or \<open>None\<close> after an error.\<close>

type_synonym utf8_state = "(byte \<times> byte) list option"

definition utf8_lead :: "byte \<Rightarrow> utf8_state" where
  "utf8_lead c =
     (if c < 0x80 then Some []
      else if c < 0xC2 then None
      else if c < 0xE0 then Some [(0x80, 0xBF)]
      else if c = 0xE0 then Some [(0xA0, 0xBF), (0x80, 0xBF)]
      else if c = 0xED then Some [(0x80, 0x9F), (0x80, 0xBF)]
      else if c < 0xF0 then Some [(0x80, 0xBF), (0x80, 0xBF)]
      else if c = 0xF0 then Some [(0x90, 0xBF), (0x80, 0xBF), (0x80, 0xBF)]
      else if c < 0xF4 then Some [(0x80, 0xBF), (0x80, 0xBF), (0x80, 0xBF)]
      else if c = 0xF4 then Some [(0x80, 0x8F), (0x80, 0xBF), (0x80, 0xBF)]
      else None)"

definition utf8_step :: "byte \<Rightarrow> utf8_state \<Rightarrow> utf8_state" where
  "utf8_step c st =
     (case st of
        None \<Rightarrow> None
      | Some [] \<Rightarrow> utf8_lead c
      | Some ((lo, hi) # rs) \<Rightarrow> if 0x80 \<le> c \<and> lo \<le> c \<and> c \<le> hi then Some rs else None)"

definition utf8_ok :: "bytes \<Rightarrow> bool" where
  "utf8_ok s \<longleftrightarrow> fold utf8_step s (Some []) = Some []"

section \<open>Runs\<close>

lemma utf8_step_ascii: "c < 0x80 \<Longrightarrow> utf8_step c st = (if st = Some [] then Some [] else None)"
  by (auto simp: utf8_step_def utf8_lead_def not_le split: option.split list.split)

lemma fold_utf8_None [simp]: "fold utf8_step s None = None"
  by (induction s) (simp_all add: utf8_step_def)

lemma utf8_ok_Nil [simp]: "utf8_ok []"
  by (simp add: utf8_ok_def)

text \<open>An ASCII byte is a character of its own, so a text can be cut there.\<close>

lemma utf8_ok_Cons [simp]: "c < 0x80 \<Longrightarrow> utf8_ok (c # s) \<longleftrightarrow> utf8_ok s"
  by (simp add: utf8_ok_def utf8_step_ascii)

lemma utf8_ok_cut: "c < 0x80 \<Longrightarrow> utf8_ok (s @ c # r) \<longleftrightarrow> utf8_ok s \<and> utf8_ok r"
  by (simp add: utf8_ok_def utf8_step_ascii)

lemma utf8_ok_prefix: "list_all (\<lambda>c. c < 0x80) s \<Longrightarrow> utf8_ok (s @ r) \<longleftrightarrow> utf8_ok r"
  by (induction s) simp_all

lemma utf8_ok_ascii: "list_all (\<lambda>c. c < 0x80) s \<Longrightarrow> utf8_ok s"
  using utf8_ok_prefix [of s "[]"] by simp

lemma utf8_ok_dec [simp]: "utf8_ok (dec n)"
  using dec_digits [of _ n] by (intro utf8_ok_ascii) (force simp: list_all_iff word_less_nat_alt)

lemma utf8_ok_lines: "utf8_ok (concat (map text_line ls)) \<longleftrightarrow> list_all utf8_ok ls"
  by (induction ls) (simp_all add: text_line_def utf8_ok_cut)

text \<open>A replacement of ASCII bytes by nonempty ASCII strings does not show.\<close>

lemma utf8_run_ascii:
  assumes "list_all (\<lambda>c. c < 0x80) s" and "s \<noteq> []"
  shows "fold utf8_step s st = (if st = Some [] then Some [] else None)"
proof -
  have "fold utf8_step s (Some []) = Some []" using utf8_ok_ascii [OF assms(1)] by (simp add: utf8_ok_def)
  with assms show ?thesis by (cases s) (simp_all add: utf8_step_ascii)
qed

lemma utf8_ok_escape:
  assumes "\<And>c. esc c = [c] \<or> c < 0x80 \<and> esc c \<noteq> [] \<and> list_all (\<lambda>c. c < 0x80) (esc c)"
  shows "utf8_ok (concat (map esc s)) \<longleftrightarrow> utf8_ok s"
proof -
  have "fold utf8_step (esc c) st = utf8_step c st" for c st
    using assms [of c] by (auto simp: utf8_run_ascii utf8_step_ascii)
  then have "fold utf8_step (concat (map esc s)) st = fold utf8_step s st" for st
    by (induction s arbitrary: st) simp_all
  then show ?thesis by (simp add: utf8_ok_def)
qed

end
