(* ===== verification/User_Dict.thy ===== *)
theory User_Dict
  imports New_Word Files Text_Output Utf8_Valid
begin

unbundle bit_operations_syntax

text \<open>
  The two dictionary files the daemon writes (user_dict.cc): the YAML list of learned words and
  the RIME dictionary, and the redeploy sentinel.  The time stamp \<open>ts\<close> is a parameter.
  Both readers at the end are specifications.  The reader of the word list refuses a stream that is
  not UTF-8, as YAML 1.2 does, and any line outside the layout of the file; its double-quoted scalars
  are those of YAML 1.2.  RIME's dictionary is read by rows of tab-separated columns after the line
  of three dots, without empty lines and lines that start with \<^verbatim>\<open>#\<close>.
\<close>

section \<open>Escapes\<close>

text \<open>\<^verbatim>\<open>std::hex\<close> prints lower-case digits.\<close>

definition hex_digit :: "nat \<Rightarrow> byte" where
  "hex_digit n = (if n < 10 then 48 + of_nat n else 87 + of_nat n)"

section \<open>Quoting\<close>

definition escape_char :: "byte \<Rightarrow> bytes" where
  "escape_char c =
     (if c = 0x5C \<or> c = 0x22 then [0x5C, c]
      else if c = 0x0A then [0x5C, 0x6E]
      else if c = 0x0D then [0x5C, 0x72]
      else if c = 0x09 then [0x5C, 0x74]
      else if c < 0x20 then [0x5C, 0x78, hex_digit (unat c div 16), hex_digit (unat c mod 16)]
      else [c])"

definition EscapeYamlString :: "bytes \<Rightarrow> bytes" where
  "EscapeYamlString s = [0x22] @ concat (map escape_char s) @ [0x22]"

section \<open>The list of learned words\<close>

definition word_lines :: "DiscoveredWord \<Rightarrow> bytes list" where
  "word_lines w =
     [lit ''  - text: '' @ EscapeYamlString (dw_text w)]
     @ (if dw_code w \<noteq> [] then [lit ''    code: '' @ EscapeYamlString (dw_code w)] else [])
     @ [lit ''    frequency: '' @ dec (unat (dw_frequency w)),
        lit ''    first_seen_us: '' @ dec (unat (dw_first_seen_us w)),
        lit ''    last_seen_us: '' @ dec (unat (dw_last_seen_us w))]"

definition learned_words_bytes :: "bytes \<Rightarrow> DiscoveredWord list \<Rightarrow> bytes" where
  "learned_words_bytes ts words =
     concat (map text_line (
       [lit ''# Dafeng learned words.'',
        lit ''# Generated at: '' @ ts,
        lit ''# Total entries: '' @ dec (length words),
        lit ''# DO NOT EDIT BY HAND. Regenerated each learning round.'',
        lit ''---'',
        lit ''schema:'',
        lit ''  schema_id: dafeng_learned'',
        lit ''  version: '' @ [0x22, 0x31, 0x22],
        [],
        lit ''words:'']
       @ concat (map word_lines words)))"

definition Generate :: "file_events \<Rightarrow> bytes \<Rightarrow> DiscoveredWord list \<Rightarrow> path \<Rightarrow> fs \<Rightarrow> bool \<times> fs" where
  "Generate ev ts words out f = replace_file ev out (learned_words_bytes ts words) f"

section \<open>The RIME dictionary\<close>

definition dict_row :: "DiscoveredWord \<Rightarrow> bytes" where
  "dict_row w = dw_text w @ [0x09] @ dw_code w @ [0x09] @ dec (unat (dw_frequency w))"

definition rime_dict_bytes :: "bytes \<Rightarrow> bytes \<Rightarrow> bytes \<Rightarrow> DiscoveredWord list \<Rightarrow> bytes" where
  "rime_dict_bytes ts ts' dict_name words =
     concat (map text_line (
       [lit ''# Rime dictionary '' @ [0xE2, 0x80, 0x94] @ lit '' generated by dafeng-daemon'',
        lit ''# Generated at: '' @ ts,
        lit ''---'',
        lit ''name: '' @ dict_name,
        lit ''version: '' @ [0x22] @ ts' @ [0x22],
        lit ''sort: by_weight'',
        lit ''use_preset_vocabulary: false'',
        lit ''columns:'',
        lit ''  - text'',
        lit ''  - code'',
        lit ''  - weight'',
        lit ''...'']
       @ map dict_row (filter (\<lambda>w. dw_code w \<noteq> []) words)))"

definition WriteRimeDictYaml ::
  "file_events \<Rightarrow> bytes \<Rightarrow> bytes \<Rightarrow> DiscoveredWord list \<Rightarrow> path \<Rightarrow> bytes \<Rightarrow> fs \<Rightarrow> bool \<times> fs" where
  "WriteRimeDictYaml ev ts ts' words out dict_name f =
     replace_file ev out (rime_dict_bytes ts ts' dict_name words) f"

section \<open>The redeploy sentinel\<close>

text \<open>
  The time stamp is short, so it stays in the stream's buffer and \<^verbatim>\<open>f.good()\<close> is asked
  before it is written; the destructor flushes and ignores an error: \<open>fe_stop\<close> does not show.
\<close>

definition RequestRimeRedeploy :: "bool \<Rightarrow> file_events \<Rightarrow> bytes \<Rightarrow> path \<Rightarrow> fs \<Rightarrow> bool \<times> fs" where
  "RequestRimeRedeploy mkdir_ok ev ts data_dir f =
     (if \<not> mkdir_ok then (False, f)
      else if \<not> fe_open ev then (False, f)
      else let p = join data_dir (lit ''redeploy_requested''); content = text_line ts in
           (True, f(p \<mapsto> (case fe_stop ev of None \<Rightarrow> content | Some n \<Rightarrow> take n content))))"

section \<open>Reading quoted strings\<close>

definition hex_val :: "byte \<Rightarrow> nat" where
  "hex_val c = (if c < 58 then unat c - 48 else unat c - 87)"

lemma hex_val_digit: "n < 16 \<Longrightarrow> hex_val (hex_digit n) = n"
  by (auto simp: hex_val_def hex_digit_def digit_word word_less_nat_alt unat_word_ariths unat_of_nat)

text \<open>The rest of a double-quoted scalar, after the opening quote.\<close>

fun yaml_scalar :: "bytes \<Rightarrow> bytes option" where
  "yaml_scalar [] = None"
| "yaml_scalar (c # s) =
     (if c = 0x22 then (if s = [] then Some [] else None)
      else if c \<noteq> 0x5C then map_option (Cons c) (yaml_scalar s)
      else case s of
        [] \<Rightarrow> None
      | e # s' \<Rightarrow>
          if e = 0x5C \<or> e = 0x22 then map_option (Cons e) (yaml_scalar s')
          else if e = 0x6E then map_option (Cons 0x0A) (yaml_scalar s')
          else if e = 0x72 then map_option (Cons 0x0D) (yaml_scalar s')
          else if e = 0x74 then map_option (Cons 0x09) (yaml_scalar s')
          else if e = 0x78 then
            (case s' of
               h # l # s'' \<Rightarrow> map_option (Cons (of_nat (16 * hex_val h + hex_val l))) (yaml_scalar s'')
             | _ \<Rightarrow> None)
          else None)"

definition yaml_unquote :: "bytes \<Rightarrow> bytes option" where
  "yaml_unquote s = (case s of [] \<Rightarrow> None | c # r \<Rightarrow> if c = 0x22 then yaml_scalar r else None)"

lemma yaml_scalar_escape: "yaml_scalar (escape_char c @ r) = map_option (Cons c) (yaml_scalar r)"
proof -
  have "unat c < 32" if "c < 0x20"
    using that by (simp add: word_less_nat_alt)
  then have "16 * hex_val (hex_digit (unat c div 16)) + hex_val (hex_digit (unat c mod 16)) = unat c"
    if "c < 0x20"
    using that by (simp add: hex_val_digit)
  then have "of_nat (16 * hex_val (hex_digit (unat c div 16)) + hex_val (hex_digit (unat c mod 16))) = c"
    if "c < 0x20"
    using that by simp
  then show ?thesis by (auto simp: escape_char_def)
qed

lemma utf8_ok_EscapeYamlString [simp]: "utf8_ok (EscapeYamlString s) \<longleftrightarrow> utf8_ok s"
proof -
  have digit: "hex_digit n < 0x80" if "n < 16" for n
    using that by (auto simp: hex_digit_def word_less_nat_alt unat_word_ariths unat_of_nat)
  have "escape_char c = [c] \<or> c < 0x80 \<and> escape_char c \<noteq> [] \<and> list_all (\<lambda>c. c < 0x80) (escape_char c)" for c
  proof -
    have "unat c div 16 < 16" using unat_bound [of c] by simp
    moreover have "c < 0x80" if "c < 0x20" using that by (simp add: word_less_nat_alt)
    ultimately show ?thesis by (auto simp: escape_char_def digit)
  qed
  from utf8_ok_escape [of escape_char, OF this] show ?thesis
    by (simp add: EscapeYamlString_def utf8_ok_cut)
qed

text \<open>The bytes of the scalar give exactly the string back that was quoted, the quoted form has no
  control characters, so it stays on its line, and it is UTF-8 exactly if the string is.\<close>

theorem yaml_quote_roundtrip:
  "yaml_unquote (EscapeYamlString s) = Some s \<and> (\<forall>c \<in> set (EscapeYamlString s). 0x20 \<le> c)
   \<and> (utf8_ok (EscapeYamlString s) \<longleftrightarrow> utf8_ok s)"
proof (intro conjI)
  have "yaml_scalar (concat (map escape_char s) @ [0x22]) = Some s"
    by (induction s) (simp_all add: yaml_scalar_escape)
  then show "yaml_unquote (EscapeYamlString s) = Some s"
    by (simp add: yaml_unquote_def EscapeYamlString_def)
  have "0x20 \<le> hex_digit n" if "n < 16" for n
    using that by (auto simp: hex_digit_def word_le_nat_alt unat_word_ariths unat_of_nat)
  moreover have "unat c div 16 < 16" for c :: byte
    using unat_bound [of c] by simp
  ultimately show "\<forall>c \<in> set (EscapeYamlString s). 0x20 \<le> c"
    by (auto simp: EscapeYamlString_def escape_char_def not_less split: if_splits)
qed simp

section \<open>Reading the learned words\<close>

fun strip_prefix :: "bytes \<Rightarrow> bytes \<Rightarrow> bytes option" where
  "strip_prefix [] l = Some l"
| "strip_prefix (p # ps) [] = None"
| "strip_prefix (p # ps) (c # l) = (if p = c then strip_prefix ps l else None)"

text \<open>One line: a new word, or a field of the word at the head of the list.\<close>

definition read_word_line :: "bytes \<Rightarrow> DiscoveredWord list \<Rightarrow> DiscoveredWord list option" where
  "read_word_line l ws =
     (case strip_prefix (lit ''  - text: '') l of
        Some r \<Rightarrow> map_option (\<lambda>t. \<lparr>dw_text = t, dw_code = [], dw_frequency = 0,
                    dw_first_seen_us = 0, dw_last_seen_us = 0\<rparr> # ws) (yaml_unquote r)
      | None \<Rightarrow> case ws of [] \<Rightarrow> None | w # ws' \<Rightarrow>
      case strip_prefix (lit ''    code: '') l of
        Some r \<Rightarrow> map_option (\<lambda>c. w\<lparr>dw_code := c\<rparr> # ws') (yaml_unquote r)
      | None \<Rightarrow> case strip_prefix (lit ''    frequency: '') l of
        Some r \<Rightarrow> Some (w\<lparr>dw_frequency := of_nat (undec r)\<rparr> # ws')
      | None \<Rightarrow> case strip_prefix (lit ''    first_seen_us: '') l of
        Some r \<Rightarrow> Some (w\<lparr>dw_first_seen_us := of_nat (undec r)\<rparr> # ws')
      | None \<Rightarrow> case strip_prefix (lit ''    last_seen_us: '') l of
        Some r \<Rightarrow> Some (w\<lparr>dw_last_seen_us := of_nat (undec r)\<rparr> # ws')
      | None \<Rightarrow> None)"

definition read_word_lines :: "bytes list \<Rightarrow> DiscoveredWord list option \<Rightarrow> DiscoveredWord list option" where
  "read_word_lines ls st = fold (\<lambda>l st. Option.bind st (read_word_line l)) ls st"

definition read_learned_words :: "bytes \<Rightarrow> DiscoveredWord list option" where
  "read_learned_words s =
     (if \<not> utf8_ok s then None
      else map_option rev (read_word_lines (tl (dropWhile (\<lambda>l. l \<noteq> lit ''words:'') (getlines s))) (Some [])))"

lemma yaml_unquote_escape: "yaml_unquote (EscapeYamlString s) = Some s"
  by (simp add: yaml_unquote_def EscapeYamlString_def)
    (induction s, simp_all add: yaml_scalar_escape)

lemma read_one_word: "read_word_lines (word_lines w) (Some ws) = Some (w # ws)"
  by (cases w) (simp add: read_word_lines_def word_lines_def read_word_line_def yaml_unquote_escape)

lemma read_words: "read_word_lines (concat (map word_lines words)) (Some ws) = Some (rev words @ ws)"
  using read_one_word by (induction words arbitrary: ws) (simp_all add: read_word_lines_def)

text \<open>The file is UTF-8 exactly if the strings in it are; the time stamp is printable ASCII.\<close>

definition word_utf8 :: "DiscoveredWord \<Rightarrow> bool" where
  "word_utf8 w \<longleftrightarrow> utf8_ok (dw_text w) \<and> utf8_ok (dw_code w)"

definition stamp_ok :: "bytes \<Rightarrow> bool" where
  "stamp_ok ts \<longleftrightarrow> list_all (\<lambda>c. 0x20 \<le> c \<and> c < 0x7F) ts"

lemma stamp_newline: "stamp_ok ts \<Longrightarrow> 0x0A \<notin> set ts"
  by (auto simp: stamp_ok_def list_all_iff)

lemma stamp_utf8: "stamp_ok ts \<Longrightarrow> utf8_ok ts"
proof (rule utf8_ok_ascii)
  have "c < 0x80" if "c < 0x7F" for c :: byte using that by (simp add: word_less_nat_alt)
  then show "stamp_ok ts \<Longrightarrow> list_all (\<lambda>c. c < 0x80) ts" by (auto simp: stamp_ok_def list_all_iff)
qed

lemma utf8_ok_word_lines: "list_all utf8_ok (word_lines w) \<longleftrightarrow> word_utf8 w"
  by (auto simp: word_lines_def word_utf8_def)

lemma utf8_ok_learned_words: "stamp_ok ts \<Longrightarrow> utf8_ok (learned_words_bytes ts words) \<longleftrightarrow> list_all word_utf8 words"
  unfolding learned_words_bytes_def utf8_ok_lines
  by (simp add: stamp_utf8) (induction words, simp_all add: utf8_ok_word_lines)

lemma newline_dec: "0x0A \<notin> set (dec n)"
  using dec_digits [of "0x0A" n] by auto

lemma newline_escape: "0x0A \<notin> set (EscapeYamlString s)"
proof -
  have "0x0A \<notin> set (escape_char c)" for c
  proof -
    have "unat c < 32" if "c < 0x20" using that by (simp add: word_less_nat_alt)
    moreover have "hex_digit n \<noteq> 0x0A" if "n < 16" for n
      using that by (auto simp: hex_digit_def word_unat_eq_iff digit_word unat_word_ariths unat_of_nat)
    ultimately show ?thesis by (auto simp: escape_char_def)
  qed
  then show ?thesis by (auto simp: EscapeYamlString_def)
qed

lemma word_lines_one_line: "l \<in> set (word_lines w) \<Longrightarrow> 0x0A \<notin> set l"
  by (auto simp: word_lines_def newline_dec newline_escape split: if_splits)

lemma learned_written:
  assumes "stamp_ok ts"
  shows "if fst (Generate ev ts words out f)
    then Option.bind (snd (Generate ev ts words out f) out) read_learned_words =
        (if list_all word_utf8 words then Some words else None)
    else snd (Generate ev ts words out f) out = f out"
proof -
  have "read_learned_words (learned_words_bytes ts words) = (if list_all word_utf8 words then Some words else None)"
    unfolding read_learned_words_def utf8_ok_learned_words [OF assms]
    unfolding learned_words_bytes_def
    using stamp_newline [OF assms] word_lines_one_line
    by (subst getlines_lines [where r = "[]", simplified])
      (auto simp: newline_dec getlines_eval read_words)
  then show ?thesis
    using replace_file_result(1) [OF prod.collapse [symmetric], of ev out "learned_words_bytes ts words" f]
    by (simp add: Generate_def)
qed

text \<open>C27: After a successful \<^verbatim>\<open>Generate\<close> the file reads back as exactly the words with
  their texts, codes, frequencies and times if every text and code is UTF-8, whatever quotes,
  backslashes, newlines or control characters they contain; but a single word that is not UTF-8 makes
  the whole file unreadable, since such bytes are written as they are.  After a failure the file is
  untouched.\<close>

theorem learned_words_roundtrip:
  assumes "Generate ev ts words out f = (ok, f')" and "stamp_ok ts"
  shows "if ok
    then Option.bind (f' out) read_learned_words =
        (if list_all (\<lambda>w. utf8_ok (dw_text w) \<and> utf8_ok (dw_code w)) words then Some words else None)
    else f' out = f out"
  using learned_written [OF assms(2), of ev words out f] by (simp add: assms(1) word_utf8_def [abs_def] split: if_splits)

section \<open>Reading the RIME dictionary\<close>

fun split_tabs :: "bytes \<Rightarrow> bytes list" where
  "split_tabs [] = [[]]"
| "split_tabs (c # s) =
     (if c = 0x09 then [] # split_tabs s
      else case split_tabs s of x # xs \<Rightarrow> (c # x) # xs | [] \<Rightarrow> [[c]])"

definition rime_rows :: "bytes \<Rightarrow> bytes list list" where
  "rime_rows s = map split_tabs (filter (\<lambda>l. l \<noteq> [] \<and> hd l \<noteq> 0x23)
     (tl (dropWhile (\<lambda>l. l \<noteq> lit ''...'') (getlines s))))"

text \<open>The rows of the words that have a code and do not look like a comment.\<close>

definition word_row :: "DiscoveredWord \<Rightarrow> bytes list" where
  "word_row w = [dw_text w, dw_code w, dec (unat (dw_frequency w))]"

definition row_words :: "DiscoveredWord list \<Rightarrow> DiscoveredWord list" where
  "row_words words = filter (\<lambda>w. dw_code w \<noteq> [] \<and> take 1 (dw_text w) \<noteq> [0x23]) words"

lemma split_tabs_none: "0x09 \<notin> set s \<Longrightarrow> split_tabs s = [s]"
  by (induction s) auto

lemma split_tabs_append: "0x09 \<notin> set s \<Longrightarrow> split_tabs (s @ 0x09 # r) = s # split_tabs r"
  by (induction s) auto

text \<open>A field that RIME reads back: no tab, no newline.\<close>

definition field_ok :: "bytes \<Rightarrow> bool" where
  "field_ok s \<longleftrightarrow> 0x09 \<notin> set s \<and> 0x0A \<notin> set s"

lemma split_row:
  "field_ok (dw_text w) \<Longrightarrow> field_ok (dw_code w) \<Longrightarrow>
     split_tabs (dict_row w) = [dw_text w, dw_code w, dec (unat (dw_frequency w))]"
  using dec_digits [of "0x09"] by (auto simp: dict_row_def field_ok_def split_tabs_append intro!: split_tabs_none)

lemma newline_row: "field_ok (dw_text w) \<Longrightarrow> field_ok (dw_code w) \<Longrightarrow> 0x0A \<notin> set (dict_row w)"
  by (simp add: dict_row_def field_ok_def newline_dec)

lemma row_line: "dict_row w \<noteq> []" "hd (dict_row w) = 0x23 \<longleftrightarrow> take 1 (dw_text w) = [0x23]"
  by (cases "dw_text w"; simp add: dict_row_def)+

lemma rime_written:
  assumes "0x0A \<notin> set ts" and "0x0A \<notin> set ts'" and "0x0A \<notin> set dict_name"
    and "\<forall>w \<in> set words. dw_code w \<noteq> [] \<longrightarrow> field_ok (dw_text w) \<and> field_ok (dw_code w)"
  shows "if fst (WriteRimeDictYaml ev ts ts' words out dict_name f)
    then map_option rime_rows (snd (WriteRimeDictYaml ev ts ts' words out dict_name f) out) =
        Some (map word_row (row_words words))
    else snd (WriteRimeDictYaml ev ts ts' words out dict_name f) out = f out"
proof -
  let ?ws = "filter (\<lambda>w. dw_code w \<noteq> []) words"
  have "rime_rows (rime_dict_bytes ts ts' dict_name words)
      = map split_tabs (filter (\<lambda>l. l \<noteq> [] \<and> hd l \<noteq> 0x23) (map dict_row ?ws))"
    unfolding rime_rows_def rime_dict_bytes_def
    using assms newline_row
    by (subst getlines_lines [where r = "[]", simplified]) (auto simp: getlines_eval)
  also have "filter (\<lambda>l. l \<noteq> [] \<and> hd l \<noteq> 0x23) (map dict_row ?ws) = map dict_row (row_words words)"
    by (induction words) (simp_all add: row_words_def row_line)
  also have "map split_tabs \<dots> = map word_row (row_words words)"
    using assms(4) split_row by (auto simp: row_words_def word_row_def)
  finally show ?thesis
    using replace_file_result(1) [OF prod.collapse [symmetric], of ev out
        "rime_dict_bytes ts ts' dict_name words" f]
    by (simp add: WriteRimeDictYaml_def)
qed

text \<open>If no text or code contains a tab or a newline, RIME reads one row of text, code and
  frequency for exactly the words that have a code and do not start with \<^verbatim>\<open>#\<close>, in their
  order.\<close>

theorem rime_dict_rows:
  assumes "0x0A \<notin> set ts" and "0x0A \<notin> set ts'" and "0x0A \<notin> set dict_name"
    and "\<forall>w \<in> set words. dw_code w \<noteq> [] \<longrightarrow> field_ok (dw_text w) \<and> field_ok (dw_code w)"
    and "WriteRimeDictYaml ev ts ts' words out dict_name f = (ok, f')"
  shows "if ok
    then map_option rime_rows (f' out) = Some (map (\<lambda>w. [dw_text w, dw_code w, dec (unat (dw_frequency w))])
               (filter (\<lambda>w. dw_code w \<noteq> [] \<and> take 1 (dw_text w) \<noteq> [0x23]) words))
    else f' out = f out"
  using rime_written [OF assms(1-4), of ev out f]
  by (simp add: assms(5) word_row_def [abs_def] row_words_def split: if_splits)

text \<open>The redeploy request reports success as soon as the sentinel could be opened, also
  when the buffered time stamp then fails to reach the disk; the sentinel itself exists whenever it
  reports success, and nothing else changes.\<close>

theorem redeploy_sentinel:
  assumes "RequestRimeRedeploy mkdir_ok ev ts dir f = (ok, f')"
  shows "(ok \<longleftrightarrow> mkdir_ok \<and> fe_open ev)
    \<and> (ok \<longrightarrow> f' (join dir (lit ''redeploy_requested'')) \<noteq> None)
    \<and> (\<forall>q. q \<noteq> join dir (lit ''redeploy_requested'') \<or> \<not> ok \<longrightarrow> f' q = f q)"
  using assms by (auto simp: RequestRimeRedeploy_def Let_def split: if_splits)

definition demo_word :: DiscoveredWord where
  "demo_word = \<lparr>dw_text = [0xE5, 0xBC, 0xB9], dw_code = [120, 117], dw_frequency = 12,
     dw_first_seen_us = 1, dw_last_seen_us = 2\<rparr>"

definition no_faults :: file_events where
  "no_faults = \<lparr>fe_open = True, fe_stop = None, fe_rename = True\<rparr>"

lemma replace_no_faults: "fst (replace_file no_faults p c f)"
  by (simp add: no_faults_def replace_file_def)

text \<open>With a word of a lone lead byte in it the file cannot be read.\<close>

theorem learned_words_roundtrip_witness:
  "Option.bind (snd (Generate no_faults [50] [demo_word] [1] (\<lambda>_. None)) [1]) read_learned_words = Some [demo_word]
   \<and> Option.bind (snd (Generate no_faults [50] [demo_word, demo_word\<lparr>dw_text := [0xE5]\<rparr>] [1] (\<lambda>_. None)) [1])
       read_learned_words = None"
  using learned_words_roundtrip [OF prod.collapse [symmetric, of "Generate no_faults [50] [demo_word] [1] (\<lambda>_. None)"]]
    learned_words_roundtrip [OF prod.collapse [symmetric, of
      "Generate no_faults [50] [demo_word, demo_word\<lparr>dw_text := [0xE5]\<rparr>] [1] (\<lambda>_. None)"]]
  by (simp add: Generate_def replace_no_faults stamp_ok_def demo_word_def utf8_ok_def utf8_step_def utf8_lead_def)

theorem rime_dict_rows_witness:
  "map_option rime_rows (snd (WriteRimeDictYaml no_faults [50] [50] [demo_word] [1] [100] (\<lambda>_. None)) [1])
     = Some [[[0xE5, 0xBC, 0xB9], [120, 117], [49, 50]]]"
  using rime_dict_rows [of "[50]" "[50]" "[100]" "[demo_word]", OF _ _ _ _ prod.collapse [symmetric, of
      "WriteRimeDictYaml no_faults [50] [50] [demo_word] [1] [100] (\<lambda>_. None)"]]
  by (simp add: WriteRimeDictYaml_def replace_no_faults demo_word_def field_ok_def dec.simps)

theorem redeploy_sentinel_witness:
  "fst (RequestRimeRedeploy True \<lparr>fe_open = True, fe_stop = Some 0, fe_rename = False\<rparr> [50] [100] (\<lambda>_. None))"
  using redeploy_sentinel [OF prod.collapse [symmetric, of
      "RequestRimeRedeploy True \<lparr>fe_open = True, fe_stop = Some 0, fe_rename = False\<rparr> [50] [100] (\<lambda>_. None)"]]
  by simp

end
