(* ===== verification/Git_Sync.thy ===== *)
theory Git_Sync
  imports Files
begin

text \<open>
  The userdata synchronisation (git_sync.cc, git_sync_stub.cc).  libgit2 is a parameter, the
  record \<open>git_api\<close> of the calls the code makes, each with its return code and effect on the
  repository \<open>'g\<close>; the locale \<open>libgit2\<close> states what the calls promise.  Handles freed by the
  guards and log messages are left out; \<open>Push\<close> also returns the calls it made, because the
  property that matters is when the network is used.
\<close>

section \<open>Configuration and libgit2\<close>

record GitSyncConfig =
  gc_repo_path :: path
  gc_author_name :: bytes
  gc_author_email :: bytes
  gc_remote_name :: bytes
  gc_push_url :: bytes
  gc_push_enabled :: bool
  gc_ssh_public_key :: bytes
  gc_ssh_private_key :: bytes

definition GitSyncConfig_init :: GitSyncConfig where
  "GitSyncConfig_init =
     \<lparr>gc_repo_path = [], gc_author_name = lit ''dafeng-daemon'', gc_author_email = lit ''dafeng@localhost'',
      gc_remote_name = lit ''origin'', gc_push_url = [], gc_push_enabled = False,
      gc_ssh_public_key = [], gc_ssh_private_key = []\<rparr>"

type_synonym oid = nat

record git_commit =
  cm_tree :: oid
  cm_parents :: "oid list"
  cm_message :: bytes
  cm_author :: "bytes \<times> bytes"

definition GIT_EEXISTS :: int where "GIT_EEXISTS = - 4"
definition GIT_ENOTFOUND :: int where "GIT_ENOTFOUND = - 3"
definition GIT_PASSTHROUGH :: int where "GIT_PASSTHROUGH = - 30"

record 'g git_api =
  gi_init :: "path \<Rightarrow> 'g \<Rightarrow> int \<times> 'g"
  gi_open :: "path \<Rightarrow> 'g \<Rightarrow> int"
  gi_index :: "'g \<Rightarrow> int"
  gi_add_all :: "'g \<Rightarrow> int \<times> 'g"
  gi_index_write :: "'g \<Rightarrow> int \<times> 'g"
  gi_write_tree :: "'g \<Rightarrow> int \<times> oid \<times> 'g"
  gi_tree_lookup :: "oid \<Rightarrow> 'g \<Rightarrow> int"
  gi_signature :: "bytes \<Rightarrow> bytes \<Rightarrow> int"
  gi_head :: "'g \<Rightarrow> int \<times> oid"
  gi_commit_lookup :: "oid \<Rightarrow> 'g \<Rightarrow> int"
  gi_commit_create :: "git_commit \<Rightarrow> 'g \<Rightarrow> int \<times> 'g"
  gi_remote_lookup :: "bytes \<Rightarrow> 'g \<Rightarrow> int"
  gi_remote_create :: "bytes \<Rightarrow> bytes \<Rightarrow> 'g \<Rightarrow> int \<times> 'g"
  gi_push :: "bytes \<Rightarrow> 'g \<Rightarrow> int \<times> 'g"
  gi_status :: "'g \<Rightarrow> int \<times> nat"

section \<open>The operations\<close>

text \<open>The object: its configuration and whether \<^verbatim>\<open>repo_\<close> is set.\<close>

record LibGit2Sync =
  gs_config :: GitSyncConfig
  gs_open :: bool

definition Init :: "'g git_api \<Rightarrow> LibGit2Sync \<Rightarrow> 'g \<Rightarrow> bool \<times> LibGit2Sync \<times> 'g" where
  "Init api s g =
     (if gs_open s then (True, s, g)
      else let path = gc_repo_path (gs_config s); (rc, g1) = gi_init api path g;
               rc' = (if rc = GIT_EEXISTS then gi_open api path g1 else rc)
           in if rc' \<noteq> 0 then (False, s\<lparr>gs_open := False\<rparr>, g1) else (True, s\<lparr>gs_open := True\<rparr>, g1))"

text \<open>The body of \<^verbatim>\<open>CommitAll\<close> on an open repository.\<close>

definition commit_open :: "'g git_api \<Rightarrow> GitSyncConfig \<Rightarrow> bytes \<Rightarrow> 'g \<Rightarrow> bool \<times> 'g" where
  "commit_open api cfg message g =
     (if gi_index api g \<noteq> 0 then (False, g)
      else case gi_add_all api g of (rc, g1) \<Rightarrow> if rc \<noteq> 0 then (False, g1)
      else case gi_index_write api g1 of (rc, g2) \<Rightarrow> if rc \<noteq> 0 then (False, g2)
      else case gi_write_tree api g2 of (rc, tree, g3) \<Rightarrow> if rc \<noteq> 0 then (False, g3)
      else if gi_tree_lookup api tree g3 \<noteq> 0 then (False, g3)
      else if gi_signature api (gc_author_name cfg) (gc_author_email cfg) \<noteq> 0 then (False, g3)
      else case gi_head api g3 of (has_head, parent) \<Rightarrow>
        if has_head = 0 \<and> gi_commit_lookup api parent g3 \<noteq> 0 then (False, g3)
        else case gi_commit_create api
                    \<lparr>cm_tree = tree, cm_parents = (if has_head = 0 then [parent] else []),
                     cm_message = message, cm_author = (gc_author_name cfg, gc_author_email cfg)\<rparr> g3 of
               (rc, g4) \<Rightarrow> (rc = 0, g4))"

definition CommitAll :: "'g git_api \<Rightarrow> bytes \<Rightarrow> LibGit2Sync \<Rightarrow> 'g \<Rightarrow> bool \<times> LibGit2Sync \<times> 'g" where
  "CommitAll api message s g =
     (case Init api s g of (ok, s1, g1) \<Rightarrow>
        if \<not> ok then (False, s1, g1)
        else case commit_open api (gs_config s1) message g1 of (r, g2) \<Rightarrow> (r, s1, g2))"

datatype git_call = Remote_lookup bytes | Remote_create bytes bytes | Network_push bytes

definition refspec :: bytes where
  "refspec = lit ''refs/heads/master:refs/heads/master''"

definition Push :: "'g git_api \<Rightarrow> LibGit2Sync \<Rightarrow> 'g \<Rightarrow> bool \<times> LibGit2Sync \<times> 'g \<times> git_call list" where
  "Push api s g =
     (let cfg = gs_config s in
      if \<not> gc_push_enabled cfg then (True, s, g, [])
      else if gc_push_url cfg = [] then (True, s, g, [])
      else case Init api s g of (ok, s1, g1) \<Rightarrow>
        if \<not> ok then (False, s1, g1, [])
        else let rc = gi_remote_lookup api (gc_remote_name cfg) g1;
                 (rc', g2, calls) =
                   (if rc = GIT_ENOTFOUND
                    then case gi_remote_create api (gc_remote_name cfg) (gc_push_url cfg) g1 of
                      (rc1, g2) \<Rightarrow> (rc1, g2, [Remote_lookup (gc_remote_name cfg),
                                     Remote_create (gc_remote_name cfg) (gc_push_url cfg)])
                    else (rc, g1, [Remote_lookup (gc_remote_name cfg)]))
             in if rc' \<noteq> 0 then (False, s1, g2, calls)
                else case gi_push api refspec g2 of
                  (rc2, g3) \<Rightarrow> (rc2 = 0, s1, g3, calls @ [Network_push refspec]))"

definition HasChanges :: "'g git_api \<Rightarrow> LibGit2Sync \<Rightarrow> 'g \<Rightarrow> bool \<times> LibGit2Sync \<times> 'g" where
  "HasChanges api s g =
     (case Init api s g of (ok, s1, g1) \<Rightarrow>
        if \<not> ok then (False, s1, g1)
        else case gi_status api g1 of (rc, n) \<Rightarrow>
          if rc \<noteq> 0 then (False, s1, g1) else (n > 0, s1, g1))"

text \<open>The credentials callback: \<open>None\<close> passes through, \<open>Some\<close> are the arguments for the SSH key.\<close>

definition CredentialsCallback ::
  "bytes option \<Rightarrow> bool \<Rightarrow> (bytes \<times> bytes) option \<Rightarrow> (bytes \<times> bytes option \<times> bytes) option" where
  "CredentialsCallback user_from_url allows_ssh_key ctx =
     (if \<not> allows_ssh_key then None
      else case ctx of None \<Rightarrow> None | Some (pub_key, priv_key) \<Rightarrow>
        if priv_key = [] then None
        else Some ((case user_from_url of None \<Rightarrow> lit ''git'' | Some u \<Rightarrow> u),
                   (if pub_key = [] then None else Some pub_key), priv_key))"

definition MakeGitSync :: "GitSyncConfig \<Rightarrow> LibGit2Sync option" where
  "MakeGitSync config =
     (if gc_repo_path config = [] then None else Some \<lparr>gs_config = config, gs_open = False\<rparr>)"

definition MakeGitSync_stub :: "GitSyncConfig \<Rightarrow> LibGit2Sync option" where
  "MakeGitSync_stub config = None"

section \<open>Initialising the library\<close>

text \<open>\<^verbatim>\<open>Libgit2Lifecycle\<close>: the shared reference count, and whether libgit2 is initialised.\<close>

record lifecycle =
  lc_refs :: int
  lc_ready :: bool

definition lifecycle_ctor :: "lifecycle \<Rightarrow> lifecycle" where
  "lifecycle_ctor l =
     (let l1 = (if lc_refs l = 0 then l\<lparr>lc_ready := True\<rparr> else l) in l1\<lparr>lc_refs := lc_refs l + 1\<rparr>)"

definition lifecycle_dtor :: "lifecycle \<Rightarrow> lifecycle" where
  "lifecycle_dtor l =
     (let l1 = l\<lparr>lc_refs := lc_refs l - 1\<rparr> in if lc_refs l1 = 0 then l1\<lparr>lc_ready := False\<rparr> else l1)"

definition lifecycle_start :: lifecycle where
  "lifecycle_start = \<lparr>lc_refs = 0, lc_ready = False\<rparr>"

text \<open>Objects come and go; \<open>n\<close> of them live.\<close>

inductive lifecycle_run :: "nat \<Rightarrow> lifecycle \<Rightarrow> bool" where
  start: "lifecycle_run 0 lifecycle_start"
| construct: "lifecycle_run n l \<Longrightarrow> lifecycle_run (Suc n) (lifecycle_ctor l)"
| destruct: "lifecycle_run (Suc n) l \<Longrightarrow> lifecycle_run n (lifecycle_dtor l)"

text \<open>In every order in which the synchronisation objects are created and destroyed the
  reference count is the number of living objects, and libgit2 is initialised exactly while there
  is one.\<close>

theorem lifecycle_ready_iff_alive:
  assumes "lifecycle_run n l"
  shows "lc_refs l = int n \<and> (lc_ready l \<longleftrightarrow> n > 0)"
  using assms
  by (induction rule: lifecycle_run.induct)
    (auto simp: lifecycle_start_def lifecycle_ctor_def lifecycle_dtor_def Let_def)

theorem lifecycle_ready_iff_alive_witness:
  "lc_ready (lifecycle_ctor lifecycle_start)"
  using lifecycle_ready_iff_alive [OF lifecycle_run.construct [OF lifecycle_run.start]] by simp

section \<open>When the network is used\<close>

text \<open>Only \<^verbatim>\<open>Push\<close> with pushing enabled and a push URL configured talks to a
  remote, and then only for the one fixed branch; otherwise it reports success and changes nothing.\<close>

theorem push_only_if_enabled:
  assumes "Push api s g = (ok, s', g', calls)"
  shows "(calls \<noteq> [] \<longrightarrow> gc_push_enabled (gs_config s) \<and> gc_push_url (gs_config s) \<noteq> [])
     \<and> (\<forall>r. Network_push r \<in> set calls \<longrightarrow> r = refspec)
     \<and> (\<not> gc_push_enabled (gs_config s) \<or> gc_push_url (gs_config s) = [] \<longrightarrow> ok \<and> s' = s \<and> g' = g)"
  using assms by (auto simp: Push_def Let_def split: prod.splits if_splits)

section \<open>What libgit2 promises\<close>

text \<open>That \<^verbatim>\<open>git_reference_name_to_id\<close> of HEAD finds a head that exists is part of the
  promise; a read error in it would look to the code like an empty repository.\<close>

locale libgit2 =
  fixes api :: "'g git_api" and log :: "'g \<Rightarrow> (oid \<times> git_commit) list"
    and work :: "'g \<Rightarrow> oid" and staged :: "'g \<Rightarrow> oid"
  assumes init_keeps: "gi_init api p g = (rc, g') \<Longrightarrow> log g' = log g \<and> work g' = work g"
    and add_all: "gi_add_all api g = (rc, g') \<Longrightarrow>
      log g' = log g \<and> work g' = work g \<and> (rc = 0 \<longrightarrow> staged g' = work g)"
    and index_write: "gi_index_write api g = (rc, g') \<Longrightarrow>
      log g' = log g \<and> work g' = work g \<and> staged g' = staged g"
    and write_tree: "gi_write_tree api g = (rc, t, g') \<Longrightarrow>
      log g' = log g \<and> work g' = work g \<and> (rc = 0 \<longrightarrow> t = staged g)"
    and head: "gi_head api g = (rc, parent) \<Longrightarrow>
      (if log g = [] then rc \<noteq> 0 else rc = 0 \<and> parent = fst (last (log g)))"
    and create: "gi_commit_create api c g = (rc, g') \<Longrightarrow>
      work g' = work g \<and> (if rc = 0 then \<exists>i. log g' = log g @ [(i, c)] else log g' = log g)"
begin

lemma Init_keeps: "Init api s g = (ok, s', g') \<Longrightarrow> log g' = log g \<and> work g' = work g \<and> gs_config s' = gs_config s"
  using init_keeps by (auto simp: Init_def Let_def split: if_splits prod.splits)

lemma commit_open_log:
  assumes "commit_open api cfg message g = (ok, g')"
  shows "work g' = work g \<and>
    (if ok then \<exists>i. log g' = log g @ [(i, \<lparr>cm_tree = work g,
         cm_parents = (if log g = [] then [] else [fst (last (log g))]), cm_message = message,
         cm_author = (gc_author_name cfg, gc_author_email cfg)\<rparr>)]
     else log g' = log g)"
proof -
  obtain rc1 g1 where a: "gi_add_all api g = (rc1, g1)" by fastforce
  obtain rc2 g2 where w: "gi_index_write api g1 = (rc2, g2)" by fastforce
  obtain rc3 t g3 where t: "gi_write_tree api g2 = (rc3, t, g3)" by (metis prod_cases3)
  obtain rc4 p where h: "gi_head api g3 = (rc4, p)" by fastforce
  obtain rc5 g4 where c: "gi_commit_create api
      \<lparr>cm_tree = t, cm_parents = (if rc4 = 0 then [p] else []), cm_message = message,
       cm_author = (gc_author_name cfg, gc_author_email cfg)\<rparr> g3 = (rc5, g4)" by fastforce
  show ?thesis
    using assms add_all [OF a] index_write [OF w] write_tree [OF t] head [OF h] create [OF c] c
    by (cases "rc4 = 0"; cases "log g = []") (auto simp: commit_open_def a w t h split: if_splits)
qed

end

section \<open>Commits\<close>

text \<open>C35: A successful \<^verbatim>\<open>CommitAll\<close> adds exactly one commit, of the whole working tree,
  whose only parent is the previous head (none for the first commit); a failed one adds none, and
  neither touches the working tree.  So a second call without any change adds another commit of the
  same tree.\<close>

theorem commit_all_appends:
  assumes "libgit2 api log work staged" and "CommitAll api message s g = (ok, s', g')"
  shows "work g' = work g \<and>
    (if ok then \<exists>i. log g' = log g @ [(i, \<lparr>cm_tree = work g,
         cm_parents = (if log g = [] then [] else [fst (last (log g))]), cm_message = message,
         cm_author = (gc_author_name (gs_config s), gc_author_email (gs_config s))\<rparr>)]
     else log g' = log g)
    \<and> (ok \<longrightarrow> (\<forall>s2 g2. CommitAll api message s' g' = (True, s2, g2) \<longrightarrow>
          length (log g2) = length (log g) + 2
          \<and> cm_tree (snd (last (log g2))) = cm_tree (snd (last (log g')))))"
proof -
  have step: "work g1 = work g0 \<and>
    (if r then \<exists>i. log g1 = log g0 @ [(i, \<lparr>cm_tree = work g0,
         cm_parents = (if log g0 = [] then [] else [fst (last (log g0))]), cm_message = message,
         cm_author = (gc_author_name (gs_config s0), gc_author_email (gs_config s0))\<rparr>)]
     else log g1 = log g0)"
    if c: "CommitAll api message s0 g0 = (r, s1, g1)" for s0 g0 r s1 g1
  proof -
    obtain ok1 s2 g2 where i: "Init api s0 g0 = (ok1, s2, g2)" by (metis prod_cases3)
    note keeps = libgit2.Init_keeps [OF assms(1) i]
    show ?thesis
      using c keeps libgit2.commit_open_log [OF assms(1), of "gs_config s0" message g2]
      by (auto simp: CommitAll_def i split: prod.splits if_splits)
  qed
  show ?thesis
    using step [OF assms(2)] step [of s' g'] by fastforce
qed

section \<open>A repository in memory\<close>

record mem_git =
  mg_log :: "(oid \<times> git_commit) list"
  mg_work :: oid
  mg_staged :: oid

definition mem_git_api :: "mem_git git_api" where
  "mem_git_api =
     \<lparr>gi_init = \<lambda>p g. (0, g), gi_open = \<lambda>p g. 0, gi_index = \<lambda>g. 0,
      gi_add_all = \<lambda>g. (0, g\<lparr>mg_staged := mg_work g\<rparr>),
      gi_index_write = \<lambda>g. (0, g),
      gi_write_tree = \<lambda>g. (0, mg_staged g, g),
      gi_tree_lookup = \<lambda>t g. 0, gi_signature = \<lambda>n e. 0,
      gi_head = \<lambda>g. (if mg_log g = [] then (GIT_ENOTFOUND, 0) else (0, fst (last (mg_log g)))),
      gi_commit_lookup = \<lambda>i g. 0,
      gi_commit_create = \<lambda>c g. (0, g\<lparr>mg_log := mg_log g @ [(length (mg_log g), c)]\<rparr>),
      gi_remote_lookup = \<lambda>n g. 0, gi_remote_create = \<lambda>n u g. (0, g), gi_push = \<lambda>r g. (0, g),
      gi_status = \<lambda>g. (0, if mg_log g \<noteq> [] \<and> cm_tree (snd (last (mg_log g))) = mg_work g then 0 else 1)\<rparr>"

interpretation memgit: libgit2 mem_git_api mg_log mg_work mg_staged
  by unfold_locales (auto simp: mem_git_api_def GIT_ENOTFOUND_def split: if_splits)

definition demo_sync :: LibGit2Sync where
  "demo_sync = \<lparr>gs_config = GitSyncConfig_init\<lparr>gc_repo_path := [1]\<rparr>, gs_open = False\<rparr>"

theorem commit_all_appends_witness:
  "\<exists>i c. mg_log (snd (snd (CommitAll mem_git_api [109] demo_sync \<lparr>mg_log = [], mg_work = 7, mg_staged = 0\<rparr>)))
     = [(i, c)] \<and> cm_tree c = 7"
proof -
  let ?g = "\<lparr>mg_log = [], mg_work = 7, mg_staged = 0\<rparr>"
  have ok: "CommitAll mem_git_api [109] demo_sync ?g
      = (True, snd (CommitAll mem_git_api [109] demo_sync ?g))"
    by (simp add: CommitAll_def Init_def commit_open_def mem_git_api_def demo_sync_def GIT_EEXISTS_def
        GIT_ENOTFOUND_def Let_def)
  then have run: "CommitAll mem_git_api [109] demo_sync ?g
      = (True, fst (snd (CommitAll mem_git_api [109] demo_sync ?g)),
          snd (snd (CommitAll mem_git_api [109] demo_sync ?g)))"
    by simp
  show ?thesis
    using commit_all_appends [OF memgit.libgit2_axioms run] by auto
qed

lemma demo_sync_off: "\<not> gc_push_enabled (gs_config demo_sync)" "\<not> gs_open demo_sync"
  by (simp_all add: demo_sync_def GitSyncConfig_init_def)

theorem push_only_if_enabled_witness:
  "fst (Push mem_git_api demo_sync \<lparr>mg_log = [], mg_work = 7, mg_staged = 0\<rparr>)
   \<and> gs_open (fst (snd (Push mem_git_api demo_sync \<lparr>mg_log = [], mg_work = 7, mg_staged = 0\<rparr>))) = False"
proof -
  obtain ok s' g' calls where p:
    "Push mem_git_api demo_sync \<lparr>mg_log = [], mg_work = 7, mg_staged = 0\<rparr> = (ok, s', g', calls)"
    by (metis prod_cases4)
  show ?thesis
    using push_only_if_enabled [OF p] demo_sync_off by (simp add: p)
qed

end
