(* ===== verification/Learning_Round.thy ===== *)
theory Learning_Round
  imports Ngram_History New_Word_Correct Wubi_Codec User_Dict Git_Sync
begin

text \<open>
  The learning round (learning_round.cc): the order of the passes over the history, the
  re-encoding of the discovered words, the files and the commit.  What the outside answers is the
  record \<open>round_env\<close>: the history store's answers (constant during the round), the sorting
  algorithms, the outcomes of the file operations and the time stamps.
\<close>

section \<open>Data\<close>

record LearningRoundConfig =
  lc_data_dir :: path
  lc_rime_user_dir :: path
  lc_wubi_dict_path :: path
  lc_min_new_word_freq :: u32
  lc_scan_max_entries :: u64
  lc_ngram_scan_max_entries :: u64
  lc_include_bigrams :: bool
  lc_include_trigrams :: bool
  lc_commit_to_git :: bool
  lc_push_to_remote :: bool

definition LearningRoundConfig_init :: LearningRoundConfig where
  "LearningRoundConfig_init =
     \<lparr>lc_data_dir = [], lc_rime_user_dir = [], lc_wubi_dict_path = [], lc_min_new_word_freq = 3,
      lc_scan_max_entries = 5000, lc_ngram_scan_max_entries = 5000, lc_include_bigrams = True,
      lc_include_trigrams = True, lc_commit_to_git = True, lc_push_to_remote = False\<rparr>"

record LearningRoundResult =
  lr_ok :: bool
  lr_entries_scanned :: u64
  lr_bigram_increments :: u64
  lr_words_discovered :: u64
  lr_wrote_user_dict :: bool
  lr_wrote_ngram :: bool
  lr_requested_redeploy :: bool
  lr_committed :: bool
  lr_pushed :: bool

record round_env =
  re_recent :: "u64 \<Rightarrow> HistoryEntry list"
  re_count :: u64
  re_sort :: "HistoryEntry list \<Rightarrow> HistoryEntry list"
  re_sort_words :: "DiscoveredWord list \<Rightarrow> DiscoveredWord list"
  re_dict_events :: file_events
  re_ngram_events :: file_events
  re_rime_events :: file_events
  re_sentinel_mkdir :: bool
  re_sentinel_events :: file_events
  re_time :: "nat \<Rightarrow> bytes"

text \<open>
  What the round leaves behind.  The file system holds regular files: that \<^verbatim>\<open>create_directories\<close>
  makes the directory \<^verbatim>\<open>userdata\<close> is not in it, and a failure of it shows in the opening of the
  files.  The repository \<^verbatim>\<open>userdata/.git\<close> is not part of \<open>rd_fs\<close> but of \<open>rd_git\<close>.
\<close>

record 'g round_state =
  rd_fs :: fs
  rd_ngram :: NgramTable
  rd_git :: 'g
  rd_calls :: "git_call list"

section \<open>Paths\<close>

definition userdata :: "LearningRoundConfig \<Rightarrow> path" where
  "userdata cfg = join (lc_data_dir cfg) (lit ''userdata'')"

definition learned_words_path :: "LearningRoundConfig \<Rightarrow> path" where
  "learned_words_path cfg = join (userdata cfg) (lit ''learned_words.yaml'')"

definition ngram_path :: "LearningRoundConfig \<Rightarrow> path" where
  "ngram_path cfg = join (userdata cfg) (lit ''personal_ngram.bin'')"

definition rime_dict_path :: "LearningRoundConfig \<Rightarrow> path" where
  "rime_dict_path cfg = join (lc_rime_user_dir cfg) (lit ''dafeng_learned.dict.yaml'')"

section \<open>The steps\<close>

definition discovery_config :: "LearningRoundConfig \<Rightarrow> DiscoveryConfig" where
  "discovery_config cfg = DiscoveryConfig_init
     \<lparr>dc_min_frequency := lc_min_new_word_freq cfg, dc_scan_max_entries := lc_scan_max_entries cfg,
      dc_include_bigrams := lc_include_bigrams cfg, dc_include_trigrams := lc_include_trigrams cfg\<rparr>"

definition encode_word :: "WubiCodec \<Rightarrow> DiscoveredWord \<Rightarrow> DiscoveredWord" where
  "encode_word codec w =
     (let canonical = EncodePhrase codec (dw_text w) in
      if canonical \<noteq> [] then w\<lparr>dw_code := canonical\<rparr> else w)"

definition encode_words :: "LearningRoundConfig \<Rightarrow> fs \<Rightarrow> DiscoveredWord list \<Rightarrow> DiscoveredWord list" where
  "encode_words cfg f words =
     (if lc_wubi_dict_path cfg = [] then words
      else case LoadFromDict (lc_wubi_dict_path cfg) f of
        (ok, codec) \<Rightarrow> if ok then map (encode_word codec) words else words)"

definition round_words :: "round_env \<Rightarrow> LearningRoundConfig \<Rightarrow> fs \<Rightarrow> DiscoveredWord list" where
  "round_words env cfg f =
     encode_words cfg f
       (Discover (re_sort env) (re_sort_words env) (re_recent env (lc_scan_max_entries cfg))
          (discovery_config cfg))"

text \<open>Step 5: the result is (committed, pushed).\<close>

definition git_step ::
  "'g git_api \<Rightarrow> LearningRoundConfig \<Rightarrow> LibGit2Sync option \<Rightarrow> 'g \<Rightarrow> (bool \<times> bool) \<times> 'g \<times> git_call list" where
  "git_step api cfg sync g =
     (case sync of
        None \<Rightarrow> ((False, False), g, [])
      | Some s \<Rightarrow>
          if \<not> lc_commit_to_git cfg then ((False, False), g, [])
          else case Init api s g of (ok, s1, g1) \<Rightarrow>
            if \<not> ok then ((False, False), g1, [])
            else case CommitAll api (lit ''dafeng-daemon: learning round'') s1 g1 of (ok2, s2, g2) \<Rightarrow>
              if \<not> ok2 then ((False, False), g2, [])
              else if \<not> lc_push_to_remote cfg then ((True, False), g2, [])
              else case Push api s2 g2 of (ok3, s3, g3, calls) \<Rightarrow> ((True, ok3), g3, calls))"

definition RunLearningRound ::
  "round_env \<Rightarrow> 'g git_api \<Rightarrow> LibGit2Sync option \<Rightarrow> LearningRoundConfig \<Rightarrow> fs \<Rightarrow> NgramTable \<Rightarrow> 'g
     \<Rightarrow> LearningRoundResult \<times> 'g round_state" where
  "RunLearningRound env api sync cfg f ngram g =
     (let (increments, ngram') = UpdateBigramsFromHistory IncrementBigram (re_sort env)
                                   (re_recent env (lc_ngram_scan_max_entries cfg)) ngram;
          words = round_words env cfg f;
          (wrote_dict, f1) = Generate (re_dict_events env) (re_time env 0) words (learned_words_path cfg) f;
          (wrote_ngram, f2) = Save (re_ngram_events env) (ngram_path cfg) ngram' f1;
          f3 = (if lc_rime_user_dir cfg = [] then f2
                else snd (WriteRimeDictYaml (re_rime_events env) (re_time env 1) (re_time env 2) words
                            (rime_dict_path cfg) (lit ''dafeng_learned'') f2));
          (redeploy, f4) = RequestRimeRedeploy (re_sentinel_mkdir env) (re_sentinel_events env)
                             (re_time env 3) (lc_data_dir cfg) f3;
          ((committed, pushed), g', calls) = git_step api cfg sync g
      in (\<lparr>lr_ok = wrote_dict \<and> wrote_ngram, lr_entries_scanned = re_count env,
           lr_bigram_increments = increments, lr_words_discovered = of_nat (length words),
           lr_wrote_user_dict = wrote_dict, lr_wrote_ngram = wrote_ngram,
           lr_requested_redeploy = redeploy, lr_committed = committed, lr_pushed = pushed\<rparr>,
          \<lparr>rd_fs = f4, rd_ngram = ngram', rd_git = g', rd_calls = calls\<rparr>))"

section \<open>The parts of a round\<close>

text \<open>The table after the round, and the file system after each of the four writes.\<close>

definition round_ngram :: "round_env \<Rightarrow> LearningRoundConfig \<Rightarrow> NgramTable \<Rightarrow> u64 \<times> NgramTable" where
  "round_ngram env cfg ngram =
     UpdateBigramsFromHistory IncrementBigram (re_sort env) (re_recent env (lc_ngram_scan_max_entries cfg)) ngram"

definition write_words :: "round_env \<Rightarrow> LearningRoundConfig \<Rightarrow> fs \<Rightarrow> bool \<times> fs" where
  "write_words env cfg f =
     Generate (re_dict_events env) (re_time env 0) (round_words env cfg f) (learned_words_path cfg) f"

definition write_ngram :: "round_env \<Rightarrow> LearningRoundConfig \<Rightarrow> NgramTable \<Rightarrow> fs \<Rightarrow> bool \<times> fs" where
  "write_ngram env cfg ngram f =
     Save (re_ngram_events env) (ngram_path cfg) (snd (round_ngram env cfg ngram)) (snd (write_words env cfg f))"

definition write_rime :: "round_env \<Rightarrow> LearningRoundConfig \<Rightarrow> NgramTable \<Rightarrow> fs \<Rightarrow> bool \<times> fs" where
  "write_rime env cfg ngram f =
     (if lc_rime_user_dir cfg = [] then (False, snd (write_ngram env cfg ngram f))
      else WriteRimeDictYaml (re_rime_events env) (re_time env 1) (re_time env 2) (round_words env cfg f)
             (rime_dict_path cfg) (lit ''dafeng_learned'') (snd (write_ngram env cfg ngram f)))"

definition write_sentinel :: "round_env \<Rightarrow> LearningRoundConfig \<Rightarrow> NgramTable \<Rightarrow> fs \<Rightarrow> bool \<times> fs" where
  "write_sentinel env cfg ngram f =
     RequestRimeRedeploy (re_sentinel_mkdir env) (re_sentinel_events env) (re_time env 3) (lc_data_dir cfg)
       (snd (write_rime env cfg ngram f))"

lemma round_eq:
  "RunLearningRound env api sync cfg f ngram g =
     (\<lparr>lr_ok = fst (write_words env cfg f) \<and> fst (write_ngram env cfg ngram f),
        lr_entries_scanned = re_count env, lr_bigram_increments = fst (round_ngram env cfg ngram),
        lr_words_discovered = of_nat (length (round_words env cfg f)),
        lr_wrote_user_dict = fst (write_words env cfg f), lr_wrote_ngram = fst (write_ngram env cfg ngram f),
        lr_requested_redeploy = fst (write_sentinel env cfg ngram f),
        lr_committed = fst (fst (git_step api cfg sync g)), lr_pushed = snd (fst (git_step api cfg sync g))\<rparr>,
      \<lparr>rd_fs = snd (write_sentinel env cfg ngram f), rd_ngram = snd (round_ngram env cfg ngram),
        rd_git = fst (snd (git_step api cfg sync g)), rd_calls = snd (snd (git_step api cfg sync g))\<rparr>)"
  unfolding RunLearningRound_def write_sentinel_def write_rime_def write_ngram_def write_words_def
    round_ngram_def Let_def case_prod_beta
  by (simp del: lit_simps)

section \<open>The network\<close>

lemma git_step_calls:
  assumes "git_step api cfg (Some s) g = ((committed, pushed), g', calls)"
  shows "(calls \<noteq> [] \<longrightarrow> lc_commit_to_git cfg \<and> lc_push_to_remote cfg
      \<and> gc_push_enabled (gs_config s) \<and> gc_push_url (gs_config s) \<noteq> [])
    \<and> (pushed \<longrightarrow> committed \<and> lc_push_to_remote cfg)
    \<and> (lc_push_to_remote cfg \<and> \<not> gc_push_enabled (gs_config s) \<longrightarrow> pushed = committed \<and> calls = [])"
proof -
  obtain ok1 s1 g1 where i: "Init api s g = (ok1, s1, g1)" by (metis prod_cases3)
  have s1: "gs_config s1 = gs_config s"
    using i by (auto simp: Init_def Let_def split: prod.splits if_splits)
  obtain ok2 s2 g2 where c: "CommitAll api (lit ''dafeng-daemon: learning round'') s1 g1 = (ok2, s2, g2)"
    by (metis prod_cases3)
  have s2: "gs_config s2 = gs_config s1"
    using c by (auto simp: CommitAll_def Init_def Let_def split: prod.splits if_splits)
  obtain ok3 s3 g3 calls3 where p: "Push api s2 g2 = (ok3, s3, g3, calls3)" by (metis prod_cases4)
  show ?thesis
  proof (cases "lc_commit_to_git cfg \<and> ok1 \<and> ok2 \<and> lc_push_to_remote cfg")
    case True
    then have "committed \<and> pushed = ok3 \<and> calls = calls3"
      using assms by (simp add: git_step_def i c p del: lit_simps)
    then show ?thesis using True push_only_if_enabled [OF p] s1 s2 by auto
  next
    case False
    then have "\<not> pushed \<and> calls = [] \<and> (lc_push_to_remote cfg \<longrightarrow> \<not> committed)"
      using assms by (auto simp: git_step_def i c simp del: lit_simps split: if_splits)
    then show ?thesis by auto
  qed
qed

text \<open>C34: A learning round calls a remote only if committing, pushing, the synchronisation's own
  switch and a URL are all set; \<^verbatim>\<open>pushed\<close> needs \<^verbatim>\<open>committed\<close>, but with the
  synchronisation's switch off a requested push is reported as done although nothing was sent.\<close>

theorem round_network_opt_in:
  assumes "RunLearningRound env api sync cfg f ngram g = (r, st)"
  shows "(rd_calls st \<noteq> [] \<longrightarrow> lc_commit_to_git cfg \<and> lc_push_to_remote cfg
      \<and> (\<exists>s. sync = Some s \<and> gc_push_enabled (gs_config s) \<and> gc_push_url (gs_config s) \<noteq> []))
    \<and> (lr_pushed r \<longrightarrow> lr_committed r \<and> lc_push_to_remote cfg)
    \<and> (\<forall>s. sync = Some s \<and> \<not> gc_push_enabled (gs_config s) \<and> lc_push_to_remote cfg \<longrightarrow>
         lr_pushed r = lr_committed r \<and> rd_calls st = [])"
proof -
  obtain committed pushed g' calls where gs: "git_step api cfg sync g = ((committed, pushed), g', calls)"
    by (metis surj_pair)
  have r: "lr_committed r = committed" "lr_pushed r = pushed" "rd_calls st = calls"
    using assms by (auto simp: round_eq gs)
  show ?thesis
  proof (cases sync)
    case None
    then have "\<not> pushed \<and> calls = []" using gs by (auto simp: git_step_def)
    with None r show ?thesis by simp
  next
    case (Some s)
    show ?thesis
      using git_step_calls [OF gs [unfolded Some]] unfolding Some r option.inject by blast
  qed
qed

section \<open>The files\<close>

lemma path_ends:
  "join p (lit ''learned_words.yaml'') \<noteq> join q (lit ''personal_ngram.bin'')"
  "join p (lit ''learned_words.yaml'') \<noteq> join q (lit ''dafeng_learned.dict.yaml'')"
  "join p (lit ''personal_ngram.bin'') \<noteq> join q (lit ''dafeng_learned.dict.yaml'')"
  "join p (lit ''learned_words.yaml'') \<noteq> join q (lit ''redeploy_requested'')"
  "join p (lit ''personal_ngram.bin'') \<noteq> join q (lit ''redeploy_requested'')"
  "join p (lit ''learned_words.yaml'') \<noteq> tmp_path q"
  "join p (lit ''personal_ngram.bin'') \<noteq> tmp_path q"
  unfolding join_def tmp_path_def by (subst rev_is_rev_conv [symmetric]; simp)+

text \<open>The paths a round may write.\<close>

definition round_paths :: "LearningRoundConfig \<Rightarrow> path set" where
  "round_paths cfg =
     {learned_words_path cfg, tmp_path (learned_words_path cfg), ngram_path cfg, tmp_path (ngram_path cfg),
      join (lc_data_dir cfg) (lit ''redeploy_requested'')}
     \<union> (if lc_rime_user_dir cfg = [] then {} else {rime_dict_path cfg, tmp_path (rime_dict_path cfg)})"

lemma write_rime_other:
  "q \<noteq> rime_dict_path cfg \<and> q \<noteq> tmp_path (rime_dict_path cfg) \<or> lc_rime_user_dir cfg = [] \<Longrightarrow>
     snd (write_rime env cfg ngram f) q = snd (write_ngram env cfg ngram f) q"
  by (auto simp: write_rime_def WriteRimeDictYaml_def replace_file_result(2) [OF prod.collapse [symmetric]])

lemma write_sentinel_other:
  "q \<noteq> join (lc_data_dir cfg) (lit ''redeploy_requested'') \<Longrightarrow>
     snd (write_sentinel env cfg ngram f) q = snd (write_rime env cfg ngram f) q"
  by (simp add: write_sentinel_def RequestRimeRedeploy_def Let_def)

lemma write_ngram_other:
  "q \<noteq> ngram_path cfg \<Longrightarrow> q \<noteq> tmp_path (ngram_path cfg) \<Longrightarrow>
     snd (write_ngram env cfg ngram f) q = snd (write_words env cfg f) q"
  by (simp add: write_ngram_def Save_def replace_file_result(2) [OF prod.collapse [symmetric]])

lemma write_words_other:
  "q \<noteq> learned_words_path cfg \<Longrightarrow> q \<noteq> tmp_path (learned_words_path cfg) \<Longrightarrow>
     snd (write_words env cfg f) q = f q"
  by (simp add: write_words_def Generate_def replace_file_result(2) [OF prod.collapse [symmetric]])

lemma final_words:
  "snd (write_sentinel env cfg ngram f) (learned_words_path cfg) = snd (write_words env cfg f) (learned_words_path cfg)"
  unfolding learned_words_path_def
  by (simp add: write_sentinel_other write_rime_other write_ngram_other path_ends rime_dict_path_def
      ngram_path_def del: lit_simps)

lemma final_ngram:
  "snd (write_sentinel env cfg ngram f) (ngram_path cfg) = snd (write_ngram env cfg ngram f) (ngram_path cfg)"
  unfolding ngram_path_def
  by (simp add: write_sentinel_other write_rime_other path_ends rime_dict_path_def del: lit_simps)

end
