(* ===== verification/Shell.thy ===== *)
theory Shell
  imports Dafeng_Prelude
begin

text \<open>
  Command lines handed to \<^verbatim>\<open>std::system\<close>.  \<open>sh_word\<close> reads one word as the POSIX
  shell does, for words made of plain characters, single-quoted parts and backslash escapes; it
  gives up on everything the shell would expand or treat as an operator.  \<open>ShellQuote\<close> is the
  quoting of auto_learn.cc.
\<close>

definition plain_char :: "byte \<Rightarrow> bool" where
  "plain_char c \<longleftrightarrow>
     (0x61 \<le> c \<and> c \<le> 0x7A) \<or> (0x41 \<le> c \<and> c \<le> 0x5A) \<or> (0x30 \<le> c \<and> c \<le> 0x39)
     \<or> c = 0x2D \<or> c = 0x5F \<or> c = 0x2E \<or> c = 0x2F \<or> c = 0x3D"

text \<open>The word and the rest of the line, which is empty or starts with a blank.\<close>

fun sh_word :: "bytes \<Rightarrow> (bytes \<times> bytes) option" and sh_quoted :: "bytes \<Rightarrow> (bytes \<times> bytes) option" where
  "sh_word [] = Some ([], [])"
| "sh_word (c # s) =
     (if c = 0x20 then Some ([], c # s)
      else if c = 0x27 then sh_quoted s
      else if c = 0x5C then (case s of [] \<Rightarrow> None | d # r \<Rightarrow> map_option (apfst (Cons d)) (sh_word r))
      else if plain_char c then map_option (apfst (Cons c)) (sh_word s)
      else None)"
| "sh_quoted [] = None"
| "sh_quoted (c # s) = (if c = 0x27 then sh_word s else map_option (apfst (Cons c)) (sh_quoted s))"

definition quote_char :: "byte \<Rightarrow> bytes" where
  "quote_char c = (if c = 0x27 then [0x27, 0x5C, 0x27, 0x27] else [c])"

definition ShellQuote :: "bytes \<Rightarrow> bytes" where
  "ShellQuote s = [0x27] @ concat (map quote_char s) @ [0x27]"

lemma sh_quoted_char: "sh_quoted (quote_char c @ s) = map_option (apfst (Cons c)) (sh_quoted s)"
  by (simp add: quote_char_def)

lemma sh_quoted_chars:
  "sh_quoted (concat (map quote_char s) @ 0x27 # r) = map_option (apfst ((@) s)) (sh_word r)"
  by (cases "sh_word r"; induction s) (auto simp: sh_quoted_char)

lemma sh_word_ShellQuote: "sh_word (ShellQuote s @ r) = map_option (apfst ((@) s)) (sh_word r)"
  by (simp add: ShellQuote_def sh_quoted_chars)

lemma sh_word_plain:
  "list_all plain_char p \<Longrightarrow> sh_word (p @ s) = map_option (apfst ((@) p)) (sh_word s)"
proof (induction p)
  case (Cons c p)
  then have "c \<noteq> 0x20" "c \<noteq> 0x27" "c \<noteq> 0x5C" by (auto simp: plain_char_def)
  with Cons show ?case by (cases "sh_word s") auto
qed (cases "sh_word s"; auto)

lemma sh_word_blank [simp]: "sh_word (0x20 # r) = Some ([], 0x20 # r)"
  by simp

text \<open>What goes wrong without quoting: a text between two quotes is closed by a quote in it.\<close>

lemma sh_quoted_plain:
  "0x27 \<notin> set s \<Longrightarrow> sh_quoted (s @ 0x27 # r) = map_option (apfst ((@) s)) (sh_word r)"
  by (cases "sh_word r"; induction s) auto

end
