(* ===== verification/Auto_Learn.thy ===== *)
theory Auto_Learn
  imports Learning_Round Shell
begin

text \<open>
  The background learner (auto_learn.cc): the gates in front of a round, one round with its
  consequences, the watcher loop, and the default redeploy and notify hooks.  Clocks are integers
  in microseconds.  One wake-up of the thread is a \<open>tick_env\<close>: the clock readings, the
  answers of the history store and of the file system, whether the round throws (and what it had
  written by then) and whether the deployer succeeds.  The thread is the only one that touches
  the \<^verbatim>\<open>last_round_*\<close> fields, so its wake-ups run one after the other.
\<close>

section \<open>Configuration and state\<close>

record AutoLearnConfig =
  ac_data_dir :: path
  ac_rime_user_dir :: path
  ac_wubi_dict_path :: path
  ac_idle_threshold :: int
  ac_poll_interval :: int
  ac_min_round_interval :: int
  ac_min_new_word_freq :: u32
  ac_commit_to_git :: bool
  ac_push_to_remote :: bool

definition AutoLearnConfig_init :: AutoLearnConfig where
  "AutoLearnConfig_init =
     \<lparr>ac_data_dir = [], ac_rime_user_dir = [], ac_wubi_dict_path = [], ac_idle_threshold = 30,
      ac_poll_interval = 60, ac_min_round_interval = 300, ac_min_new_word_freq = 2,
      ac_commit_to_git = True, ac_push_to_remote = False\<rparr>"

record tick_env =
  te_now :: int
  te_end :: int
  te_wall :: int
  te_round :: round_env
  te_count_after :: u64
  te_throws :: "fs option"
  te_deploys :: bool

datatype learn_action = Round tick_env | Redeploy path | Notify u64

record 'g AutoLearn =
  al_history :: bool
  al_started :: bool
  al_stop :: bool
  al_last_count :: u64
  al_last_at :: int
  al_total_runs :: u64
  al_total_words :: u64
  al_fs :: fs
  al_git :: 'g
  al_trace :: "learn_action list"

definition usec :: "int \<Rightarrow> int" where
  "usec s = s * 1000000"

text \<open>The constructor seeds the last round a day back.\<close>

definition AutoLearn_ctor :: "bool \<Rightarrow> int \<Rightarrow> fs \<Rightarrow> 'g \<Rightarrow> 'g AutoLearn" where
  "AutoLearn_ctor history now f g =
     \<lparr>al_history = history, al_started = False, al_stop = False, al_last_count = 0,
      al_last_at = now - usec (24 * 3600), al_total_runs = 0, al_total_words = 0, al_fs = f,
      al_git = g, al_trace = []\<rparr>"

definition Start :: "int \<Rightarrow> u64 \<Rightarrow> 'g AutoLearn \<Rightarrow> 'g AutoLearn" where
  "Start now history_count st =
     (if al_started st then st
      else st\<lparr>al_last_at := now,
              al_last_count := (if al_history st then history_count else al_last_count st),
              al_stop := False, al_started := True\<rparr>)"

definition Stop :: "'g AutoLearn \<Rightarrow> 'g AutoLearn" where
  "Stop st = (if \<not> al_started st then st else st\<lparr>al_stop := True, al_started := False\<rparr>)"

section \<open>The gates\<close>

definition LatestCommitTimestamp :: "round_env \<Rightarrow> int option" where
  "LatestCommitTimestamp env =
     (case re_recent env 1 of [] \<Rightarrow> None | e # _ \<Rightarrow> Some (sint (he_ts_us e)))"

definition busy :: "AutoLearnConfig \<Rightarrow> tick_env \<Rightarrow> bool" where
  "busy cfg te \<longleftrightarrow> ac_idle_threshold cfg > 0 \<and>
     (case LatestCommitTimestamp (te_round te) of
        None \<Rightarrow> False
      | Some latest \<Rightarrow> te_wall te - latest < usec (ac_idle_threshold cfg))"

definition too_soon :: "AutoLearnConfig \<Rightarrow> int \<Rightarrow> tick_env \<Rightarrow> bool" where
  "too_soon cfg last_at te \<longleftrightarrow>
     ac_min_round_interval cfg > 0 \<and> te_now te - last_at < usec (ac_min_round_interval cfg)"

definition ShouldRunLocked :: "AutoLearnConfig \<Rightarrow> tick_env \<Rightarrow> 'g AutoLearn \<Rightarrow> bool" where
  "ShouldRunLocked cfg te st =
     (if \<not> al_history st then False
      else if re_count (te_round te) \<le> al_last_count st then False
      else if too_soon cfg (al_last_at st) te then False
      else if busy cfg te then False
      else True)"

section \<open>One round\<close>

definition round_git_config :: "AutoLearnConfig \<Rightarrow> GitSyncConfig" where
  "round_git_config cfg = GitSyncConfig_init\<lparr>gc_repo_path := join (ac_data_dir cfg) (lit ''userdata'')\<rparr>"

definition round_config :: "AutoLearnConfig \<Rightarrow> LearningRoundConfig" where
  "round_config cfg = LearningRoundConfig_init
     \<lparr>lc_data_dir := ac_data_dir cfg, lc_rime_user_dir := ac_rime_user_dir cfg,
      lc_wubi_dict_path := ac_wubi_dict_path cfg, lc_min_new_word_freq := ac_min_new_word_freq cfg,
      lc_commit_to_git := ac_commit_to_git cfg, lc_push_to_remote := ac_push_to_remote cfg\<rparr>"

text \<open>\<open>mk\<close> is \<^verbatim>\<open>MakeGitSync\<close> of the build: the real one or the stub.\<close>

definition RunOneRoundLocked ::
  "(GitSyncConfig \<Rightarrow> LibGit2Sync option) \<Rightarrow> 'g git_api \<Rightarrow> AutoLearnConfig \<Rightarrow> tick_env \<Rightarrow>
     'g AutoLearn \<Rightarrow> 'g AutoLearn" where
  "RunOneRoundLocked mk api cfg te st =
     (let st0 = st\<lparr>al_trace := al_trace st @ [Round te]\<rparr> in
      case te_throws te of
        Some f \<Rightarrow> st0\<lparr>al_fs := f, al_last_at := te_end te\<rparr>
      | None \<Rightarrow>
          let (result, rd) = RunLearningRound (te_round te) api (mk (round_git_config cfg))
                               (round_config cfg) (al_fs st) [] (al_git st);
              st1 = st0\<lparr>al_fs := rd_fs rd, al_git := rd_git rd,
                        al_total_runs := al_total_runs st + 1, al_last_at := te_end te,
                        al_last_count := (if al_history st then te_count_after te else al_last_count st)\<rparr>
          in if \<not> lr_ok result then st1
             else if lr_words_discovered result = 0 \<or> \<not> lr_wrote_user_dict result then st1
             else let st2 = st1\<lparr>al_total_words := al_total_words st + lr_words_discovered result,
                                al_trace := al_trace st1 @ [Redeploy (ac_rime_user_dir cfg)]\<rparr>
                  in if te_deploys te
                     then st2\<lparr>al_trace := al_trace st2 @ [Notify (lr_words_discovered result)]\<rparr>
                     else st2)"

definition TickForTesting ::
  "(GitSyncConfig \<Rightarrow> LibGit2Sync option) \<Rightarrow> 'g git_api \<Rightarrow> AutoLearnConfig \<Rightarrow> tick_env \<Rightarrow>
     'g AutoLearn \<Rightarrow> 'g AutoLearn" where
  "TickForTesting mk api cfg te st =
     (if \<not> ShouldRunLocked cfg te st then st else RunOneRoundLocked mk api cfg te st)"

text \<open>The watcher: each wake-up either sees the stop flag and returns (\<open>True\<close>) or ticks.\<close>

fun Loop ::
  "(GitSyncConfig \<Rightarrow> LibGit2Sync option) \<Rightarrow> 'g git_api \<Rightarrow> AutoLearnConfig \<Rightarrow> (bool \<times> tick_env) list \<Rightarrow>
     'g AutoLearn \<Rightarrow> bool \<times> 'g AutoLearn" where
  "Loop mk api cfg [] st = (False, st)"
| "Loop mk api cfg ((stop, te) # wakes) st =
     (if stop then (True, st)
      else Loop mk api cfg wakes
        (if \<not> ShouldRunLocked cfg te st then st else RunOneRoundLocked mk api cfg te st))"

section \<open>The hooks\<close>

definition deployer_candidates :: "path list" where
  "deployer_candidates =
     [lit ''/Library/Input Methods/Squirrel.app/Contents/MacOS/rime_deployer'',
      lit ''/Applications/Squirrel.app/Contents/MacOS/rime_deployer'']"

definition FindRimeDeployer :: "(path \<Rightarrow> bool) \<Rightarrow> path" where
  "FindRimeDeployer exists =
     (case filter exists deployer_candidates of [] \<Rightarrow> [] | c # _ \<Rightarrow> c)"

definition deploy_command :: "path \<Rightarrow> path \<Rightarrow> bytes" where
  "deploy_command deployer rime_dir =
     ShellQuote deployer @ lit '' --build '' @ ShellQuote rime_dir @ lit '' >/dev/null 2>&1''"

definition DefaultRimeRedeploy :: "(path \<Rightarrow> bool) \<Rightarrow> (bytes \<Rightarrow> int) \<Rightarrow> path \<Rightarrow> bool" where
  "DefaultRimeRedeploy exists system rime_dir =
     (let deployer = FindRimeDeployer exists in
      if deployer = [] then False
      else let rc = system (deploy_command deployer rime_dir) in if rc \<noteq> 0 then False else True)"

definition notify_command :: "u64 \<Rightarrow> bytes" where
  "notify_command words =
     lit ''osascript -e '' @ [0x27] @ lit ''display notification '' @ [0x22,
       0xE5, 0xB7, 0xB2, 0xE8, 0x87, 0xAA, 0xE5, 0x8A, 0xA8, 0xE5, 0xAD, 0xA6, 0xE5, 0x88, 0xB0, 0x20]
     @ dec (unat words)
     @ [0x20, 0xE4, 0xB8, 0xAA, 0xE6, 0x96, 0xB0, 0xE8, 0xAF, 0x8D, 0xEF, 0xBC, 0x8C, 0xE4, 0xB8, 0x8B,
        0xE6, 0xAC, 0xA1, 0xE5, 0x88, 0x87, 0xE6, 0x8D, 0xA2, 0xE8, 0xBE, 0x93, 0xE5, 0x85, 0xA5, 0xE6,
        0xB3, 0x95, 0xE6, 0x97, 0xB6, 0xE7, 0x94, 0x9F, 0xE6, 0x95, 0x88, 0xE3, 0x80, 0x82, 0x22]
     @ lit '' with title '' @ [0x22, 0xE5, 0xA4, 0xA7, 0xE9, 0xA3, 0x8E, 0xE4, 0xBA, 0x94, 0xE7, 0xAC, 0x94,
        0x22, 0x27] @ lit '' >/dev/null 2>&1''"

text \<open>\<^verbatim>\<open>snprintf\<close> into 512 bytes; nothing is run for zero words.\<close>

definition DefaultLearnNotify :: "u64 \<Rightarrow> bytes option" where
  "DefaultLearnNotify words = (if words = 0 then None else Some (take 511 (notify_command words)))"

end
