(* ===== verification/Learning_Correct.thy ===== *)
theory Learning_Correct
  imports Learning_Round
begin

text \<open>
  What a learning round leaves on disk, whichever steps fail: the word list, the bigram file and RIME's
  dictionary are as they were or read back as what was learned, the sentinel may be cut, and without
  git the rest of the file system is untouched.
\<close>

section \<open>Words that RIME can read\<close>

lemma field_ok_candidate: "LooksLikeRealCandidate s \<Longrightarrow> field_ok s"
  by (auto simp: LooksLikeRealCandidate_def field_ok_def list_ex_iff is_space_def split: if_splits)

lemma discovered_fields:
  assumes "std_sort srt ts_less" and "std_sort srt_out word_less"
    and "\<forall>e \<in> set entries. field_ok (he_code e)" and "w \<in> set (Discover srt srt_out entries cfg)"
  shows "field_ok (dw_text w) \<and> field_ok (dw_code w)"
proof
  obtain s where "w = word_of_text s (all_grams cfg srt entries)" "LooksLikeRealCandidate s"
    using assms(4) unfolding set_Discover [OF assms(2)] by blast
  then show "field_ok (dw_text w)"
    by (simp add: word_of_text_def word_of_counter_def field_ok_candidate)
  have "field_ok (gram_code g)" if g: "g \<in> set (all_grams cfg srt entries)" for g
  proof -
    have "field_ok (tk_code t)" if t: "t \<in> set g" for t
    proof -
      obtain e where "e \<in> set entries" "t \<in> set (entry_to_tokens e)"
        using all_grams_tokens [OF std_sort.sort_set [OF assms(1)] g, THEN conjunct2, THEN bspec, OF t] by blast
      then show ?thesis
        using assms(3) by (auto simp: entry_to_tokens_def Let_def field_ok_def)
    qed
    then show ?thesis by (auto simp: gram_code_def field_ok_def)
  qed
  moreover have "dw_code w = [] \<or> (\<exists>g \<in> set (all_grams cfg srt entries). dw_code w = gram_code g)"
    using discovered_code [OF assms(2,4)] by (auto simp: occurrences_def)
  ultimately show "field_ok (dw_code w)" by (auto simp: field_ok_def)
qed

lemma encode_phrase_field:
  assumes "\<And>ch. field_ok (FullCode m ch)"
  shows "field_ok (EncodePhrase m s)"
proof (cases "look_up_codes m (SplitUtf8Chars s)")
  case (Some codes)
  have len: "length codes = length (SplitUtf8Chars s)" and "\<forall>c \<in> set codes. field_ok c"
    using Some assms by (auto simp: look_up_codes_eq split: if_splits)
  then have nth: "i < length (SplitUtf8Chars s) \<Longrightarrow> field_ok (codes ! i)" for i by simp
  have take: "field_ok c \<Longrightarrow> field_ok (take n c)" for n c
    by (auto simp: field_ok_def dest: in_set_takeD)
  have app: "field_ok (x @ y) \<longleftrightarrow> field_ok x \<and> field_ok y" for x y
    by (auto simp: field_ok_def)
  have "field_ok []" by (simp add: field_ok_def)
  show ?thesis
  proof (cases "length (SplitUtf8Chars s) < 2")
    case False
    then have "last codes = codes ! (length (SplitUtf8Chars s) - 1)" using len by (simp add: last_conv_nth flip: length_0_conv)
    with False show ?thesis
      using nth by (auto simp: EncodePhrase_def Let_def Some app intro!: take nth)
  qed (simp add: EncodePhrase_def field_ok_def)
qed (simp add: EncodePhrase_def Let_def field_ok_def)

lemma round_words_fields:
  assumes "std_sort (re_sort env) ts_less" and "std_sort (re_sort_words env) word_less"
    and "\<forall>e \<in> set (re_recent env (lc_scan_max_entries cfg)). field_ok (he_code e)"
    and "w \<in> set (round_words env cfg f)"
  shows "field_ok (dw_text w) \<and> field_ok (dw_code w)"
proof -
  let ?words = "Discover (re_sort env) (re_sort_words env) (re_recent env (lc_scan_max_entries cfg)) (discovery_config cfg)"
  obtain ok codec where load: "LoadFromDict (lc_wubi_dict_path cfg) f = (ok, codec)" by fastforce
  have "field_ok (FullCode codec ch)" for ch
    using load_codes_plain [OF load] by (simp add: field_ok_def)
  then have enc: "field_ok (EncodePhrase codec s)" for s by (rule encode_phrase_field)
  have "w \<in> set ?words \<or> (\<exists>w0 \<in> set ?words. w = encode_word codec w0)"
    using assms(4) by (auto simp: round_words_def encode_words_def load split: if_splits)
  then show ?thesis
    using discovered_fields [OF assms(1-3)] enc by (auto simp: encode_word_def Let_def)
qed

section \<open>The files after a round\<close>

lemma write_ngram_result:
  "snd (write_ngram env cfg ngram f) (ngram_path cfg) =
     (if fst (write_ngram env cfg ngram f) then Some (save_bytes (snd (round_ngram env cfg ngram)))
      else f (ngram_path cfg))"
proof -
  have "ngram_path cfg \<noteq> learned_words_path cfg" "ngram_path cfg \<noteq> tmp_path (learned_words_path cfg)"
    using path_ends(1) path_ends(7) unfolding ngram_path_def learned_words_path_def by metis+
  then have "snd (write_words env cfg f) (ngram_path cfg) = f (ngram_path cfg)"
    by (rule write_words_other)
  then show ?thesis
    using replace_file_result(1) [OF prod.collapse [symmetric], of "re_ngram_events env" "ngram_path cfg"
        "save_bytes (snd (round_ngram env cfg ngram))" "snd (write_words env cfg f)"]
    by (simp add: write_ngram_def Save_def)
qed

text \<open>RIME's dictionary is written exactly if its directory is configured and no file operation
  fails; what then reads it back, and what the file holds else, whatever the other steps did.\<close>

definition rime_taken :: "round_env \<Rightarrow> LearningRoundConfig \<Rightarrow> bool" where
  "rime_taken env cfg \<longleftrightarrow> lc_rime_user_dir cfg \<noteq> [] \<and> fe_open (re_rime_events env)
     \<and> fe_stop (re_rime_events env) = None \<and> fe_rename (re_rime_events env)"

lemma rime_path_other:
  "rime_dict_path cfg \<noteq> join (lc_data_dir cfg) (lit ''redeploy_requested'')" "rime_dict_path cfg \<noteq> tmp_path p"
  "rime_dict_path cfg \<noteq> ngram_path cfg" "rime_dict_path cfg \<noteq> learned_words_path cfg"
proof -
  show "rime_dict_path cfg \<noteq> join (lc_data_dir cfg) (lit ''redeploy_requested'')" "rime_dict_path cfg \<noteq> tmp_path p"
    unfolding rime_dict_path_def join_def tmp_path_def
    by (subst rev_is_rev_conv [symmetric]; simp)+
  show "rime_dict_path cfg \<noteq> ngram_path cfg" "rime_dict_path cfg \<noteq> learned_words_path cfg"
    using path_ends(2,3) unfolding ngram_path_def learned_words_path_def rime_dict_path_def by metis+
qed

lemma fst_write_rime: "fst (write_rime env cfg ngram f) = rime_taken env cfg"
  by (auto simp: write_rime_def rime_taken_def WriteRimeDictYaml_def replace_file_def split: option.split)

lemma final_rime_old:
  assumes "\<not> rime_taken env cfg"
  shows "snd (write_sentinel env cfg ngram f) (rime_dict_path cfg) = f (rime_dict_path cfg)"
proof -
  have "snd (write_rime env cfg ngram f) (rime_dict_path cfg) = snd (write_ngram env cfg ngram f) (rime_dict_path cfg)"
    using assms replace_file_result(1) [OF prod.collapse [symmetric]] fst_write_rime [of env cfg ngram f]
    by (auto simp: write_rime_def WriteRimeDictYaml_def split: if_splits)
  then show ?thesis
    by (simp add: write_sentinel_other rime_path_other write_ngram_other write_words_other del: lit_simps)
qed

lemma final_rime_new:
  assumes "rime_taken env cfg"
  shows "snd (write_sentinel env cfg ngram f) (rime_dict_path cfg)
    = Some (rime_dict_bytes (re_time env 1) (re_time env 2) (lit ''dafeng_learned'') (round_words env cfg f))"
proof -
  have "snd (write_rime env cfg ngram f) (rime_dict_path cfg)
      = Some (rime_dict_bytes (re_time env 1) (re_time env 2) (lit ''dafeng_learned'') (round_words env cfg f))"
    using assms by (simp add: write_rime_def rime_taken_def WriteRimeDictYaml_def replace_file_def)
  then show ?thesis by (simp add: write_sentinel_other rime_path_other del: lit_simps)
qed

lemma rime_after_round:
  assumes "RunLearningRound env api sync cfg f ngram g = (r, st)"
    and "std_sort (re_sort env) ts_less" and "std_sort (re_sort_words env) word_less"
    and "\<forall>e \<in> set (re_recent env (lc_scan_max_entries cfg)). field_ok (he_code e)"
    and "0x0A \<notin> set (re_time env 1)" and "0x0A \<notin> set (re_time env 2)"
  shows "if rime_taken env cfg
    then map_option rime_rows (rd_fs st (rime_dict_path cfg)) = Some (map word_row (row_words (round_words env cfg f)))
    else rd_fs st (rime_dict_path cfg) = f (rime_dict_path cfg)"
proof -
  have st: "rd_fs st = snd (write_sentinel env cfg ngram f)" using assms(1) by (auto simp: round_eq)
  have plain: "\<forall>w \<in> set (round_words env cfg f). dw_code w \<noteq> [] \<longrightarrow> field_ok (dw_text w) \<and> field_ok (dw_code w)"
    using round_words_fields [OF assms(2-4)] by blast
  have name: "0x0A \<notin> set (lit ''dafeng_learned'')" by simp
  show ?thesis
    using rime_written [OF assms(5,6) name plain, of no_faults "[]" f] final_rime_old [of env cfg ngram f]
      final_rime_new [of env cfg ngram f]
    by (auto simp: st WriteRimeDictYaml_def replace_file_def no_faults_def simp del: lit_simps)
qed

text \<open>C24: If RIME's directory is configured and no file operation fails, RIME reads from the
  dictionary of a round exactly the learned words that have a code and do not start with
  \<^verbatim>\<open>#\<close>, with text, code and frequency (the rows of the others are comments to it); in every
  other case the file is as it was.  This holds for every history whose codes contain no tab or
  newline.\<close>

theorem round_rime_rows:
  assumes "RunLearningRound env api sync cfg f ngram g = (r, st)"
    and "std_sort (re_sort env) ts_less" and "std_sort (re_sort_words env) word_less"
    and "\<forall>e \<in> set (re_recent env (lc_scan_max_entries cfg)). field_ok (he_code e)"
    and "0x0A \<notin> set (re_time env 1)" and "0x0A \<notin> set (re_time env 2)"
  shows "if lc_rime_user_dir cfg \<noteq> [] \<and> fe_open (re_rime_events env) \<and> fe_stop (re_rime_events env) = None
      \<and> fe_rename (re_rime_events env)
    then map_option rime_rows (rd_fs st (rime_dict_path cfg)) =
        Some (map (\<lambda>w. [dw_text w, dw_code w, dec (unat (dw_frequency w))])
               (filter (\<lambda>w. dw_code w \<noteq> [] \<and> take 1 (dw_text w) \<noteq> [0x23]) (round_words env cfg f)))
    else rd_fs st (rime_dict_path cfg) = f (rime_dict_path cfg)"
  using rime_after_round [OF assms] by (simp only: rime_taken_def word_row_def [abs_def] row_words_def)

section \<open>All files of a round\<close>

lemma sentinel_other:
  "join p (lit ''redeploy_requested'') \<noteq> tmp_path q"
  unfolding join_def tmp_path_def by (subst rev_is_rev_conv [symmetric]; simp)+

lemma final_sentinel:
  "snd (write_sentinel env cfg ngram f) (join (lc_data_dir cfg) (lit ''redeploy_requested'')) =
     (if fst (write_sentinel env cfg ngram f)
      then Some (case fe_stop (re_sentinel_events env) of None \<Rightarrow> text_line (re_time env 3)
                 | Some n \<Rightarrow> take n (text_line (re_time env 3)))
      else f (join (lc_data_dir cfg) (lit ''redeploy_requested'')))"
proof -
  let ?p = "join (lc_data_dir cfg) (lit ''redeploy_requested'')"
  have "?p \<noteq> learned_words_path cfg" "?p \<noteq> ngram_path cfg"
    using path_ends(4,5) unfolding ngram_path_def learned_words_path_def by metis+
  then have "snd (write_rime env cfg ngram f) ?p = f ?p"
    using rime_path_other(1) [of cfg] sentinel_other
    by (simp add: write_rime_other write_ngram_other write_words_other del: lit_simps)
  then show ?thesis by (simp add: write_sentinel_def RequestRimeRedeploy_def Let_def del: lit_simps)
qed

text \<open>C9: The files after a round, whatever steps of it fail.  The word list and the bigram file are as
  they were or, exactly if the result says they were written, read back in full: as the re-encoded
  discovered words (if these are UTF-8) and as all counts of the table; the round is ok exactly if both
  were written.  RIME's dictionary is as it was or complete.  The redeploy sentinel is not replaced but
  written in place: it is as it was exactly if the result says no redeploy was requested, but a request
  that is reported as made may leave any part of the time stamp.  If no commit is asked for (no
  synchronisation, or \<^verbatim>\<open>commit_to_git\<close> off), the git repository and every regular file
  other than these and their temporary files are untouched; with it on, libgit2 also writes below
  \<^verbatim>\<open>userdata/.git\<close>.\<close>

theorem round_files:
  assumes "RunLearningRound env api sync cfg f ngram g = (r, st)" and "stamp_ok (re_time env 0)"
    and "table_ok ngram" and "short_table ngram" and "Size (rd_ngram st) < 2 ^ 32"
  shows "(if lr_wrote_user_dict r
        then Option.bind (rd_fs st (learned_words_path cfg)) read_learned_words
          = (if list_all (\<lambda>w. utf8_ok (dw_text w) \<and> utf8_ok (dw_code w)) (round_words env cfg f)
             then Some (round_words env cfg f) else None)
        else rd_fs st (learned_words_path cfg) = f (learned_words_path cfg))
    \<and> (if lr_wrote_ngram r
        then fst (Load (ngram_path cfg) (rd_fs st))
          \<and> BigramCount (snd (Load (ngram_path cfg) (rd_fs st))) = BigramCount (rd_ngram st)
        else rd_fs st (ngram_path cfg) = f (ngram_path cfg))
    \<and> (lr_ok r \<longleftrightarrow> lr_wrote_user_dict r \<and> lr_wrote_ngram r)
    \<and> rd_fs st (rime_dict_path cfg) =
        (if lc_rime_user_dir cfg \<noteq> [] \<and> fe_open (re_rime_events env) \<and> fe_stop (re_rime_events env) = None
            \<and> fe_rename (re_rime_events env)
         then Some (rime_dict_bytes (re_time env 1) (re_time env 2) (lit ''dafeng_learned'') (round_words env cfg f))
         else f (rime_dict_path cfg))
    \<and> rd_fs st (join (lc_data_dir cfg) (lit ''redeploy_requested'')) =
        (if lr_requested_redeploy r
         then Some (case fe_stop (re_sentinel_events env) of None \<Rightarrow> text_line (re_time env 3)
                    | Some n \<Rightarrow> take n (text_line (re_time env 3)))
         else f (join (lc_data_dir cfg) (lit ''redeploy_requested'')))
    \<and> (sync = None \<or> \<not> lc_commit_to_git cfg \<longrightarrow>
        rd_git st = g \<and> (\<forall>q. q \<notin> round_paths cfg \<longrightarrow> rd_fs st q = f q))"
proof -
  have r: "lr_wrote_user_dict r = fst (write_words env cfg f)" "lr_wrote_ngram r = fst (write_ngram env cfg ngram f)"
    "lr_ok r \<longleftrightarrow> lr_wrote_user_dict r \<and> lr_wrote_ngram r"
    "lr_requested_redeploy r = fst (write_sentinel env cfg ngram f)"
    and st: "rd_fs st = snd (write_sentinel env cfg ngram f)" "rd_ngram st = snd (round_ngram env cfg ngram)"
      "rd_git st = fst (snd (git_step api cfg sync g))"
    using assms(1) by (auto simp: round_eq)
  let ?f = "rd_fs st" and ?lp = "learned_words_path cfg" and ?np = "ngram_path cfg"
  have words: "if lr_wrote_user_dict r
      then Option.bind (?f ?lp) read_learned_words
        = (if list_all word_utf8 (round_words env cfg f) then Some (round_words env cfg f) else None)
      else ?f ?lp = f ?lp"
    using learned_written [OF assms(2), of "re_dict_events env" "round_words env cfg f" ?lp f]
    by (simp only: r(1) st(1) final_words write_words_def)
  have ok: "table_ok (rd_ngram st)" and short: "short_table (rd_ngram st)"
    using update_table_ok update_short_table assms(3,4) unfolding st(2) round_ngram_def
    by (metis prod.collapse)+
  have "if lr_wrote_ngram r then ?f ?np = Some (save_bytes (rd_ngram st)) else ?f ?np = f ?np"
    by (simp add: r(2) st(1,2) final_ngram write_ngram_result)
  then have ngram: "if lr_wrote_ngram r
      then fst (Load ?np ?f) \<and> BigramCount (snd (Load ?np ?f)) = BigramCount (rd_ngram st)
      else ?f ?np = f ?np"
    using load_saved_counts [OF ok assms(5) short] by (auto simp: Load_def)
  have other: "?f q = f q" if "q \<notin> round_paths cfg" for q
    using that unfolding round_paths_def st(1)
    by (simp add: write_sentinel_other write_rime_other write_ngram_other write_words_other split: if_splits
        del: lit_simps)
  have git: "rd_git st = g" if "sync = None \<or> \<not> lc_commit_to_git cfg"
    using that by (auto simp: st(3) git_step_def split: option.split)
  have rime: "?f (rime_dict_path cfg) = (if rime_taken env cfg
      then Some (rime_dict_bytes (re_time env 1) (re_time env 2) (lit ''dafeng_learned'') (round_words env cfg f))
      else f (rime_dict_path cfg))"
    by (simp add: st(1) final_rime_new final_rime_old del: lit_simps)
  show ?thesis
    using words ngram r(3) final_sentinel [of env cfg ngram f] rime other git
    unfolding r(4) st(1) word_utf8_def [abs_def] rime_taken_def by blast
qed

section \<open>A concrete round\<close>

definition demo_round_env :: round_env where
  "demo_round_env = \<lparr>re_recent = \<lambda>n. two_commits, re_count = 2, re_sort = sort_by ts_less,
     re_sort_words = sort_by word_less, re_dict_events = no_faults, re_ngram_events = no_faults,
     re_rime_events = no_faults, re_sentinel_mkdir = True, re_sentinel_events = no_faults,
     re_time = \<lambda>i. [50]\<rparr>"

definition demo_round_config :: LearningRoundConfig where
  "demo_round_config = LearningRoundConfig_init\<lparr>lc_data_dir := [47, 100], lc_rime_user_dir := [47, 114]\<rparr>"

definition demo_round :: "LearningRoundResult \<times> mem_git round_state" where
  "demo_round = RunLearningRound demo_round_env mem_git_api None demo_round_config (\<lambda>_. None) []
     \<lparr>mg_log = [], mg_work = 0, mg_staged = 0\<rparr>"

lemma demo_round_ngram: "round_ngram demo_round_env demo_round_config []
    = (2, [([97], [([98], 1)]), ([98], [([98], 1)])])"
proof -
  have "sort_by ts_less two_commits = two_commits" by (simp add: two_commits_def ts_less_def)
  then show ?thesis
    by (simp add: round_ngram_def demo_round_env_def table.update_bumps two_commits_bigrams IncrementBigram_def
        put2_def inner_of_def)
qed

lemma demo_round_wrote: "lr_wrote_ngram (fst demo_round)"
  by (simp add: demo_round_def round_eq write_ngram_def Save_def demo_round_env_def replace_no_faults)

theorem round_files_witness:
  "BigramCount (snd (Load (ngram_path demo_round_config) (rd_fs (snd demo_round)))) [97] [98] = 1
   \<and> rd_fs (snd demo_round) (join [47, 100] (lit ''redeploy_requested'')) = Some [50, 10]
   \<and> rd_fs (snd demo_round) [47, 97] = None"
proof -
  have run: "RunLearningRound demo_round_env mem_git_api None demo_round_config (\<lambda>_. None) []
      \<lparr>mg_log = [], mg_work = 0, mg_staged = 0\<rparr> = (fst demo_round, snd demo_round)"
    by (simp add: demo_round_def)
  have ngram: "rd_ngram (snd demo_round) = [([97], [([98], 1)]), ([98], [([98], 1)])]"
    by (simp add: demo_round_def round_eq demo_round_ngram)
  have stamp: "stamp_ok (re_time demo_round_env 0)" by (simp add: stamp_ok_def demo_round_env_def)
  have table: "table_ok []" "short_table []" "Size (rd_ngram (snd demo_round)) < 2 ^ 32"
    by (simp_all add: ngram Size_def short_table_def key_pairs_def)
  have asked: "lr_requested_redeploy (fst demo_round)"
    by (simp add: demo_round_def round_eq write_sentinel_def RequestRimeRedeploy_def demo_round_env_def
        no_faults_def Let_def del: lit_simps)
  have elsewhere: "[47, 97] \<notin> round_paths demo_round_config"
    by (simp add: round_paths_def demo_round_config_def LearningRoundConfig_init_def join_def tmp_path_def
        learned_words_path_def ngram_path_def rime_dict_path_def userdata_def)
  note files = round_files [OF run stamp table]
  have "BigramCount (snd (Load (ngram_path demo_round_config) (rd_fs (snd demo_round)))) [97] [98]
      = BigramCount (rd_ngram (snd demo_round)) [97] [98]"
    using files demo_round_wrote by (simp del: lit_simps)
  moreover have "rd_fs (snd demo_round) (join (lc_data_dir demo_round_config) (lit ''redeploy_requested''))
      = Some (text_line (re_time demo_round_env 3))"
    using files asked by (simp add: demo_round_env_def no_faults_def del: lit_simps)
  moreover have "rd_fs (snd demo_round) [47, 97] = None"
    using files elsewhere by blast
  ultimately show ?thesis
    by (simp add: ngram BigramCount_def text_line_def demo_round_env_def demo_round_config_def del: lit_simps)
qed

theorem round_rime_rows_witness:
  "map_option rime_rows (rd_fs (snd demo_round) (rime_dict_path demo_round_config)) =
       Some (map (\<lambda>w. [dw_text w, dw_code w, dec (unat (dw_frequency w))])
         (filter (\<lambda>w. dw_code w \<noteq> [] \<and> take 1 (dw_text w) \<noteq> [0x23])
           (round_words demo_round_env demo_round_config (\<lambda>_. None))))"
proof -
  have run: "RunLearningRound demo_round_env mem_git_api None demo_round_config (\<lambda>_. None) []
      \<lparr>mg_log = [], mg_work = 0, mg_staged = 0\<rparr> = (fst demo_round, snd demo_round)"
    by (simp add: demo_round_def)
  have "lc_rime_user_dir demo_round_config \<noteq> []" "fe_open (re_rime_events demo_round_env)"
    "fe_stop (re_rime_events demo_round_env) = None" "fe_rename (re_rime_events demo_round_env)"
    by (simp_all add: demo_round_config_def demo_round_env_def no_faults_def)
  moreover have "std_sort (re_sort demo_round_env) ts_less" "std_sort (re_sort_words demo_round_env) word_less"
    "list_all (\<lambda>e. field_ok (he_code e)) (re_recent demo_round_env (lc_scan_max_entries demo_round_config))"
    "0x0A \<notin> set (re_time demo_round_env 1)" "0x0A \<notin> set (re_time demo_round_env 2)"
    by (simp_all add: demo_round_env_def ts.stable.std_sort_axioms words.stable.std_sort_axioms
        two_commits_def field_ok_def)
  ultimately show ?thesis
    using round_rime_rows [OF run] by (simp add: list_all_iff)
qed

theorem round_network_opt_in_witness:
  "rd_calls (snd demo_round) = []"
proof -
  have run: "RunLearningRound demo_round_env mem_git_api None demo_round_config (\<lambda>_. None) []
      \<lparr>mg_log = [], mg_work = 0, mg_staged = 0\<rparr> = (fst demo_round, snd demo_round)"
    by (simp add: demo_round_def)
  have "\<not> lc_push_to_remote demo_round_config"
    by (simp add: demo_round_config_def LearningRoundConfig_init_def)
  then show ?thesis using round_network_opt_in [OF run] by blast
qed

end
