(* ===== verification/Auto_Learn_Correct.thy ===== *)
theory Auto_Learn_Correct
  imports Auto_Learn Learning_Correct
begin

text \<open>
  Properties of the background learner: when rounds run, what may follow a round, that stopping
  ends it, and that the command lines of the hooks mean what they should.
\<close>

section \<open>When rounds run\<close>

definition rounds_of :: "learn_action list \<Rightarrow> tick_env list" where
  "rounds_of tr = List.map_filter (\<lambda>a. case a of Round te \<Rightarrow> Some te | _ \<Rightarrow> None) tr"

text \<open>
  The policy of auto_learn.h for a sequence of rounds after \<open>n\<close> known entries and a round that
  ended at time \<open>t\<close>: new entries, the minimal distance, an idle user.
\<close>

fun rounds_ok :: "AutoLearnConfig \<Rightarrow> u64 \<Rightarrow> int \<Rightarrow> tick_env list \<Rightarrow> bool" where
  "rounds_ok cfg n t [] = True"
| "rounds_ok cfg n t (te # tes) =
     (n < re_count (te_round te)
      \<and> (0 < ac_min_round_interval cfg \<longrightarrow> usec (ac_min_round_interval cfg) \<le> te_now te - t)
      \<and> (0 < ac_idle_threshold cfg \<longrightarrow>
           (\<forall>latest. LatestCommitTimestamp (te_round te) = Some latest \<longrightarrow>
              usec (ac_idle_threshold cfg) \<le> te_wall te - latest))
      \<and> rounds_ok cfg (if te_throws te = None then te_count_after te else n) (te_end te) tes)"

lemma ShouldRunLocked_ok:
  "ShouldRunLocked cfg te st \<longleftrightarrow> al_history st \<and>
     rounds_ok cfg (al_last_count st) (al_last_at st) [te]"
  by (auto simp: ShouldRunLocked_def too_soon_def busy_def split: option.splits)

lemma rounds_of_simps [simp]:
  "rounds_of [] = []"
  "rounds_of (tr @ tr') = rounds_of tr @ rounds_of tr'"
  "rounds_of [Round te] = [te]" "rounds_of [Redeploy p] = []" "rounds_of [Notify n] = []"
  by (simp_all add: rounds_of_def map_filter_simps List.map_filter_def)

lemma RunOneRound_fields:
  "al_history (RunOneRoundLocked mk api cfg te st) = al_history st"
  "al_last_at (RunOneRoundLocked mk api cfg te st) = te_end te"
  "al_history st \<Longrightarrow> al_last_count (RunOneRoundLocked mk api cfg te st) =
     (if te_throws te = None then te_count_after te else al_last_count st)"
  "\<exists>acts. al_trace (RunOneRoundLocked mk api cfg te st) = al_trace st @ Round te # acts \<and> rounds_of acts = []"
  by (auto simp: RunOneRoundLocked_def Let_def rounds_of_def List.map_filter_def split: option.splits prod.splits)

lemma Loop_rounds:
  "al_history st \<Longrightarrow> \<exists>tes. rounds_of (al_trace (snd (Loop mk api cfg wakes st))) = rounds_of (al_trace st) @ tes
     \<and> rounds_ok cfg (al_last_count st) (al_last_at st) tes"
proof (induction mk api cfg wakes st rule: Loop.induct)
  case (2 mk api cfg stop te wakes st)
  show ?case
  proof (cases "\<not> stop \<and> ShouldRunLocked cfg te st")
    case True
    let ?st = "RunOneRoundLocked mk api cfg te st"
    obtain acts where acts: "al_trace ?st = al_trace st @ Round te # acts" "rounds_of acts = []"
      using RunOneRound_fields(4) by blast
    then have tr: "rounds_of (al_trace ?st) = rounds_of (al_trace st) @ [te]"
      by (metis append.assoc append_Cons append_Nil append_Nil2 rounds_of_simps(2,3))
    obtain tes where "rounds_of (al_trace (snd (Loop mk api cfg wakes ?st))) = rounds_of (al_trace ?st) @ tes"
      "rounds_ok cfg (al_last_count ?st) (al_last_at ?st) tes"
      using 2 True RunOneRound_fields(1) [of mk api cfg te st] by auto
    then show ?thesis
      using True tr 2(2) by (intro exI [of _ "te # tes"]) (auto simp: ShouldRunLocked_ok RunOneRound_fields)
  next
    case False
    then show ?thesis using 2 by (auto intro: exI [of _ "[]"])
  qed
qed simp

text \<open>C13: However long the watcher runs, its rounds follow the policy: each has new entries since
  the last completed round (since the start for the first), begins at least the minimal interval
  after the end of the last one (after the start), and only when the latest commit is at least the idle
  threshold old.\<close>

theorem auto_learn_policy:
  assumes "al_history st" and "\<not> al_started st" and "al_trace st = []"
  shows "rounds_ok cfg history_count now
    (rounds_of (al_trace (snd (Loop mk api cfg wakes (Start now history_count st)))))"
  using Loop_rounds [of "Start now history_count st" mk api cfg wakes] assms
  by (auto simp: Start_def)

text \<open>Once the watcher sees the stop flag it returns without another round.\<close>

theorem stop_ends_loop:
  "\<exists>b st'. Loop mk api cfg (wakes @ (True, te) # later) st = (b, st') \<and> b
     \<and> st' = snd (Loop mk api cfg wakes st)"
  by (induction mk api cfg wakes st rule: Loop.induct) auto

section \<open>What follows a round\<close>

text \<open>A notification is the last step of a round whose dictionary was deployed.\<close>

inductive trace_shape :: "AutoLearnConfig \<Rightarrow> learn_action list \<Rightarrow> bool" for cfg where
  none: "trace_shape cfg []"
| quiet: "trace_shape cfg tr \<Longrightarrow> trace_shape cfg (tr @ [Round te])"
| failed: "trace_shape cfg tr \<Longrightarrow> te_throws te = None \<Longrightarrow> \<not> te_deploys te \<Longrightarrow>
    trace_shape cfg (tr @ [Round te, Redeploy (ac_rime_user_dir cfg)])"
| told: "trace_shape cfg tr \<Longrightarrow> te_throws te = None \<Longrightarrow> te_deploys te \<Longrightarrow> n \<noteq> 0 \<Longrightarrow>
    trace_shape cfg (tr @ [Round te, Redeploy (ac_rime_user_dir cfg), Notify n])"

lemma RunOneRound_shape:
  "trace_shape cfg (al_trace st) \<Longrightarrow> trace_shape cfg (al_trace (RunOneRoundLocked mk api cfg te st))"
  by (auto simp: RunOneRoundLocked_def Let_def split: option.splits prod.splits
      intro: trace_shape.intros)

text \<open>The deployer runs only after a round that completed, and the user is notified only
  after a deployment that succeeded and never about zero words.\<close>

theorem notify_after_deploy:
  assumes "trace_shape cfg (al_trace st)"
  shows "trace_shape cfg (al_trace (snd (Loop mk api cfg wakes st)))"
  using assms by (induction mk api cfg wakes st rule: Loop.induct) (auto simp: RunOneRound_shape)

text \<open>The number a completed round reports to the user is that of all words found in the
  scanned window, whether or not earlier rounds had already found and reported them: it depends on the
  history and the files only, and adds to the total each time.\<close>

theorem notified_words_total:
  assumes "te_throws te = None" and "te_deploys te"
    and "al_trace (RunOneRoundLocked mk api cfg te st)
      = al_trace st @ [Round te, Redeploy (ac_rime_user_dir cfg), Notify n]"
  shows "n = of_nat (length (round_words (te_round te) (round_config cfg) (al_fs st)))
    \<and> al_total_words (RunOneRoundLocked mk api cfg te st) = al_total_words st + n"
  using assms by (auto simp: RunOneRoundLocked_def Let_def round_eq split: if_splits)

section \<open>Command lines\<close>

text \<open>For all paths the shell splits the redeploy command into the deployer, the option and
  the directory, each as one word, in front of the redirections.\<close>

theorem deploy_command_words:
  "\<exists>r1 r2. sh_word (deploy_command deployer rime_dir) = Some (deployer, 0x20 # r1)
     \<and> sh_word r1 = Some (lit ''--build'', 0x20 # r2)
     \<and> sh_word r2 = Some (rime_dir, lit '' >/dev/null 2>&1'')"
  by (intro exI [of _ "lit ''--build '' @ ShellQuote rime_dir @ lit '' >/dev/null 2>&1''"]
      exI [of _ "ShellQuote rime_dir @ lit '' >/dev/null 2>&1''"])
    (simp add: deploy_command_def sh_word_ShellQuote plain_char_def)

text \<open>The buffer is always large enough.\<close>

lemma notify_command_fits: "DefaultLearnNotify words = (if words = 0 then None else Some (notify_command words))"
proof -
  have "unat words < 10 ^ 20" using unat_bound [of words] by simp
  then have "length (dec (unat words)) \<le> 20" by (rule length_dec) simp
  then show ?thesis by (simp add: DefaultLearnNotify_def notify_command_def)
qed

section \<open>A concrete run\<close>

definition learn_env :: round_env where
  "learn_env = demo_round_env\<lparr>re_recent := \<lambda>n. demo_commits, re_count := 4\<rparr>"

definition learn_tick :: tick_env where
  "learn_tick = \<lparr>te_now = 400000000, te_end = 401000000, te_wall = 100000000, te_round = learn_env,
     te_count_after = 4, te_throws = None, te_deploys = True\<rparr>"

definition learn_start :: "mem_git AutoLearn" where
  "learn_start = AutoLearn_ctor True 0 (\<lambda>_. None) \<lparr>mg_log = [], mg_work = 0, mg_staged = 0\<rparr>"

definition learn_config :: AutoLearnConfig where
  "learn_config = AutoLearnConfig_init\<lparr>ac_data_dir := [47, 100], ac_rime_user_dir := [47, 114]\<rparr>"

theorem auto_learn_policy_witness:
  "rounds_ok learn_config 0 0 (rounds_of (al_trace (snd (Loop MakeGitSync_stub mem_git_api learn_config
     [(False, learn_tick), (True, learn_tick)] (Start 0 0 learn_start)))))"
  by (rule auto_learn_policy) (simp_all add: learn_start_def AutoLearn_ctor_def)

theorem notify_after_deploy_witness:
  "trace_shape learn_config (al_trace (snd (Loop MakeGitSync_stub mem_git_api learn_config
     [(False, learn_tick), (True, learn_tick)] (Start 0 0 learn_start))))"
  by (rule notify_after_deploy) (simp add: learn_start_def AutoLearn_ctor_def Start_def trace_shape.none)

text \<open>The four commits of \<open>demo_commits\<close> make one word, found twice.\<close>

definition tok_a :: "u64 \<Rightarrow> Token" where
  "tok_a t = \<lparr>tk_ch = [0xC3, 0xA4], tk_code = [97], tk_ts = t\<rparr>"

definition tok_b :: "u64 \<Rightarrow> Token" where
  "tok_b t = \<lparr>tk_ch = [0xC3, 0xB6], tk_code = [98], tk_ts = t\<rparr>"

definition freq_2 :: DiscoveryConfig where
  "freq_2 = DiscoveryConfig_init\<lparr>dc_min_frequency := 2\<rparr>"

lemma learn_grams:
  "all_grams freq_2 (sort_by ts_less) demo_commits =
     [[tok_a 1, tok_b 2], [tok_b 2, tok_a 3], [tok_a 3, tok_b 4],
      [tok_a 1, tok_b 2, tok_a 3], [tok_b 2, tok_a 3, tok_b 4]]"
proof -
  have "runs 2000000 (sort_by ts_less demo_commits) = [demo_commits]"
    by (simp add: demo_commits_def ts_less_def demo_commit_def gap_between_def)
  moreover have "concat (map entry_to_tokens demo_commits) = [tok_a 1, tok_b 2, tok_a 3, tok_b 4]"
    by (simp add: demo_commits_def demo_tokens demo_char tok_a_def tok_b_def)
  ultimately show ?thesis
    by (simp add: all_grams_def token_runs_def freq_2_def DiscoveryConfig_init_def)
      (simp add: run_grams_def windows_def upt_conv_Cons)
qed

lemma learn_kept:
  "filter (keep_counter freq_2) (fold put_gram
     [[tok_a 1, tok_b 2], [tok_b 2, tok_a 3], [tok_a 3, tok_b 4],
      [tok_a 1, tok_b 2, tok_a 3], [tok_b 2, tok_a 3, tok_b 4]] [])
   = [(demo_text, fold count_gram [[tok_a 1, tok_b 2], [tok_a 3, tok_b 4]] Counter_init)]"
  by (simp add: put_gram_def gram_text_def tok_a_def tok_b_def count_of_def count_gram_def
      Counter_init_def keep_counter_def freq_2_def DiscoveryConfig_init_def
      demo_real [unfolded demo_text_def] demo_text_def)

lemma learn_words: "length (round_words learn_env (round_config learn_config) (\<lambda>_. None)) = 1"
proof -
  have cfg: "discovery_config (round_config learn_config) = freq_2" "lc_wubi_dict_path (round_config learn_config) = []"
    by (simp_all add: discovery_config_def round_config_def LearningRoundConfig_init_def learn_config_def
        AutoLearnConfig_init_def DiscoveryConfig_init_def freq_2_def)
  have "Discover (re_sort learn_env) (re_sort_words learn_env) (re_recent learn_env n) freq_2
      = sort_by word_less (map word_of_counter
          [(demo_text, fold count_gram [[tok_a 1, tok_b 2], [tok_a 3, tok_b 4]] Counter_init)])" for n
    by (simp only: Discover_def count_entries_fold learn_env_def demo_round_env_def round_env.simps
        learn_grams learn_kept)
  then show ?thesis by (simp add: round_words_def encode_words_def cfg)
qed

definition learn_round :: "mem_git AutoLearn" where
  "learn_round = RunOneRoundLocked MakeGitSync_stub mem_git_api learn_config learn_tick learn_start"

lemma learn_round_trace:
  "al_trace learn_round = al_trace learn_start @ [Round learn_tick, Redeploy (ac_rime_user_dir learn_config), Notify 1]"
proof -
  let ?r = "RunLearningRound learn_env mem_git_api (MakeGitSync_stub (round_git_config learn_config))
      (round_config learn_config) (\<lambda>_. None) [] \<lparr>mg_log = [], mg_work = 0, mg_staged = 0\<rparr>"
  have wrote: "fst (write_words learn_env (round_config learn_config) (\<lambda>_. None))"
    "fst (write_ngram learn_env (round_config learn_config) [] (\<lambda>_. None))"
    by (simp_all add: write_words_def Generate_def write_ngram_def Save_def learn_env_def demo_round_env_def
        replace_no_faults)
  have "lr_ok (fst ?r)" "lr_wrote_user_dict (fst ?r)" "lr_words_discovered (fst ?r) = 1"
    by (simp_all add: round_eq wrote learn_words)
  then show ?thesis
    by (simp add: learn_round_def RunOneRoundLocked_def learn_tick_def learn_start_def AutoLearn_ctor_def
        Let_def case_prod_beta)
qed

theorem notified_words_total_witness:
  "al_total_words learn_round = al_total_words learn_start + 1"
  using notified_words_total [of learn_tick MakeGitSync_stub mem_git_api learn_config learn_start 1]
    learn_round_trace by (simp add: learn_round_def learn_tick_def)

end
