(* ===== verification/Float32.thy ===== *)
theory Float32
  imports Dafeng_Prelude
begin

unbundle bit_operations_syntax

text \<open>
  The C++ type \<^verbatim>\<open>float\<close> (IEEE 754 binary32), as the scores of the rerankers use it.
  A value is its bit pattern; \<open>f32_val\<close> reads a finite pattern as an integer number of
  units of \<open>2 ^ -149\<close>, the smallest positive float, so that all arithmetic is on integers.
  \<open>f32_pack m k\<close> is the pattern nearest to \<open>m / 2 ^ k\<close> units, ties to even.  Every
  operation rounds its own result: no fused multiply-add.
\<close>

type_synonym f32 = "32 word"

definition f32_sign :: "f32 \<Rightarrow> bool" where
  "f32_sign x \<longleftrightarrow> bit x 31"

definition f32_mag :: "f32 \<Rightarrow> nat" where
  "f32_mag x = unat x mod 2 ^ 31"

definition f32_is_nan :: "f32 \<Rightarrow> bool" where
  "f32_is_nan x \<longleftrightarrow> f32_mag x > 0x7F800000"

definition f32_is_inf :: "f32 \<Rightarrow> bool" where
  "f32_is_inf x \<longleftrightarrow> f32_mag x = 0x7F800000"

definition f32_units :: "nat \<Rightarrow> nat" where
  "f32_units b = (let e = b div 2 ^ 23; f = b mod 2 ^ 23
                  in if e = 0 then f else (2 ^ 23 + f) * 2 ^ (e - 1))"

definition f32_val :: "f32 \<Rightarrow> int" where
  "f32_val x = (if f32_sign x then - int (f32_units (f32_mag x)) else int (f32_units (f32_mag x)))"

fun bit_len :: "nat \<Rightarrow> nat" where
  "bit_len n = (if n = 0 then 0 else Suc (bit_len (n div 2)))"

declare bit_len.simps [simp del]

definition f32_pack :: "nat \<Rightarrow> nat \<Rightarrow> nat" where
  "f32_pack m k =
     (let e = max k (bit_len m - 24);
          q = m div 2 ^ e; r = m mod 2 ^ e;
          up = (2 * r > 2 ^ e \<or> 2 * r = 2 ^ e \<and> odd q);
          b = (e - k) * 2 ^ 23 + (if up then q + 1 else q)
      in min b 0x7F800000)"

definition f32_of :: "int \<Rightarrow> nat \<Rightarrow> f32" where
  "f32_of m k = (let b = of_nat (f32_pack (nat \<bar>m\<bar>) k)
                 in if m < 0 then set_bit 31 b else b)"

definition f32_nan :: f32 where
  "f32_nan = 0x7FC00000"

definition f32_neg :: "f32 \<Rightarrow> f32" where
  "f32_neg x = x XOR 0x80000000"

definition f32_add :: "f32 \<Rightarrow> f32 \<Rightarrow> f32" where
  "f32_add x y =
     (if f32_is_nan x \<or> f32_is_nan y then f32_nan
      else if f32_is_inf x then (if f32_is_inf y \<and> x \<noteq> y then f32_nan else x)
      else if f32_is_inf y then y
      else if x = 0x80000000 \<and> y = 0x80000000 then x
      else f32_of (f32_val x + f32_val y) 0)"

definition f32_sub :: "f32 \<Rightarrow> f32 \<Rightarrow> f32" where
  "f32_sub x y = f32_add x (f32_neg y)"

definition f32_mul :: "f32 \<Rightarrow> f32 \<Rightarrow> f32" where
  "f32_mul x y =
     (if f32_is_nan x \<or> f32_is_nan y
         \<or> f32_is_inf x \<and> f32_mag y = 0 \<or> f32_is_inf y \<and> f32_mag x = 0 then f32_nan
      else let b = (if f32_is_inf x \<or> f32_is_inf y then 0x7F800000
                    else of_nat (f32_pack (f32_units (f32_mag x) * f32_units (f32_mag y)) 149))
           in if f32_sign x \<noteq> f32_sign y then set_bit 31 b else b)"

text \<open>\<^verbatim>\<open>static_cast<float>\<close> of an integer.\<close>

definition f32_of_int :: "int \<Rightarrow> f32" where
  "f32_of_int n = f32_of (n * 2 ^ 149) 0"

text \<open>\<^verbatim>\<open>a > b\<close> on floats: false when either side is a NaN.\<close>

definition f32_gt :: "f32 \<Rightarrow> f32 \<Rightarrow> bool" where
  "f32_gt x y \<longleftrightarrow> \<not> f32_is_nan x \<and> \<not> f32_is_nan y \<and> f32_val x > f32_val y"

text \<open>
  Evaluation by the simplifier: with \<^verbatim>\<open>cong: let_weak_cong\<close> a \<^verbatim>\<open>let\<close> is
  unfolded once its value is a numeral.
\<close>

lemma let_bool: "Let True f = f True" "Let False f = f False"
  by simp_all

lemma bit_len_eval [simp]:
  "bit_len 0 = 0" "bit_len (Suc 0) = 1" "bit_len 1 = 1"
  "bit_len (numeral (num.Bit0 n)) = Suc (bit_len (numeral n))"
  "bit_len (numeral (num.Bit1 n)) = Suc (bit_len (numeral n))"
  by (subst bit_len.simps, simp)+

lemmas f32_eval = f32_of_int_def f32_of_def f32_pack_def f32_val_def f32_sign_def f32_units_def
  f32_mag_def f32_add_def f32_sub_def f32_neg_def f32_mul_def f32_is_nan_def f32_is_inf_def
  f32_nan_def f32_gt_def let_bool

lemma f32_constants:
  "f32_of_int 10 = 0x41200000" "f32_of_int (- 5) = 0xC0A00000"
  "f32_of (2 ^ 149) 1 = 0x3F000000" "f32_of_int (- 1000000000) = 0xCE6E6B28"
  "f32_add 0x41200000 0x3DCCCCCD = 0x4121999A"
  by (simp_all add: f32_eval cong: let_weak_cong)

section \<open>Rounding\<close>

text \<open>
  Half of a unit in the last place: the result of an addition is within one part in
  \<open>2 ^ 24\<close> of the exact sum.
\<close>

lemma bit_len_upper: "n < 2 ^ bit_len n"
proof (induction n rule: bit_len.induct)
  case (1 n)
  then show ?case by (cases "n = 0") (auto simp: bit_len.simps [of n])
qed

lemma bit_len_lower: "0 < n \<Longrightarrow> 2 ^ (bit_len n - 1) \<le> n"
proof (induction n rule: bit_len.induct)
  case (1 n)
  show ?case
  proof (cases "n = 1")
    case False
    then have "0 < n div 2" using 1(2) by linarith
    then have "2 ^ (bit_len (n div 2) - 1) \<le> n div 2" "0 < bit_len (n div 2)"
      using 1 by (simp_all add: bit_len.simps [of "n div 2"])
    then show ?thesis
      using 1(2) by (cases "bit_len (n div 2)") (simp_all add: bit_len.simps [of n])
  qed simp
qed

lemma units_of_parts:
  assumes "q \<le> 2 ^ 24" and "0 < e \<Longrightarrow> 2 ^ 23 \<le> q"
  shows "f32_units (e * 2 ^ 23 + q) = q * 2 ^ e"
proof -
  consider "q < 2 ^ 23" | "2 ^ 23 \<le> q" "q < 2 ^ 24" | "q = 2 ^ 24"
    using assms(1) by linarith
  then show ?thesis
  proof cases
    case 1
    then have "e = 0" using assms(2) by (cases e) auto
    with 1 show ?thesis by (simp add: f32_units_def)
  next
    case 2
    define f where "f = q - 2 ^ 23"
    have q: "q = 2 ^ 23 + f" "f < 2 ^ 23" using 2 by (simp_all add: f_def)
    have "(e * 2 ^ 23 + q) div 2 ^ 23 = Suc e" "(e * 2 ^ 23 + q) mod 2 ^ 23 = f"
      using q by simp_all
    then show ?thesis unfolding f32_units_def Let_def using q by simp
  next
    case 3
    have "(e * 2 ^ 23 + q) div 2 ^ 23 = e + 2" "(e * 2 ^ 23 + q) mod 2 ^ 23 = 0"
      unfolding 3 by simp_all
    then show ?thesis unfolding f32_units_def Let_def 3 by (simp add: power_add)
  qed
qed

lemma f32_pack_bounds:
  assumes "n < 2 ^ 200"
  shows "f32_pack n 0 < 0x7F800000"
    and "\<bar>int (f32_units (f32_pack n 0)) - int n\<bar> * 2 ^ 24 \<le> int n"
proof -
  define e where "e = bit_len n - 24"
  define q r where "q = n div 2 ^ e" and "r = n mod 2 ^ e"
  define q' where "q' = (if 2 * r > 2 ^ e \<or> 2 * r = 2 ^ e \<and> odd q then q + 1 else q)"
  have n: "n = q * 2 ^ e + r" unfolding q_def r_def by (rule div_mult_mod_eq [symmetric])
  have r: "r < 2 ^ e" by (simp add: r_def)
  have "n < 2 ^ (24 + e)"
    using bit_len_upper [of n] by (rule order.strict_trans2) (simp add: e_def)
  then have q: "q < 2 ^ 24"
    unfolding q_def by (intro less_mult_imp_div_less) (simp add: power_add)
  have lower: "2 ^ (23 + e) \<le> n" if "0 < e"
  proof -
    have "bit_len n - 1 = 23 + e" and "0 < n" using that bit_len_eval(1) by (auto simp: e_def intro: Suc_leI gr0I)
    then show ?thesis using bit_len_lower [of n] by simp
  qed
  have q23: "2 ^ 23 \<le> q" if "0 < e"
    using lower [OF that] unfolding q_def by (simp add: less_eq_div_iff_mult_less_eq power_add)
  have "bit_len n \<le> 200"
  proof (rule ccontr)
    assume "\<not> bit_len n \<le> 200"
    then have "0 < n" by (auto intro!: gr0I)
    moreover have "(2 :: nat) ^ 200 \<le> 2 ^ (bit_len n - 1)"
      using \<open>\<not> bit_len n \<le> 200\<close> by (intro power_increasing) simp_all
    ultimately show False using bit_len_lower [of n] assms by linarith
  qed
  then have e: "e \<le> 176" by (simp add: e_def)
  have q': "q' \<le> 2 ^ 24" "0 < e \<Longrightarrow> 2 ^ 23 \<le> q'" using q q23 by (auto simp: q'_def)
  have small: "e * 2 ^ 23 + q' < 0x7F800000"
    using mult_le_mono1 [OF e, of "2 ^ 23"] q'(1) by simp
  have pack: "f32_pack n 0 = e * 2 ^ 23 + q'"
  proof -
    have "f32_pack n 0 = min (e * 2 ^ 23 + q') 0x7F800000"
      unfolding f32_pack_def Let_def q'_def q_def r_def e_def max_0L diff_zero by (rule refl)
    then show ?thesis using small by simp
  qed
  show "f32_pack n 0 < 0x7F800000" using small by (simp only: pack)
  have units: "f32_units (f32_pack n 0) = q' * 2 ^ e"
    unfolding pack using q' by (rule units_of_parts)
  have "\<bar>int (q' * 2 ^ e) - int n\<bar> * 2 ^ 24 \<le> int n"
  proof (cases "e = 0")
    case True
    then show ?thesis using n r by (simp add: q'_def)
  next
    case False
    define E :: nat where "E = 2 ^ e"
    have "2 * \<bar>int (q' * E) - int (q * E + r)\<bar> \<le> int E"
      using r unfolding q'_def E_def [symmetric] by (auto simp: algebra_simps)
    then have "2 * \<bar>int (q' * 2 ^ e) - int n\<bar> \<le> 2 ^ e"
      unfolding n by (simp add: E_def)
    then have "\<bar>int (q' * 2 ^ e) - int n\<bar> * 2 ^ 24 \<le> 2 ^ e * 2 ^ 23" by simp
    also have "\<dots> = int (2 ^ (23 + e))" by (simp add: power_add)
    also have "\<dots> \<le> int n" using lower False by (simp only: of_nat_le_iff)
    finally show ?thesis .
  qed
  then show "\<bar>int (f32_units (f32_pack n 0)) - int n\<bar> * 2 ^ 24 \<le> int n" by (simp only: units)
qed

definition f32_finite :: "f32 \<Rightarrow> bool" where
  "f32_finite x \<longleftrightarrow> f32_mag x < 0x7F800000"

lemma f32_of_parts:
  assumes "f32_pack (nat \<bar>m\<bar>) 0 < 2 ^ 31"
  shows "f32_mag (f32_of m 0) = f32_pack (nat \<bar>m\<bar>) 0" and "f32_sign (f32_of m 0) \<longleftrightarrow> m < 0"
proof -
  define w :: f32 where "w = of_nat (f32_pack (nat \<bar>m\<bar>) 0)"
  have w: "unat w = f32_pack (nat \<bar>m\<bar>) 0"
    using assms by (simp add: w_def unat_of_nat)
  have "f32_mag w = unat w" using assms by (simp add: f32_mag_def w)
  moreover have "f32_mag (set_bit 31 w) = f32_mag w"
    unfolding f32_mag_def take_bit_eq_mod [symmetric] unsigned_take_bit_eq [symmetric]
    by (simp add: take_bit_set_bit_eq)
  ultimately show "f32_mag (f32_of m 0) = f32_pack (nat \<bar>m\<bar>) 0"
    by (simp add: f32_of_def w flip: w_def)
  have "\<not> bit (unat w) 31" using assms by (simp add: w bit_iff_odd)
  then have "\<not> bit w 31" by (simp add: bit_unsigned_iff)
  then show "f32_sign (f32_of m 0) \<longleftrightarrow> m < 0"
    by (simp add: f32_of_def f32_sign_def bit_set_bit_iff flip: w_def)
qed

lemma f32_of_rounds:
  assumes "\<bar>m\<bar> < 2 ^ 200"
  shows "f32_finite (f32_of m 0)" and "\<bar>f32_val (f32_of m 0) - m\<bar> * 2 ^ 24 \<le> \<bar>m\<bar>"
proof -
  have n: "nat \<bar>m\<bar> < 2 ^ 200" using assms by (simp add: nat_less_iff)
  have p: "f32_pack (nat \<bar>m\<bar>) 0 < 2 ^ 31" using f32_pack_bounds(1) [OF n] by simp
  show "f32_finite (f32_of m 0)"
    using f32_pack_bounds(1) [OF n] by (simp add: f32_finite_def f32_of_parts [OF p])
  show "\<bar>f32_val (f32_of m 0) - m\<bar> * 2 ^ 24 \<le> \<bar>m\<bar>"
  proof (cases "m < 0")
    case True
    have "\<bar>- u - m\<bar> = \<bar>u + m\<bar>" for u :: int by linarith
    then show ?thesis
      using True f32_pack_bounds(2) [OF n] by (simp add: f32_val_def f32_of_parts [OF p])
  next
    case False
    then show ?thesis
      using f32_pack_bounds(2) [OF n] by (simp add: f32_val_def f32_of_parts [OF p])
  qed
qed

lemma f32_add_rounds:
  assumes "f32_finite x" "f32_finite y" and "\<bar>f32_val x + f32_val y\<bar> < 2 ^ 200"
  shows "f32_finite (f32_add x y)"
    and "\<bar>f32_val (f32_add x y) - (f32_val x + f32_val y)\<bar> * 2 ^ 24 \<le> \<bar>f32_val x + f32_val y\<bar>"
proof -
  have "f32_finite (f32_add x y) \<and>
    \<bar>f32_val (f32_add x y) - (f32_val x + f32_val y)\<bar> * 2 ^ 24 \<le> \<bar>f32_val x + f32_val y\<bar>"
  proof (cases "x = 0x80000000 \<and> y = 0x80000000")
    case True
    then show ?thesis by (simp add: f32_eval f32_finite_def cong: let_weak_cong)
  next
    case False
    then have "f32_add x y = f32_of (f32_val x + f32_val y) 0"
      using assms(1,2) by (auto simp: f32_add_def f32_finite_def f32_is_nan_def f32_is_inf_def)
    then show ?thesis using f32_of_rounds [OF assms(3)] by simp
  qed
  then show "f32_finite (f32_add x y)"
    "\<bar>f32_val (f32_add x y) - (f32_val x + f32_val y)\<bar> * 2 ^ 24 \<le> \<bar>f32_val x + f32_val y\<bar>"
    by simp_all
qed

lemma f32_gt_finite: "f32_finite x \<Longrightarrow> f32_finite y \<Longrightarrow> f32_gt x y \<longleftrightarrow> f32_val x > f32_val y"
  by (simp add: f32_gt_def f32_finite_def f32_is_nan_def)

text \<open>Without NaNs, "greater than" is a strict weak order.\<close>

definition desc_no_nan :: "f32 \<times> 'a \<Rightarrow> f32 \<times> 'a \<Rightarrow> bool" where
  "desc_no_nan a b \<longleftrightarrow> f32_val (fst a) > f32_val (fst b)"

interpretation score_desc: compare desc_no_nan
  by unfold_locales (auto simp: desc_no_nan_def)

end
