(* ===== verification/Wire_Types.thy ===== *)
theory Wire_Types
  imports Float32
begin

text \<open>
  The message types of include/dafeng/types.h, shared by the client and the daemon, with
  the default values of their members.  A \<^verbatim>\<open>float\<close> is its bit pattern and a signed
  \<^verbatim>\<open>int32_t\<close> the word that \<^verbatim>\<open>sint\<close> reads.
\<close>

definition kProtocolVersion :: u32 where
  "kProtocolVersion = 1"

text \<open>
  An enum with the underlying type \<^verbatim>\<open>uint8_t\<close> can hold any byte; the values without
  an enumerator are \<open>kUnnamed\<close>.
\<close>

datatype MessageType = kInvalid | kRerankRequest | kRerankResponse | kCommitEvent | kPing | kPong
  | kError | kStatsRequest | kStatsResponse | kUnnamed byte

fun type_to_u8 :: "MessageType \<Rightarrow> byte" where
  "type_to_u8 kInvalid = 0"
| "type_to_u8 kRerankRequest = 1"
| "type_to_u8 kRerankResponse = 2"
| "type_to_u8 kCommitEvent = 3"
| "type_to_u8 kPing = 4"
| "type_to_u8 kPong = 5"
| "type_to_u8 kError = 6"
| "type_to_u8 kStatsRequest = 7"
| "type_to_u8 kStatsResponse = 8"
| "type_to_u8 (kUnnamed t) = t"

definition type_of_u8 :: "byte \<Rightarrow> MessageType" where
  "type_of_u8 t =
     (if t = 0 then kInvalid else if t = 1 then kRerankRequest else if t = 2 then kRerankResponse
      else if t = 3 then kCommitEvent else if t = 4 then kPing else if t = 5 then kPong
      else if t = 6 then kError else if t = 7 then kStatsRequest else if t = 8 then kStatsResponse
      else kUnnamed t)"

lemma type_to_of_u8 [simp]: "type_to_u8 (type_of_u8 t) = t"
  by (simp add: type_of_u8_def)

record RerankRequest =
  rq_request_id :: u32
  rq_code :: bytes
  rq_context_before :: bytes
  rq_candidates :: "bytes list"
  rq_app_id :: bytes

record RerankResponse =
  rs_request_id :: u32
  rs_reordered_indices :: "i32 list"
  rs_scores :: "f32 list"
  rs_latency_us :: u32
  rs_model_version :: byte

record CommitEvent =
  ev_code :: bytes
  ev_committed_text :: bytes
  ev_context_before :: bytes

record PingMessage =
  ping_request_id :: u32

record PongMessage =
  pong_request_id :: u32

record ErrorMessage =
  err_request_id :: u32
  err_code :: i32
  err_message :: bytes

record StatsRequest =
  sq_request_id :: u32

record StatsResponse =
  ss_request_id :: u32
  ss_rerank_count :: u64
  ss_ping_count :: u64
  ss_commit_count :: u64
  ss_error_count :: u64
  ss_rerank_latency_sum_us :: u64
  ss_rerank_latency_max_us :: u32
  ss_rerank_model_version :: byte
  ss_uptime_sec :: u64

definition RerankRequest_init :: RerankRequest where
  "RerankRequest_init = \<lparr>rq_request_id = 0, rq_code = [], rq_context_before = [],
     rq_candidates = [], rq_app_id = []\<rparr>"

definition RerankResponse_init :: RerankResponse where
  "RerankResponse_init = \<lparr>rs_request_id = 0, rs_reordered_indices = [], rs_scores = [],
     rs_latency_us = 0, rs_model_version = 0\<rparr>"

definition CommitEvent_init :: CommitEvent where
  "CommitEvent_init = \<lparr>ev_code = [], ev_committed_text = [], ev_context_before = []\<rparr>"

definition ErrorMessage_init :: ErrorMessage where
  "ErrorMessage_init = \<lparr>err_request_id = 0, err_code = 0, err_message = []\<rparr>"

definition StatsResponse_init :: StatsResponse where
  "StatsResponse_init = \<lparr>ss_request_id = 0, ss_rerank_count = 0, ss_ping_count = 0,
     ss_commit_count = 0, ss_error_count = 0, ss_rerank_latency_sum_us = 0,
     ss_rerank_latency_max_us = 0, ss_rerank_model_version = 0, ss_uptime_sec = 0\<rparr>"

lemmas msg_init_defs = RerankRequest_init_def RerankResponse_init_def CommitEvent_init_def
  ErrorMessage_init_def StatsResponse_init_def

text \<open>\<^verbatim>\<open>std::variant\<close> over the message types (include/dafeng/protocol.h).\<close>

datatype Message =
    M_RerankRequest RerankRequest
  | M_RerankResponse RerankResponse
  | M_CommitEvent CommitEvent
  | M_Ping PingMessage
  | M_Pong PongMessage
  | M_Error ErrorMessage
  | M_StatsRequest StatsRequest
  | M_StatsResponse StatsResponse

fun message_type :: "Message \<Rightarrow> MessageType" where
  "message_type (M_RerankRequest _) = kRerankRequest"
| "message_type (M_RerankResponse _) = kRerankResponse"
| "message_type (M_CommitEvent _) = kCommitEvent"
| "message_type (M_Ping _) = kPing"
| "message_type (M_Pong _) = kPong"
| "message_type (M_Error _) = kError"
| "message_type (M_StatsRequest _) = kStatsRequest"
| "message_type (M_StatsResponse _) = kStatsResponse"

end
