(* ===== verification/Msgpack_Api.thy ===== *)
theory Msgpack_Api
  imports Wire_Types
begin

text \<open>
  The interface of the third-party msgpack library as protocol.cc uses it.  The library is
  not part of the repository: its packer, its \<^verbatim>\<open>unpack\<close> and its \<^verbatim>\<open>convert\<close>
  functions are fields of the record \<open>msgpack\<close>, an argument of every definition that uses
  them, and the locale \<open>msgpack_api\<close> states what its documentation promises of them.
\<close>

section \<open>Objects and packer calls\<close>

text \<open>\<^verbatim>\<open>msgpack::object\<close>, by its \<^verbatim>\<open>type\<close> tag.  Negative integers are two's complement.\<close>

datatype mp_object =
    MP_NIL
  | MP_BOOLEAN bool
  | MP_POSITIVE_INTEGER u64
  | MP_NEGATIVE_INTEGER u64
  | MP_FLOAT32 f32
  | MP_FLOAT64 u64
  | MP_STR bytes
  | MP_BIN bytes
  | MP_ARRAY "mp_object list"
  | MP_MAP "(mp_object \<times> mp_object) list"
  | MP_EXT byte bytes

text \<open>One call of \<^verbatim>\<open>msgpack::packer\<close>: each appends bytes to the buffer.\<close>

datatype mp_call =
    pack_map u32
  | pack_str u32
  | pack_str_body bytes
  | pack_u8 byte
  | pack_u32 u32
  | pack_u64 u64
  | pack_i32 i32
  | pack_string bytes
  | pack_strings "bytes list"
  | pack_i32s "i32 list"
  | pack_f32s "f32 list"

text \<open>
  \<^verbatim>\<open>convert(out)\<close> either succeeds with a new value of \<^verbatim>\<open>out\<close>, or throws, and then
  leaves some value in \<^verbatim>\<open>out\<close> (a vector may have been filled in part).
\<close>

type_synonym 'a mp_conv = "mp_object \<Rightarrow> 'a \<Rightarrow> bool \<times> 'a"

record msgpack =
  mp_bytes :: "mp_call list \<Rightarrow> bytes"
  mp_unpack :: "bytes \<Rightarrow> mp_object option"
  mp_u8 :: "byte mp_conv"
  mp_u32 :: "u32 mp_conv"
  mp_u64 :: "u64 mp_conv"
  mp_i32 :: "i32 mp_conv"
  mp_string :: "bytes mp_conv"
  mp_strings :: "bytes list mp_conv"
  mp_i32s :: "i32 list mp_conv"
  mp_f32s :: "f32 list mp_conv"

section \<open>The object a sequence of calls writes\<close>

definition fits_u32 :: "'a list \<Rightarrow> bool" where
  "fits_u32 xs \<longleftrightarrow> length xs < 2 ^ 32"

definition i32_object :: "i32 \<Rightarrow> mp_object" where
  "i32_object n = (if 0 \<le>s n then MP_POSITIVE_INTEGER (ucast n) else MP_NEGATIVE_INTEGER (scast n))"

fun call_object :: "mp_call \<Rightarrow> mp_object option" where
  "call_object (pack_u8 n) = Some (MP_POSITIVE_INTEGER (ucast n))"
| "call_object (pack_u32 n) = Some (MP_POSITIVE_INTEGER (ucast n))"
| "call_object (pack_u64 n) = Some (MP_POSITIVE_INTEGER n)"
| "call_object (pack_i32 n) = Some (i32_object n)"
| "call_object (pack_string s) = (if fits_u32 s then Some (MP_STR s) else None)"
| "call_object (pack_strings ss) =
     (if fits_u32 ss \<and> list_all fits_u32 ss then Some (MP_ARRAY (map MP_STR ss)) else None)"
| "call_object (pack_i32s ns) = (if fits_u32 ns then Some (MP_ARRAY (map i32_object ns)) else None)"
| "call_object (pack_f32s fs) = (if fits_u32 fs then Some (MP_ARRAY (map MP_FLOAT32 fs)) else None)"
| "call_object _ = None"

text \<open>Key/value pairs whose keys are written as \<^verbatim>\<open>pack_str\<close> plus \<^verbatim>\<open>pack_str_body\<close>.\<close>

fun entry_objects :: "mp_call list \<Rightarrow> (mp_object \<times> mp_object) list option" where
  "entry_objects [] = Some []"
| "entry_objects (pack_str n # pack_str_body k # v # cs) =
     (if unat n = length k then
        (case (call_object v, entry_objects cs) of
           (Some ov, Some es) \<Rightarrow> Some ((MP_STR k, ov) # es)
         | _ \<Rightarrow> None)
      else None)"
| "entry_objects _ = None"

fun calls_object :: "mp_call list \<Rightarrow> mp_object option" where
  "calls_object (pack_map n # cs) =
     (case entry_objects cs of
        Some es \<Rightarrow> if length es = unat n then Some (MP_MAP es) else None
      | None \<Rightarrow> None)"
| "calls_object _ = None"

section \<open>What the library documents\<close>

locale msgpack_api =
  fixes mp :: msgpack
  assumes unpack_packed: "calls_object cs = Some ob \<Longrightarrow> mp_unpack mp (mp_bytes mp cs) = Some ob"
    and packed_nonempty: "calls_object cs = Some ob \<Longrightarrow> mp_bytes mp cs \<noteq> []"
    and conv_u8: "mp_u8 mp (MP_POSITIVE_INTEGER (ucast (n8 :: byte))) out8 = (True, n8)"
    and conv_u32: "mp_u32 mp (MP_POSITIVE_INTEGER (ucast (n32 :: u32))) out32 = (True, n32)"
    and conv_u64: "mp_u64 mp (MP_POSITIVE_INTEGER n64) out64 = (True, n64)"
    and conv_i32: "mp_i32 mp (i32_object i) outi = (True, i)"
    and conv_string: "mp_string mp (MP_STR s) outs = (True, s)"
    and conv_strings: "mp_strings mp (MP_ARRAY (map MP_STR ss)) outss = (True, ss)"
    and conv_i32s: "mp_i32s mp (MP_ARRAY (map i32_object js)) outis = (True, js)"
    and conv_f32s: "mp_f32s mp (MP_ARRAY (map MP_FLOAT32 fs)) outfs = (True, fs)"
begin

lemmas conv_laws = conv_u8 conv_u32 conv_u64 conv_i32 conv_string conv_strings conv_i32s conv_f32s

end

end
