(* ===== verification/Wire_Protocol.thy ===== *)
theory Wire_Protocol
  imports Msgpack_Api
begin

unbundle bit_operations_syntax

text \<open>
  src/common/protocol.cc: message bodies as MessagePack maps keyed by short strings, and
  the frame of a 4-byte big-endian length in front of a body.  \<open>X_calls\<close> are the packer
  calls of the overload of \<^verbatim>\<open>EncodeBody\<close> for the message type \<open>X\<close>.
\<close>

section \<open>Keys\<close>

definition kKeyVersion :: string where "kKeyVersion = ''v''"
definition kKeyType :: string where "kKeyType = ''t''"
definition kKeyId :: string where "kKeyId = ''id''"
definition kKeyCode :: string where "kKeyCode = ''code''"
definition kKeyContext :: string where "kKeyContext = ''ctx''"
definition kKeyCandidates :: string where "kKeyCandidates = ''cands''"
definition kKeyAppId :: string where "kKeyAppId = ''app''"
definition kKeyOrder :: string where "kKeyOrder = ''order''"
definition kKeyScores :: string where "kKeyScores = ''scores''"
definition kKeyLatencyUs :: string where "kKeyLatencyUs = ''lat_us''"
definition kKeyModelVersion :: string where "kKeyModelVersion = ''mver''"
definition kKeyText :: string where "kKeyText = ''text''"
definition kKeyErrCode :: string where "kKeyErrCode = ''ec''"
definition kKeyErrMsg :: string where "kKeyErrMsg = ''em''"
definition kKeyRerankCount :: string where "kKeyRerankCount = ''rc''"
definition kKeyPingCount :: string where "kKeyPingCount = ''pc''"
definition kKeyCommitCount :: string where "kKeyCommitCount = ''cc''"
definition kKeyErrorCount :: string where "kKeyErrorCount = ''ec_total''"
definition kKeyRerankLatSum :: string where "kKeyRerankLatSum = ''rls''"
definition kKeyRerankLatMax :: string where "kKeyRerankLatMax = ''rlmax''"
definition kKeyRerankModelVer :: string where "kKeyRerankModelVer = ''rmv''"
definition kKeyUptimeSec :: string where "kKeyUptimeSec = ''ut''"

lemmas key_defs [wire_simps] = kKeyVersion_def kKeyType_def kKeyId_def kKeyCode_def kKeyContext_def
  kKeyCandidates_def kKeyAppId_def kKeyOrder_def kKeyScores_def kKeyLatencyUs_def
  kKeyModelVersion_def kKeyText_def kKeyErrCode_def kKeyErrMsg_def kKeyRerankCount_def
  kKeyPingCount_def kKeyCommitCount_def kKeyErrorCount_def kKeyRerankLatSum_def
  kKeyRerankLatMax_def kKeyRerankModelVer_def kKeyUptimeSec_def

section \<open>Encoders\<close>

definition PackKey :: "string \<Rightarrow> mp_call list" where
  "PackKey key = [pack_str (of_nat (length key)), pack_str_body (lit key)]"

definition PackHeader :: "MessageType \<Rightarrow> mp_call list" where
  "PackHeader t = PackKey kKeyVersion @ [pack_u32 kProtocolVersion]
     @ PackKey kKeyType @ [pack_u8 (type_to_u8 t)]"

definition RerankRequest_calls :: "RerankRequest \<Rightarrow> mp_call list" where
  "RerankRequest_calls m = [pack_map 7] @ PackHeader kRerankRequest
     @ PackKey kKeyId @ [pack_u32 (rq_request_id m)]
     @ PackKey kKeyCode @ [pack_string (rq_code m)]
     @ PackKey kKeyContext @ [pack_string (rq_context_before m)]
     @ PackKey kKeyCandidates @ [pack_strings (rq_candidates m)]
     @ PackKey kKeyAppId @ [pack_string (rq_app_id m)]"

definition RerankResponse_calls :: "RerankResponse \<Rightarrow> mp_call list" where
  "RerankResponse_calls m = [pack_map 7] @ PackHeader kRerankResponse
     @ PackKey kKeyId @ [pack_u32 (rs_request_id m)]
     @ PackKey kKeyOrder @ [pack_i32s (rs_reordered_indices m)]
     @ PackKey kKeyScores @ [pack_f32s (rs_scores m)]
     @ PackKey kKeyLatencyUs @ [pack_u32 (rs_latency_us m)]
     @ PackKey kKeyModelVersion @ [pack_u8 (rs_model_version m)]"

definition CommitEvent_calls :: "CommitEvent \<Rightarrow> mp_call list" where
  "CommitEvent_calls m = [pack_map 5] @ PackHeader kCommitEvent
     @ PackKey kKeyCode @ [pack_string (ev_code m)]
     @ PackKey kKeyText @ [pack_string (ev_committed_text m)]
     @ PackKey kKeyContext @ [pack_string (ev_context_before m)]"

definition PingMessage_calls :: "PingMessage \<Rightarrow> mp_call list" where
  "PingMessage_calls m = [pack_map 3] @ PackHeader kPing
     @ PackKey kKeyId @ [pack_u32 (ping_request_id m)]"

definition PongMessage_calls :: "PongMessage \<Rightarrow> mp_call list" where
  "PongMessage_calls m = [pack_map 3] @ PackHeader kPong
     @ PackKey kKeyId @ [pack_u32 (pong_request_id m)]"

definition ErrorMessage_calls :: "ErrorMessage \<Rightarrow> mp_call list" where
  "ErrorMessage_calls m = [pack_map 5] @ PackHeader kError
     @ PackKey kKeyId @ [pack_u32 (err_request_id m)]
     @ PackKey kKeyErrCode @ [pack_i32 (err_code m)]
     @ PackKey kKeyErrMsg @ [pack_string (err_message m)]"

definition StatsRequest_calls :: "StatsRequest \<Rightarrow> mp_call list" where
  "StatsRequest_calls m = [pack_map 3] @ PackHeader kStatsRequest
     @ PackKey kKeyId @ [pack_u32 (sq_request_id m)]"

definition StatsResponse_calls :: "StatsResponse \<Rightarrow> mp_call list" where
  "StatsResponse_calls m = [pack_map 11] @ PackHeader kStatsResponse
     @ PackKey kKeyId @ [pack_u32 (ss_request_id m)]
     @ PackKey kKeyRerankCount @ [pack_u64 (ss_rerank_count m)]
     @ PackKey kKeyPingCount @ [pack_u64 (ss_ping_count m)]
     @ PackKey kKeyCommitCount @ [pack_u64 (ss_commit_count m)]
     @ PackKey kKeyErrorCount @ [pack_u64 (ss_error_count m)]
     @ PackKey kKeyRerankLatSum @ [pack_u64 (ss_rerank_latency_sum_us m)]
     @ PackKey kKeyRerankLatMax @ [pack_u32 (ss_rerank_latency_max_us m)]
     @ PackKey kKeyRerankModelVer @ [pack_u8 (ss_rerank_model_version m)]
     @ PackKey kKeyUptimeSec @ [pack_u64 (ss_uptime_sec m)]"

lemmas calls_defs = RerankRequest_calls_def RerankResponse_calls_def CommitEvent_calls_def
  PingMessage_calls_def PongMessage_calls_def ErrorMessage_calls_def StatsRequest_calls_def
  StatsResponse_calls_def PackHeader_def PackKey_def

fun encode_calls :: "Message \<Rightarrow> mp_call list" where
  "encode_calls (M_RerankRequest m) = RerankRequest_calls m"
| "encode_calls (M_RerankResponse m) = RerankResponse_calls m"
| "encode_calls (M_CommitEvent m) = CommitEvent_calls m"
| "encode_calls (M_Ping m) = PingMessage_calls m"
| "encode_calls (M_Pong m) = PongMessage_calls m"
| "encode_calls (M_Error m) = ErrorMessage_calls m"
| "encode_calls (M_StatsRequest m) = StatsRequest_calls m"
| "encode_calls (M_StatsResponse m) = StatsResponse_calls m"

definition EncodeBody :: "msgpack \<Rightarrow> Message \<Rightarrow> bytes" where
  "EncodeBody mp m = mp_bytes mp (encode_calls m)"

section \<open>Decoder\<close>

definition kMaxFrameBodyBytes :: nat where
  "kMaxFrameBodyBytes = 2 ^ 20"

definition kFrameHeaderBytes :: nat where
  "kFrameHeaderBytes = 4"

definition KeyEquals :: "mp_object \<times> mp_object \<Rightarrow> string \<Rightarrow> bool" where
  "KeyEquals kv literal = (case fst kv of MP_STR s \<Rightarrow> s = lit literal | _ \<Rightarrow> False)"

text \<open>
  \<^verbatim>\<open>MapGet\<close>: the first entry with the key decides; the result is the returned flag and
  what \<^verbatim>\<open>out\<close> holds afterwards.
\<close>

fun map_scan :: "'a mp_conv \<Rightarrow> (mp_object \<times> mp_object) list \<Rightarrow> string \<Rightarrow> 'a \<Rightarrow> bool \<times> 'a" where
  "map_scan conv [] key out = (False, out)"
| "map_scan conv (kv # kvs) key out =
     (if KeyEquals kv key then conv (snd kv) out else map_scan conv kvs key out)"

definition MapGet :: "'a mp_conv \<Rightarrow> mp_object \<Rightarrow> string \<Rightarrow> 'a \<Rightarrow> bool \<times> 'a" where
  "MapGet conv ob key out = (case ob of MP_MAP kvs \<Rightarrow> map_scan conv kvs key out | _ \<Rightarrow> (False, out))"

text \<open>The decoder ignores the flag: a missing or mistyped field keeps what \<^verbatim>\<open>out\<close> holds.\<close>

definition field :: "'a mp_conv \<Rightarrow> mp_object \<Rightarrow> string \<Rightarrow> 'a \<Rightarrow> 'a" where
  "field conv ob key out = snd (MapGet conv ob key out)"

definition MapGetType :: "msgpack \<Rightarrow> mp_object \<Rightarrow> MessageType option" where
  "MapGetType mp ob =
     (case MapGet (mp_u8 mp) ob kKeyType 0 of
        (True, t) \<Rightarrow> Some (type_of_u8 t)
      | (False, _) \<Rightarrow> None)"

definition decode_object :: "msgpack \<Rightarrow> mp_object \<Rightarrow> MessageType \<Rightarrow> Message option" where
  "decode_object mp ob t =
     (case t of
        kRerankRequest \<Rightarrow> Some (M_RerankRequest
          \<lparr>rq_request_id = field (mp_u32 mp) ob kKeyId (rq_request_id RerankRequest_init),
           rq_code = field (mp_string mp) ob kKeyCode (rq_code RerankRequest_init),
           rq_context_before = field (mp_string mp) ob kKeyContext (rq_context_before RerankRequest_init),
           rq_candidates = field (mp_strings mp) ob kKeyCandidates (rq_candidates RerankRequest_init),
           rq_app_id = field (mp_string mp) ob kKeyAppId (rq_app_id RerankRequest_init)\<rparr>)
      | kRerankResponse \<Rightarrow> Some (M_RerankResponse
          \<lparr>rs_request_id = field (mp_u32 mp) ob kKeyId (rs_request_id RerankResponse_init),
           rs_reordered_indices = field (mp_i32s mp) ob kKeyOrder (rs_reordered_indices RerankResponse_init),
           rs_scores = field (mp_f32s mp) ob kKeyScores (rs_scores RerankResponse_init),
           rs_latency_us = field (mp_u32 mp) ob kKeyLatencyUs (rs_latency_us RerankResponse_init),
           rs_model_version = field (mp_u8 mp) ob kKeyModelVersion (rs_model_version RerankResponse_init)\<rparr>)
      | kCommitEvent \<Rightarrow> Some (M_CommitEvent
          \<lparr>ev_code = field (mp_string mp) ob kKeyCode (ev_code CommitEvent_init),
           ev_committed_text = field (mp_string mp) ob kKeyText (ev_committed_text CommitEvent_init),
           ev_context_before = field (mp_string mp) ob kKeyContext (ev_context_before CommitEvent_init)\<rparr>)
      | kPing \<Rightarrow> Some (M_Ping \<lparr>ping_request_id = field (mp_u32 mp) ob kKeyId 0\<rparr>)
      | kPong \<Rightarrow> Some (M_Pong \<lparr>pong_request_id = field (mp_u32 mp) ob kKeyId 0\<rparr>)
      | kError \<Rightarrow> Some (M_Error
          \<lparr>err_request_id = field (mp_u32 mp) ob kKeyId (err_request_id ErrorMessage_init),
           err_code = field (mp_i32 mp) ob kKeyErrCode (err_code ErrorMessage_init),
           err_message = field (mp_string mp) ob kKeyErrMsg (err_message ErrorMessage_init)\<rparr>)
      | kStatsRequest \<Rightarrow> Some (M_StatsRequest \<lparr>sq_request_id = field (mp_u32 mp) ob kKeyId 0\<rparr>)
      | kStatsResponse \<Rightarrow> Some (M_StatsResponse
          \<lparr>ss_request_id = field (mp_u32 mp) ob kKeyId (ss_request_id StatsResponse_init),
           ss_rerank_count = field (mp_u64 mp) ob kKeyRerankCount (ss_rerank_count StatsResponse_init),
           ss_ping_count = field (mp_u64 mp) ob kKeyPingCount (ss_ping_count StatsResponse_init),
           ss_commit_count = field (mp_u64 mp) ob kKeyCommitCount (ss_commit_count StatsResponse_init),
           ss_error_count = field (mp_u64 mp) ob kKeyErrorCount (ss_error_count StatsResponse_init),
           ss_rerank_latency_sum_us =
             field (mp_u64 mp) ob kKeyRerankLatSum (ss_rerank_latency_sum_us StatsResponse_init),
           ss_rerank_latency_max_us =
             field (mp_u32 mp) ob kKeyRerankLatMax (ss_rerank_latency_max_us StatsResponse_init),
           ss_rerank_model_version =
             field (mp_u8 mp) ob kKeyRerankModelVer (ss_rerank_model_version StatsResponse_init),
           ss_uptime_sec = field (mp_u64 mp) ob kKeyUptimeSec (ss_uptime_sec StatsResponse_init)\<rparr>)
      | kInvalid \<Rightarrow> None
      | kUnnamed _ \<Rightarrow> None)"

definition DecodeBody :: "msgpack \<Rightarrow> bytes \<Rightarrow> Message option" where
  "DecodeBody mp data =
     (if length data = 0 \<or> length data > kMaxFrameBodyBytes then None
      else case mp_unpack mp data of
        None \<Rightarrow> None
      | Some ob \<Rightarrow> (case MapGetType mp ob of None \<Rightarrow> None | Some t \<Rightarrow> decode_object mp ob t))"

definition PeekMessageType :: "msgpack \<Rightarrow> bytes \<Rightarrow> MessageType option" where
  "PeekMessageType mp data =
     (if length data = 0 \<or> length data > kMaxFrameBodyBytes then None
      else case mp_unpack mp data of None \<Rightarrow> None | Some ob \<Rightarrow> MapGetType mp ob)"

section \<open>Decoding is inverse to encoding\<close>

text \<open>Strings and vectors whose lengths the format can express.\<close>

fun message_fits :: "Message \<Rightarrow> bool" where
  "message_fits (M_RerankRequest m) \<longleftrightarrow> fits_u32 (rq_code m) \<and> fits_u32 (rq_context_before m)
     \<and> fits_u32 (rq_candidates m) \<and> list_all fits_u32 (rq_candidates m) \<and> fits_u32 (rq_app_id m)"
| "message_fits (M_RerankResponse m) \<longleftrightarrow> fits_u32 (rs_reordered_indices m) \<and> fits_u32 (rs_scores m)"
| "message_fits (M_CommitEvent m) \<longleftrightarrow> fits_u32 (ev_code m) \<and> fits_u32 (ev_committed_text m)
     \<and> fits_u32 (ev_context_before m)"
| "message_fits (M_Error m) \<longleftrightarrow> fits_u32 (err_message m)"
| "message_fits _ \<longleftrightarrow> True"

text \<open>The entries of the map that the encoder writes, version and type first.\<close>

fun message_entries :: "Message \<Rightarrow> (string \<times> mp_object) list" where
  "message_entries (M_RerankRequest m) =
     [(kKeyId, MP_POSITIVE_INTEGER (ucast (rq_request_id m))), (kKeyCode, MP_STR (rq_code m)),
      (kKeyContext, MP_STR (rq_context_before m)),
      (kKeyCandidates, MP_ARRAY (map MP_STR (rq_candidates m))), (kKeyAppId, MP_STR (rq_app_id m))]"
| "message_entries (M_RerankResponse m) =
     [(kKeyId, MP_POSITIVE_INTEGER (ucast (rs_request_id m))),
      (kKeyOrder, MP_ARRAY (map i32_object (rs_reordered_indices m))),
      (kKeyScores, MP_ARRAY (map MP_FLOAT32 (rs_scores m))),
      (kKeyLatencyUs, MP_POSITIVE_INTEGER (ucast (rs_latency_us m))),
      (kKeyModelVersion, MP_POSITIVE_INTEGER (ucast (rs_model_version m)))]"
| "message_entries (M_CommitEvent m) =
     [(kKeyCode, MP_STR (ev_code m)), (kKeyText, MP_STR (ev_committed_text m)),
      (kKeyContext, MP_STR (ev_context_before m))]"
| "message_entries (M_Ping m) = [(kKeyId, MP_POSITIVE_INTEGER (ucast (ping_request_id m)))]"
| "message_entries (M_Pong m) = [(kKeyId, MP_POSITIVE_INTEGER (ucast (pong_request_id m)))]"
| "message_entries (M_Error m) =
     [(kKeyId, MP_POSITIVE_INTEGER (ucast (err_request_id m))), (kKeyErrCode, i32_object (err_code m)),
      (kKeyErrMsg, MP_STR (err_message m))]"
| "message_entries (M_StatsRequest m) = [(kKeyId, MP_POSITIVE_INTEGER (ucast (sq_request_id m)))]"
| "message_entries (M_StatsResponse m) =
     [(kKeyId, MP_POSITIVE_INTEGER (ucast (ss_request_id m))),
      (kKeyRerankCount, MP_POSITIVE_INTEGER (ss_rerank_count m)),
      (kKeyPingCount, MP_POSITIVE_INTEGER (ss_ping_count m)),
      (kKeyCommitCount, MP_POSITIVE_INTEGER (ss_commit_count m)),
      (kKeyErrorCount, MP_POSITIVE_INTEGER (ss_error_count m)),
      (kKeyRerankLatSum, MP_POSITIVE_INTEGER (ss_rerank_latency_sum_us m)),
      (kKeyRerankLatMax, MP_POSITIVE_INTEGER (ucast (ss_rerank_latency_max_us m))),
      (kKeyRerankModelVer, MP_POSITIVE_INTEGER (ucast (ss_rerank_model_version m))),
      (kKeyUptimeSec, MP_POSITIVE_INTEGER (ss_uptime_sec m))]"

definition message_object :: "Message \<Rightarrow> mp_object" where
  "message_object m = MP_MAP (map (\<lambda>(k, v). (MP_STR (lit k), v))
     ((kKeyVersion, MP_POSITIVE_INTEGER (ucast kProtocolVersion))
      # (kKeyType, MP_POSITIVE_INTEGER (ucast (type_to_u8 (message_type m))))
      # message_entries m))"

lemma calls_object_encode: "message_fits m \<Longrightarrow> calls_object (encode_calls m) = Some (message_object m)"
  by (cases m) (simp_all add: calls_defs key_defs message_object_def)

lemma type_of_to_u8: "type_of_u8 (type_to_u8 (message_type m)) = message_type m"
  by (cases m) (simp_all add: type_of_u8_def)

context msgpack_api
begin

lemma MapGetType_message [simp]: "MapGetType mp (message_object m) = Some (message_type m)"
  by (simp add: MapGetType_def MapGet_def message_object_def KeyEquals_def key_defs
      conv_u8 type_of_to_u8)

lemma decode_object_message: "decode_object mp (message_object m) (message_type m) = Some m"
  by (cases m) (simp_all add: decode_object_def field_def MapGet_def message_object_def
      KeyEquals_def key_defs conv_laws)

lemma decode_encode:
  assumes "message_fits m" and "length (EncodeBody mp m) \<le> kMaxFrameBodyBytes"
  shows "DecodeBody mp (EncodeBody mp m) = Some m"
proof -
  have ob: "calls_object (encode_calls m) = Some (message_object m)"
    using assms(1) by (rule calls_object_encode)
  show ?thesis
    using assms(2) unpack_packed [OF ob] packed_nonempty [OF ob]
    by (simp add: DecodeBody_def EncodeBody_def decode_object_message)
qed

lemma peek_encode:
  assumes "message_fits m" and "length (EncodeBody mp m) \<le> kMaxFrameBodyBytes"
  shows "PeekMessageType mp (EncodeBody mp m) = Some (message_type m)"
proof -
  have ob: "calls_object (encode_calls m) = Some (message_object m)"
    using assms(1) by (rule calls_object_encode)
  show ?thesis
    using assms(2) unpack_packed [OF ob] packed_nonempty [OF ob]
    by (simp add: PeekMessageType_def EncodeBody_def)
qed

end

section \<open>Frames\<close>

definition WriteFrameLength :: "u32 \<Rightarrow> bytes" where
  "WriteFrameLength n =
     [ucast (drop_bit 24 n AND 0xFF), ucast (drop_bit 16 n AND 0xFF),
      ucast (drop_bit 8 n AND 0xFF), ucast (n AND 0xFF)]"

definition ReadFrameLength :: "bytes \<Rightarrow> u32 option" where
  "ReadFrameLength header =
     (if length header < kFrameHeaderBytes then None
      else let len = push_bit 24 (ucast (header ! 0)) OR push_bit 16 (ucast (header ! 1))
                     OR push_bit 8 (ucast (header ! 2)) OR ucast (header ! 3)
           in if len = 0 \<or> unat len > kMaxFrameBodyBytes then None else Some len)"

definition EncodeFrame :: "bytes \<Rightarrow> bytes" where
  "EncodeFrame body = WriteFrameLength (of_nat (length body)) @ body"

lemma ReadFrameLength_Write:
  "ReadFrameLength (WriteFrameLength w @ r)
     = (if w = 0 \<or> unat w > kMaxFrameBodyBytes then None else Some w)"
  using frame_word_split [of w]
  by (simp add: ReadFrameLength_def WriteFrameLength_def kFrameHeaderBytes_def Let_def)

end
