(* ===== verification/Connection_Api.thy ===== *)
theory Connection_Api
  imports Dafeng_Prelude "HOL-Library.Sublist"
begin

text \<open>
  The interface \<^verbatim>\<open>Connection\<close> of include/dafeng/endpoint.h.  Server and client use a
  connection only through the record \<open>conn_ops\<close>; the locale \<open>connection\<close> is what they
  rely on.  \<open>incoming\<close> are the bytes the peer still delivers and \<open>outgoing\<close> the bytes
  that have been handed to the peer: an operation that reports success has moved exactly the
  requested bytes, and one that fails may have moved a part of them.
\<close>

record 'c conn_ops =
  ReadFull :: "'c \<Rightarrow> nat \<Rightarrow> 'c \<times> bytes option"
  WriteAll :: "'c \<Rightarrow> bytes \<Rightarrow> 'c \<times> bool"
  Close :: "'c \<Rightarrow> 'c"
  IsConnected :: "'c \<Rightarrow> bool"

locale connection =
  fixes ops :: "'c conn_ops"
    and incoming :: "'c \<Rightarrow> bytes"
    and outgoing :: "'c \<Rightarrow> bytes"
  assumes read_ok: "ReadFull ops c n = (c', Some bs) \<Longrightarrow>
      length bs = n \<and> incoming c = bs @ incoming c' \<and> outgoing c' = outgoing c"
    and read_fail: "ReadFull ops c n = (c', None) \<Longrightarrow>
      suffix (incoming c') (incoming c) \<and> outgoing c' = outgoing c"
    and write_ok: "WriteAll ops c bs = (c', True) \<Longrightarrow>
      outgoing c' = outgoing c @ bs \<and> incoming c' = incoming c"
    and write_fail: "WriteAll ops c bs = (c', False) \<Longrightarrow>
      (\<exists>pre. prefix pre bs \<and> outgoing c' = outgoing c @ pre) \<and> incoming c' = incoming c"
    and close_streams: "incoming (Close ops c) = incoming c \<and> outgoing (Close ops c) = outgoing c"
    and closed: "\<not> IsConnected ops (Close ops c)"
    and closed_read: "\<not> IsConnected ops c \<Longrightarrow> ReadFull ops c n = (c, None)"
    and closed_write: "\<not> IsConnected ops c \<Longrightarrow> WriteAll ops c bs = (c, False)"
begin

lemma read_shrinks:
  "ReadFull ops c n = (c', Some bs) \<Longrightarrow> length (incoming c') + n = length (incoming c)"
  using read_ok by fastforce

lemma read_outgoing: "ReadFull ops c n = (c', r) \<Longrightarrow> outgoing c' = outgoing c"
  using read_ok read_fail by (cases r) blast+

lemma read_none_or_enough: "length (incoming c) < n \<Longrightarrow> snd (ReadFull ops c n) = None"
  using read_shrinks [of c n] by (cases "ReadFull ops c n"; cases "snd (ReadFull ops c n)") fastforce+

end

end
