(* ===== verification/Frame_IO.thy ===== *)
theory Frame_IO
  imports Wire_Protocol Connection_Api
begin

text \<open>
  Whole messages over a connection, as server.cc and client.cc read and write them: four
  header bytes, the body, its decoding.  \<open>next_message\<close> is the specification of reading on
  the byte stream itself, and \<open>messages\<close> all the messages in front of a stream up to the
  first frame that is incomplete, refused or malformed.
\<close>

definition frame :: "msgpack \<Rightarrow> Message \<Rightarrow> bytes" where
  "frame mp m = EncodeFrame (EncodeBody mp m)"

definition read_message ::
    "msgpack \<Rightarrow> 'c conn_ops \<Rightarrow> 'c \<Rightarrow> 'c \<times> Message option" where
  "read_message mp ops c =
     (case ReadFull ops c kFrameHeaderBytes of
        (c1, None) \<Rightarrow> (c1, None)
      | (c1, Some header) \<Rightarrow>
          (case ReadFrameLength header of
             None \<Rightarrow> (c1, None)
           | Some len \<Rightarrow>
               (case ReadFull ops c1 (unat len) of
                  (c2, None) \<Rightarrow> (c2, None)
                | (c2, Some body) \<Rightarrow> (c2, DecodeBody mp body))))"

definition write_message :: "msgpack \<Rightarrow> 'c conn_ops \<Rightarrow> 'c \<Rightarrow> Message \<Rightarrow> 'c \<times> bool" where
  "write_message mp ops c m = WriteAll ops c (frame mp m)"

definition next_message :: "msgpack \<Rightarrow> bytes \<Rightarrow> (Message \<times> bytes) option" where
  "next_message mp s =
     (if length s < kFrameHeaderBytes then None
      else case ReadFrameLength (take kFrameHeaderBytes s) of
        None \<Rightarrow> None
      | Some len \<Rightarrow>
          (if length s < kFrameHeaderBytes + unat len then None
           else map_option (\<lambda>m. (m, drop (kFrameHeaderBytes + unat len) s))
                  (DecodeBody mp (take (unat len) (drop kFrameHeaderBytes s)))))"

lemma next_message_shrinks: "next_message mp s = Some (m, r) \<Longrightarrow> length r < length s"
  by (auto simp: next_message_def kFrameHeaderBytes_def split: if_splits option.splits)

lemma next_message_split:
  "next_message mp s = Some (m, r) \<Longrightarrow> \<exists>p. s = p @ r \<and> length p \<ge> kFrameHeaderBytes"
  by (rule exI [of _ "take (length s - length r) s"])
    (auto simp: next_message_def split: if_splits option.splits)

function messages :: "msgpack \<Rightarrow> bytes \<Rightarrow> Message list" where
  "messages mp s = (case next_message mp s of None \<Rightarrow> [] | Some (m, r) \<Rightarrow> m # messages mp r)"
  by pat_completeness auto
termination
  by (relation "measure (\<lambda>(mp, s). length s)") (auto dest: next_message_shrinks)

declare messages.simps [simp del]

lemma messages_step: "next_message mp s = Some (m, r) \<Longrightarrow> messages mp s = m # messages mp r"
  by (subst messages.simps) simp

lemma messages_stop: "next_message mp s = None \<Longrightarrow> messages mp s = []"
  by (subst messages.simps) simp

text \<open>Messages that can be sent: their body is decodable and within the cap.\<close>

definition sendable :: "msgpack \<Rightarrow> Message \<Rightarrow> bool" where
  "sendable mp m \<longleftrightarrow> message_fits m \<and> length (EncodeBody mp m) \<le> kMaxFrameBodyBytes"

context msgpack_api
begin

lemma body_nonempty: "message_fits m \<Longrightarrow> EncodeBody mp m \<noteq> []"
  unfolding EncodeBody_def by (rule packed_nonempty [OF calls_object_encode])

lemma frame_parts:
  assumes "sendable mp m"
  shows "length (frame mp m) = kFrameHeaderBytes + length (EncodeBody mp m)"
    and "take kFrameHeaderBytes (frame mp m @ r) = WriteFrameLength (of_nat (length (EncodeBody mp m)))"
    and "drop kFrameHeaderBytes (frame mp m @ r) = EncodeBody mp m @ r"
    and "unat (of_nat (length (EncodeBody mp m)) :: u32) = length (EncodeBody mp m)"
  using assms
  by (simp_all add: frame_def EncodeFrame_def WriteFrameLength_def kFrameHeaderBytes_def sendable_def
      kMaxFrameBodyBytes_def unat_of_nat)

lemma frame_length:
  assumes "sendable mp m"
  shows "ReadFrameLength (take kFrameHeaderBytes (frame mp m @ r)) = Some (of_nat (length (EncodeBody mp m)))"
proof -
  let ?w = "of_nat (length (EncodeBody mp m)) :: u32"
  have "unat ?w \<noteq> 0" using body_nonempty assms by (simp add: frame_parts(4) sendable_def)
  then have "?w \<noteq> 0" by (metis unat_0)
  moreover have "unat ?w \<le> kMaxFrameBodyBytes" using assms by (simp add: frame_parts(4) sendable_def)
  ultimately show ?thesis
    unfolding frame_parts(2) [OF assms] using ReadFrameLength_Write [of ?w "[]"] by simp
qed

lemma next_message_frame:
  assumes "sendable mp m"
  shows "next_message mp (frame mp m @ r) = Some (m, r)"
  using assms frame_parts [OF assms] frame_length [OF assms, of r]
    frame_parts(3) [OF assms, of r, unfolded drop_append]
  by (simp add: next_message_def decode_encode sendable_def flip: drop_drop)

lemma next_message_cut:
  assumes "sendable mp m" and "strict_prefix s (frame mp m)"
  shows "next_message mp s = None"
proof (rule ccontr)
  assume "next_message mp s \<noteq> None"
  then have len: "length s \<ge> kFrameHeaderBytes" by (auto simp: next_message_def split: if_splits)
  obtain t where t: "frame mp m = s @ t" "t \<noteq> []"
    using assms(2) by (auto elim: strict_prefixE')
  then have "take kFrameHeaderBytes s = take kFrameHeaderBytes (frame mp m @ [])"
    using len by simp
  then have "ReadFrameLength (take kFrameHeaderBytes s) = Some (of_nat (length (EncodeBody mp m)))"
    using frame_length [OF assms(1), of "[]"] by simp
  moreover have "length s < kFrameHeaderBytes + length (EncodeBody mp m)"
    using t frame_parts(1) [OF assms(1)] by (cases t) auto
  ultimately show False
    using \<open>next_message mp s \<noteq> None\<close> frame_parts(4) [OF assms(1)]
    by (simp add: next_message_def split: if_splits)
qed

lemma messages_frames:
  "list_all (sendable mp) ms \<Longrightarrow> messages mp (concat (map (frame mp) ms) @ r) = ms @ messages mp r"
  by (induction ms) (simp_all add: messages_step [OF next_message_frame])

end

context connection
begin

lemma read_message_ok:
  assumes "read_message mp ops c = (c', Some m)"
  shows "next_message mp (incoming c) = Some (m, incoming c') \<and> outgoing c' = outgoing c"
proof -
  obtain c1 header len body where
    r: "ReadFull ops c kFrameHeaderBytes = (c1, Some header)" "ReadFrameLength header = Some len"
      "ReadFull ops c1 (unat len) = (c', Some body)" "DecodeBody mp body = Some m"
    using assms by (auto simp: read_message_def split: prod.splits option.splits)
  have "length header = kFrameHeaderBytes" "length body = unat len"
    "incoming c = header @ body @ incoming c'" "outgoing c' = outgoing c"
    using read_ok [OF r(1)] read_ok [OF r(3)] by auto
  then show ?thesis using r by (simp add: next_message_def)
qed

lemma read_message_fail:
  assumes "read_message mp ops c = (c', None)"
  shows "outgoing c' = outgoing c"
  using assms read_outgoing
  by (auto simp: read_message_def split: prod.splits option.splits)

end

end
