(* ===== verification/Rerankers.thy ===== *)
theory Rerankers
  imports Wire_Types Utf8_Text Text_Output
begin

text \<open>
  The rerank backends of the daemon (src/daemon/mock_reranker.cc,
  reranker_deterministic.cc, reranker_mlx.cc, reranker_llamacpp.cc, the two stubs) and the
  choice between them in \<^verbatim>\<open>BuildReranker\<close> of main.cc.  A service is a function of
  the measured latency and the request.  The locale \<open>reranker\<close> is the contract of
  \<^verbatim>\<open>IRerankService\<close>: the reply carries the request's id and the order is a permutation
  of the candidates.  Every backend interprets it.  The libraries mlx-c and llama.cpp are
  records of their functions.
\<close>

type_synonym service = "u32 \<Rightarrow> RerankRequest \<Rightarrow> RerankResponse"

section \<open>The contract\<close>

definition few_candidates :: "RerankRequest \<Rightarrow> bool" where
  "few_candidates req \<longleftrightarrow> length (rq_candidates req) < 2 ^ 31"

text \<open>\<^verbatim>\<open>const int n = static_cast<int>(req.candidates.size())\<close>.\<close>

definition cand_count :: "RerankRequest \<Rightarrow> int" where
  "cand_count req = sint (of_nat (length (rq_candidates req)) :: i32)"

definition order_of :: "RerankResponse \<Rightarrow> nat list" where
  "order_of resp = map unat (rs_reordered_indices resp)"

locale reranker =
  fixes rerank :: service
  assumes keeps_id: "rs_request_id (rerank lat req) = rq_request_id req"
    and permutes: "few_candidates req \<Longrightarrow>
      mset (order_of (rerank lat req)) = mset [0..<length (rq_candidates req)]"
    and scores_fit: "rs_scores (rerank lat req) = []
      \<or> length (rs_scores (rerank lat req)) = length (rs_reordered_indices (rerank lat req))"
begin

lemma order_length:
  assumes "few_candidates req"
  shows "length (rs_reordered_indices (rerank lat req)) = length (rq_candidates req)"
  using arg_cong [OF permutes [OF assms], of size] by (simp add: order_of_def)

lemma order_distinct: "few_candidates req \<Longrightarrow> distinct (order_of (rerank lat req))"
  by (metis permutes mset_eq_imp_distinct_iff distinct_upt)

lemma order_set:
  "few_candidates req \<Longrightarrow> set (order_of (rerank lat req)) = {..<length (rq_candidates req)}"
  by (metis permutes mset_eq_set atLeast_upt)

lemma reordered_candidates:
  assumes "few_candidates req"
  shows "mset (map ((!) (rq_candidates req)) (order_of (rerank lat req))) = mset (rq_candidates req)"
  using assms by (intro permutation_of_upt permutes)

end

lemma cand_count_small: "few_candidates req \<Longrightarrow> cand_count req = int (length (rq_candidates req))"
  unfolding cand_count_def few_candidates_def
  by (simp add: signed_of_nat signed_take_bit_int_eq_self)

lemma unat_of_nat_i32: "i < 2 ^ 31 \<Longrightarrow> unat (of_nat i :: i32) = i"
  by (simp add: unat_of_nat)

lemma order_of_nats:
  assumes "few_candidates req" and "mset is = mset [0..<length (rq_candidates req)]"
  shows "map (\<lambda>i. unat (of_nat i :: i32)) is = is"
proof (rule map_idI)
  fix i assume "i \<in> set is"
  then have "i < length (rq_candidates req)" using mset_eq_set [OF assms(2)] by simp
  with assms(1) show "unat (of_nat i :: i32) = i"
    by (intro unat_of_nat_i32) (simp add: few_candidates_def)
qed

section \<open>Mock: the list reversed\<close>

definition MockReverse_Rerank :: service where
  "MockReverse_Rerank lat req = RerankResponse_init
     \<lparr>rs_request_id := rq_request_id req,
      rs_reordered_indices := map word_of_int (rev [0..cand_count req - 1]),
      rs_latency_us := lat, rs_model_version := 0\<rparr>"

section \<open>The deterministic backend\<close>

definition kBigrams :: "(bytes \<times> bytes) list" where
  "kBigrams = [
     ([0xE4, 0xBB, 0x8A], [0xE5, 0xA4, 0xA9]), ([0xE4, 0xBB, 0x8A], [0xE6, 0x97, 0xA5]),
     ([0xE4, 0xBB, 0x8A], [0xE5, 0xB9, 0xB4]), ([0xE6, 0x98, 0x8E], [0xE5, 0xA4, 0xA9]),
     ([0xE6, 0x98, 0x8E], [0xE5, 0xB9, 0xB4]), ([0xE6, 0x98, 0x8E], [0xE7, 0x99, 0xBD]),
     ([0xE6, 0x98, 0xA8], [0xE5, 0xA4, 0xA9]), ([0xE5, 0x89, 0x8D], [0xE5, 0xA4, 0xA9]),
     ([0xE5, 0x90, 0x8E], [0xE5, 0xA4, 0xA9]), ([0xE5, 0xA4, 0xA9], [0xE6, 0xB0, 0x94]),
     ([0xE5, 0xA4, 0xA9], [0xE4, 0xB8, 0x8A]), ([0xE5, 0xA4, 0xA9], [0xE7, 0xA9, 0xBA]),
     ([0xE6, 0x88, 0x91], [0xE4, 0xBB, 0xAC]), ([0xE6, 0x88, 0x91], [0xE7, 0x9A, 0x84]),
     ([0xE6, 0x88, 0x91], [0xE6, 0x98, 0xAF]), ([0xE4, 0xBD, 0xA0], [0xE4, 0xBB, 0xAC]),
     ([0xE4, 0xBD, 0xA0], [0xE7, 0x9A, 0x84]), ([0xE4, 0xBD, 0xA0], [0xE6, 0x98, 0xAF]),
     ([0xE4, 0xBD, 0xA0], [0xE5, 0xA5, 0xBD]), ([0xE4, 0xBB, 0x96], [0xE4, 0xBB, 0xAC]),
     ([0xE5, 0xA5, 0xB9], [0xE4, 0xBB, 0xAC]), ([0xE5, 0xAE, 0x83], [0xE4, 0xBB, 0xAC]),
     ([0xE4, 0xB8, 0xAD], [0xE5, 0x9B, 0xBD]), ([0xE4, 0xB8, 0xAD], [0xE6, 0x96, 0x87]),
     ([0xE4, 0xB8, 0xAD], [0xE9, 0x97, 0xB4]), ([0xE4, 0xB8, 0x80], [0xE4, 0xB8, 0xAA]),
     ([0xE4, 0xB8, 0x80], [0xE4, 0xBA, 0x9B]), ([0xE4, 0xB8, 0x80], [0xE6, 0xA0, 0xB7]),
     ([0xE4, 0xB8, 0x80], [0xE7, 0x9B, 0xB4]), ([0xE6, 0x98, 0xAF], [0xE7, 0x9A, 0x84]),
     ([0xE7, 0x9A, 0x84], [0xE6, 0x98, 0xAF]), ([0xE7, 0x9A, 0x84], [0xE8, 0xAF, 0x9D]),
     ([0xE8, 0xBF, 0x99], [0xE4, 0xB8, 0xAA]), ([0xE8, 0xBF, 0x99], [0xE6, 0x98, 0xAF]),
     ([0xE8, 0xBF, 0x99], [0xE4, 0xBA, 0x9B]), ([0xE8, 0xBF, 0x99], [0xE6, 0xA0, 0xB7]),
     ([0xE9, 0x82, 0xA3], [0xE4, 0xB8, 0xAA]), ([0xE9, 0x82, 0xA3], [0xE6, 0x98, 0xAF]),
     ([0xE9, 0x82, 0xA3], [0xE4, 0xBA, 0x9B]), ([0xE9, 0x82, 0xA3], [0xE6, 0xA0, 0xB7]),
     ([0xE4, 0xBB, 0x80], [0xE4, 0xB9, 0x88]), ([0xE6, 0x80, 0x8E], [0xE4, 0xB9, 0x88]),
     ([0xE4, 0xB8, 0xBA], [0xE4, 0xBB, 0x80]), ([0xE5, 0xB7, 0xA5], [0xE4, 0xBD, 0x9C]),
     ([0xE5, 0xAD, 0xA6], [0xE4, 0xB9, 0xA0]), ([0xE6, 0x97, 0xB6], [0xE5, 0x80, 0x99]),
     ([0xE9, 0x97, 0xAE], [0xE9, 0xA2, 0x98]), ([0xE5, 0x9C, 0xB0], [0xE6, 0x96, 0xB9]),
     ([0xE4, 0xB8, 0x9C], [0xE8, 0xA5, 0xBF]), ([0xE5, 0xBC, 0x80], [0xE5, 0xA7, 0x8B]),
     ([0xE7, 0xBB, 0x93], [0xE6, 0x9D, 0x9F]), ([0xE7, 0x9F, 0xA5], [0xE9, 0x81, 0x93])]"

definition FnvHash :: "bytes \<Rightarrow> u32" where
  "FnvHash s = foldl (\<lambda>h c. (h XOR ucast c) * 0x01000193) 0x811C9DC5 s"

text \<open>\<^verbatim>\<open>strlen\<close> stops at the first NUL of a string.\<close>

definition StartsWith :: "bytes \<Rightarrow> bytes \<Rightarrow> bool" where
  "StartsWith s pre \<longleftrightarrow> length (c_str pre) \<le> length s \<and> take (length (c_str pre)) s = c_str pre"

definition repeats :: "bytes \<Rightarrow> bytes \<Rightarrow> bool" where
  "repeats cand last_char \<longleftrightarrow> cand \<noteq> [] \<and> last_char \<noteq> [] \<and> StartsWith cand last_char"

definition bigram_hit :: "bytes \<Rightarrow> bytes \<Rightarrow> bool" where
  "bigram_hit cand last_char \<longleftrightarrow> last_char \<noteq> []
     \<and> list_ex (\<lambda>(prev, favor). last_char = prev \<and> StartsWith cand favor) kBigrams"

text \<open>\<^verbatim>\<open>0.1f\<close> is \<open>0x3DCCCCCD\<close>, \<^verbatim>\<open>0.5f\<close> is \<open>0x3F000000\<close>.\<close>

definition length_bonus :: "bytes \<Rightarrow> f32" where
  "length_bonus cand = f32_mul 0x3F000000 (f32_of_int (min (sint (of_nat (length cand) :: i32)) 12))"

definition tie_breaker :: "bytes \<Rightarrow> bytes \<Rightarrow> f32" where
  "tie_breaker cand full_ctx = f32_mul (f32_of_int (uint (FnvHash (cand @ full_ctx) mod 7))) 0x3DCCCCCD"

definition ScoreCandidate :: "bytes \<Rightarrow> bytes \<Rightarrow> bytes \<Rightarrow> f32" where
  "ScoreCandidate cand last_char full_ctx =
     (let s0 = 0;
          s1 = (if repeats cand last_char then f32_sub s0 (f32_of_int 5) else s0);
          s2 = (if bigram_hit cand last_char then f32_add s1 (f32_of_int 10) else s1);
          s3 = f32_add s2 (length_bonus cand)
      in f32_add s3 (tie_breaker cand full_ctx))"

definition by_score_desc :: "f32 \<times> nat \<Rightarrow> f32 \<times> nat \<Rightarrow> bool" where
  "by_score_desc a b \<longleftrightarrow> f32_gt (fst a) (fst b)"

definition det_scored :: "RerankRequest \<Rightarrow> (f32 \<times> nat) list" where
  "det_scored req =
     (let last_char = LastUtf8Char (rq_context_before req)
      in map (\<lambda>i. (ScoreCandidate (rq_candidates req ! i) last_char (rq_context_before req), i))
           [0..<nat (cand_count req)])"

definition Deterministic_Rerank :: service where
  "Deterministic_Rerank lat req =
     (let resp = RerankResponse_init \<lparr>rs_request_id := rq_request_id req, rs_model_version := 1\<rparr>
      in if cand_count req = 0 then resp
         else let scored = sort_by by_score_desc (det_scored req)
              in resp \<lparr>rs_reordered_indices := map (of_nat \<circ> snd) scored,
                       rs_scores := map fst scored, rs_latency_us := lat\<rparr>)"

section \<open>MLX\<close>

text \<open>
  The mlx-c library and the file system: whether the model file exists, whether the header
  was present at compile time, the two return codes and the data of the smoke test.
\<close>

record mlx =
  mlx_exists :: "bytes \<Rightarrow> bool"
  mlx_have_c :: bool
  mlx_multiply_rc :: int
  mlx_eval_rc :: int
  mlx_data :: "(f32 \<times> f32) option"

definition MlxSmokeTest :: "mlx \<Rightarrow> bool" where
  "MlxSmokeTest lib \<longleftrightarrow> mlx_multiply_rc lib = 0 \<and> mlx_eval_rc lib = 0
     \<and> (case mlx_data lib of None \<Rightarrow> False | Some (x, y) \<Rightarrow> x = f32_of_int 1 \<and> y = f32_of_int 4)"

definition MLX_Initialize :: "mlx \<Rightarrow> bytes \<Rightarrow> bool" where
  "MLX_Initialize lib model_path \<longleftrightarrow> model_path \<noteq> [] \<and> mlx_exists lib model_path
     \<and> mlx_have_c lib \<and> MlxSmokeTest lib"

text \<open>The fallback's latency is overwritten by the measurement around the whole call.\<close>

definition MLX_Rerank :: "bool \<Rightarrow> service" where
  "MLX_Rerank ready lat req = (Deterministic_Rerank 0 req)
     \<lparr>rs_model_version := (if ready then 2 else 1), rs_latency_us := lat\<rparr>"

definition MakeMLXRerankService :: "mlx \<Rightarrow> bytes \<Rightarrow> service option" where
  "MakeMLXRerankService lib model_path =
     (if MLX_Initialize lib model_path then Some (MLX_Rerank True) else None)"

section \<open>llama.cpp\<close>

type_synonym token = int

record llama =
  ll_exists :: "bytes \<Rightarrow> bool"
  ll_model_ok :: "bytes \<Rightarrow> bool"
  ll_context_ok :: "bytes \<Rightarrow> bool"
  ll_count :: "bytes \<Rightarrow> bool \<Rightarrow> int"
  ll_tokenize :: "bytes \<Rightarrow> bool \<Rightarrow> nat \<Rightarrow> int \<times> token list"
  ll_bos :: token
  ll_decode :: "token list \<Rightarrow> int"
  ll_logits :: "token list \<Rightarrow> (token \<Rightarrow> f32) option"
  ll_n_tokens :: int

definition LLAMA_TOKEN_NULL :: token where
  "LLAMA_TOKEN_NULL = -1"

definition kMaxPromptTokens :: nat where
  "kMaxPromptTokens = 256"

text \<open>
  \<open>ll_count\<close> is \<^verbatim>\<open>llama_tokenize\<close> without a buffer (minus the size it needs),
  \<open>ll_tokenize\<close> the call with a buffer of that size: its result and the buffer.
\<close>

definition Tokenize :: "llama \<Rightarrow> bytes \<Rightarrow> bool \<Rightarrow> token list" where
  "Tokenize lib s add_bos =
     (if s = [] then []
      else let needed = - ll_count lib s add_bos
           in if needed \<le> 0 then []
              else (case ll_tokenize lib s add_bos (nat needed) of
                 (got, out) \<Rightarrow> if got < 0 then [] else take (nat got) (out @ replicate (nat got) 0)))"

definition prompt_tokens :: "llama \<Rightarrow> bytes \<Rightarrow> token list" where
  "prompt_tokens lib ctx =
     (let ts = Tokenize lib ctx True;
          ts' = (if ts = [] \<and> ll_bos lib \<noteq> LLAMA_TOKEN_NULL then [ll_bos lib] else ts)
      in drop (length ts' - kMaxPromptTokens) ts')"

text \<open>\<^verbatim>\<open>-1e9f\<close>, the sink of the candidates without a usable first token.\<close>

definition kSinkScore :: f32 where
  "kSinkScore = 0xCE6E6B28"

definition llama_score :: "llama \<Rightarrow> (token \<Rightarrow> f32) \<Rightarrow> bytes \<Rightarrow> f32" where
  "llama_score lib logits cand =
     (case Tokenize lib cand False of
        [] \<Rightarrow> kSinkScore
      | first # _ \<Rightarrow> if first < 0 \<or> first \<ge> ll_n_tokens lib then kSinkScore else logits first)"

definition ScoreCandidates :: "llama \<Rightarrow> RerankRequest \<Rightarrow> (f32 \<times> nat) list" where
  "ScoreCandidates lib req =
     (let prompt = prompt_tokens lib (rq_context_before req)
      in if prompt = [] then []
         else if ll_decode lib prompt \<noteq> 0 then []
         else case ll_logits lib prompt of
             None \<Rightarrow> []
           | Some logits \<Rightarrow>
               map (\<lambda>i. (llama_score lib logits (rq_candidates req ! i), i)) [0..<nat (cand_count req)])"

definition LlamaCpp_Rerank :: "llama \<Rightarrow> service" where
  "LlamaCpp_Rerank lib lat req =
     (let resp = RerankResponse_init \<lparr>rs_request_id := rq_request_id req, rs_model_version := 3\<rparr>
      in if cand_count req = 0 then resp
         else let scored = ScoreCandidates lib req;
                  resp' = (if scored \<noteq> []
                    then (let sorted = sort_by by_score_desc scored
                          in resp \<lparr>rs_reordered_indices := map (of_nat \<circ> snd) sorted,
                                   rs_scores := map fst sorted\<rparr>)
                    else resp \<lparr>rs_reordered_indices := map word_of_int [0..cand_count req - 1]\<rparr>)
              in resp' \<lparr>rs_latency_us := lat\<rparr>)"

definition LlamaCpp_Initialize :: "llama \<Rightarrow> bytes \<Rightarrow> bool" where
  "LlamaCpp_Initialize lib model_path \<longleftrightarrow> model_path \<noteq> [] \<and> ll_exists lib model_path
     \<and> ll_model_ok lib model_path \<and> ll_context_ok lib model_path"

definition MakeLlamaCppRerankService :: "llama \<Rightarrow> bytes \<Rightarrow> service option" where
  "MakeLlamaCppRerankService lib model_path =
     (if LlamaCpp_Initialize lib model_path then Some (LlamaCpp_Rerank lib) else None)"

section \<open>Choice of the backend\<close>

text \<open>The two stubs of builds without the libraries.\<close>

definition MakeMLXRerankService_stub :: "bytes \<Rightarrow> service option" where
  "MakeMLXRerankService_stub model_path = None"

definition MakeLlamaCppRerankService_stub :: "bytes \<Rightarrow> service option" where
  "MakeLlamaCppRerankService_stub model_path = None"

datatype BackendKind = kMock | kDeterministic | kMLX | kLlamaCpp

text \<open>The build links either the real factory of a backend or its stub.\<close>

datatype 'lib linked = Real 'lib | Stub

definition make_mlx :: "mlx linked \<Rightarrow> bytes \<Rightarrow> service option" where
  "make_mlx l = (case l of Real lib \<Rightarrow> MakeMLXRerankService lib | Stub \<Rightarrow> MakeMLXRerankService_stub)"

definition make_llama :: "llama linked \<Rightarrow> bytes \<Rightarrow> service option" where
  "make_llama l =
     (case l of Real lib \<Rightarrow> MakeLlamaCppRerankService lib | Stub \<Rightarrow> MakeLlamaCppRerankService_stub)"

definition BuildReranker ::
    "mlx linked \<Rightarrow> llama linked \<Rightarrow> BackendKind \<Rightarrow> bytes \<Rightarrow> service" where
  "BuildReranker mlx_l llama_l kind model_path =
     (case kind of
        kMock \<Rightarrow> MockReverse_Rerank
      | kDeterministic \<Rightarrow> Deterministic_Rerank
      | kMLX \<Rightarrow> (case make_mlx mlx_l model_path of
          None \<Rightarrow> Deterministic_Rerank | Some svc \<Rightarrow> svc)
      | kLlamaCpp \<Rightarrow> (case make_llama llama_l model_path of
          None \<Rightarrow> Deterministic_Rerank | Some svc \<Rightarrow> svc))"

section \<open>Every backend keeps the contract\<close>

lemma upto_upt: "[0..int n - 1] = map int [0..<n]"
  by (rule nth_equalityI) simp_all

lemma upto_order:
  assumes "few_candidates req"
  shows "map (\<lambda>i. unat (word_of_int i :: i32)) [0..cand_count req - 1] = [0..<length (rq_candidates req)]"
  using order_of_nats [OF assms, of "[0..<length (rq_candidates req)]"]
  by (simp only: cand_count_small [OF assms] upto_upt) (simp add: comp_def)

interpretation mock: reranker MockReverse_Rerank
proof
  fix lat req
  show "rs_request_id (MockReverse_Rerank lat req) = rq_request_id req"
    by (simp add: MockReverse_Rerank_def)
  show "mset (order_of (MockReverse_Rerank lat req)) = mset [0..<length (rq_candidates req)]"
    if "few_candidates req"
    by (simp add: MockReverse_Rerank_def order_of_def rev_map comp_def upto_order [OF that]
        flip: rev_map)
qed (simp add: MockReverse_Rerank_def RerankResponse_init_def)

text \<open>A list of scored indices, sorted by any comparison, is a permutation.\<close>

lemma scored_perm:
  assumes "map snd scored = [0..<n]"
  shows "mset (map snd (sort_by lt scored)) = mset [0..<n]"
  unfolding assms [symmetric] by (simp only: mset_map mset_sort_by)

lemma scored_order:
  assumes "few_candidates req" and "map snd scored = [0..<length (rq_candidates req)]"
  shows "map (\<lambda>p. unat (of_nat (snd p) :: i32)) (sort_by lt scored) = map snd (sort_by lt scored)"
  using order_of_nats [OF assms(1) scored_perm [OF assms(2)], of lt] by (simp only: map_map comp_def)

lemma det_scored_snd:
  "few_candidates req \<Longrightarrow> map snd (det_scored req) = [0..<length (rq_candidates req)]"
  by (simp add: det_scored_def Let_def comp_def cand_count_small)

lemma order_det:
  assumes "few_candidates req"
  shows "order_of (Deterministic_Rerank lat req) = map snd (sort_by by_score_desc (det_scored req))"
proof (cases "rq_candidates req = []")
  case True
  then show ?thesis
    by (simp add: Deterministic_Rerank_def order_of_def cand_count_def RerankResponse_init_def
        det_scored_def Let_def)
next
  case False
  then show ?thesis
    using scored_order [OF assms det_scored_snd [OF assms], of by_score_desc]
    by (simp add: Deterministic_Rerank_def order_of_def Let_def comp_def cand_count_small [OF assms])
qed

interpretation det: reranker Deterministic_Rerank
proof
  fix lat req
  show "rs_request_id (Deterministic_Rerank lat req) = rq_request_id req"
    by (simp add: Deterministic_Rerank_def Let_def)
  show "mset (order_of (Deterministic_Rerank lat req)) = mset [0..<length (rq_candidates req)]"
    if few: "few_candidates req"
    unfolding order_det [OF few] by (rule scored_perm [OF det_scored_snd [OF few]])
qed (simp add: Deterministic_Rerank_def Let_def RerankResponse_init_def)

lemma order_mlx: "order_of (MLX_Rerank ready lat req) = order_of (Deterministic_Rerank 0 req)"
  by (simp add: MLX_Rerank_def order_of_def)

interpretation mlx: reranker "MLX_Rerank ready" for ready
proof
  fix lat req
  show "mset (order_of (MLX_Rerank ready lat req)) = mset [0..<length (rq_candidates req)]"
    if "few_candidates req"
    unfolding order_mlx using that by (rule det.permutes)
  show "rs_scores (MLX_Rerank ready lat req) = []
      \<or> length (rs_scores (MLX_Rerank ready lat req)) = length (rs_reordered_indices (MLX_Rerank ready lat req))"
    using det.scores_fit [of 0 req] by (simp add: MLX_Rerank_def)
qed (simp add: MLX_Rerank_def det.keeps_id)

lemma ScoreCandidates_snd:
  "few_candidates req \<Longrightarrow> ScoreCandidates lib req \<noteq> [] \<Longrightarrow>
     map snd (ScoreCandidates lib req) = [0..<length (rq_candidates req)]"
  by (auto simp: ScoreCandidates_def Let_def comp_def cand_count_small split: if_splits option.splits)

lemma order_llama:
  assumes "few_candidates req"
  shows "order_of (LlamaCpp_Rerank lib lat req) =
    (if ScoreCandidates lib req = [] then [0..<length (rq_candidates req)]
     else map snd (sort_by by_score_desc (ScoreCandidates lib req)))"
proof (cases "rq_candidates req = []")
  case True
  then show ?thesis
    by (simp add: LlamaCpp_Rerank_def order_of_def cand_count_def RerankResponse_init_def
        ScoreCandidates_def Let_def split: option.splits)
next
  case False
  then show ?thesis
    using scored_order [OF assms ScoreCandidates_snd [OF assms], of lib by_score_desc]
      upto_order [OF assms]
    by (simp add: LlamaCpp_Rerank_def order_of_def Let_def comp_def cand_count_small [OF assms])
qed

interpretation llama: reranker "LlamaCpp_Rerank lib" for lib
proof
  fix lat req
  show "rs_request_id (LlamaCpp_Rerank lib lat req) = rq_request_id req"
    by (simp add: LlamaCpp_Rerank_def Let_def)
  show "mset (order_of (LlamaCpp_Rerank lib lat req)) = mset [0..<length (rq_candidates req)]"
    if few: "few_candidates req"
    unfolding order_llama [OF few]
    using scored_perm [OF ScoreCandidates_snd [OF few]] by (simp only: split: if_splits) blast
qed (simp add: LlamaCpp_Rerank_def Let_def RerankResponse_init_def)

text \<open>Whatever the build and the model file, \<^verbatim>\<open>BuildReranker\<close> gives such a service.\<close>

lemma BuildReranker_cases:
  "BuildReranker mlx_l llama_l kind path
     \<in> {MockReverse_Rerank, Deterministic_Rerank, MLX_Rerank True} \<union> range LlamaCpp_Rerank"
  by (auto simp: BuildReranker_def make_mlx_def make_llama_def MakeMLXRerankService_def
      MakeLlamaCppRerankService_def MakeMLXRerankService_stub_def MakeLlamaCppRerankService_stub_def
      split: BackendKind.splits linked.splits option.splits if_splits)

interpretation built: reranker "BuildReranker mlx_l llama_l kind path" for mlx_l llama_l kind path
  using BuildReranker_cases [of mlx_l llama_l kind path]
  by (auto intro: mock.reranker_axioms det.reranker_axioms mlx.reranker_axioms llama.reranker_axioms)

end
