(* ===== verification/Server.thy ===== *)
theory Server
  imports Frame_IO Rerankers "HOL-Library.Monad_Syntax"
begin

text \<open>
  src/daemon/server.cc: the counters, the handling of one message and the loop of one
  connection.  The backend, the clock (latency of a call, uptime) and the commit logger are
  the record \<open>server_env\<close>.  \<open>serve\<close> is the abstract server: a fold over a list of
  messages that gives the final counters and the replies in order.  The loop is proved to
  refine it for every connection that keeps the contract of \<open>connection\<close>.
\<close>

section \<open>State\<close>

text \<open>\<open>sv_tick\<close> numbers the handled messages, so that the clock can differ between them.\<close>

record 'l Server =
  sv_rerank_count :: u64
  sv_ping_count :: u64
  sv_commit_count :: u64
  sv_error_count :: u64
  sv_rerank_latency_sum_us :: u64
  sv_rerank_latency_max_us :: u32
  sv_rerank_model_version :: byte
  sv_log :: 'l
  sv_tick :: nat

record 'l server_env =
  se_rerank :: service
  se_latency :: "nat \<Rightarrow> u32"
  se_uptime :: "nat \<Rightarrow> u64"
  se_record :: "CommitEvent \<Rightarrow> 'l \<Rightarrow> 'l"

definition Server_init :: "'l \<Rightarrow> 'l Server" where
  "Server_init l = \<lparr>sv_rerank_count = 0, sv_ping_count = 0, sv_commit_count = 0, sv_error_count = 0,
     sv_rerank_latency_sum_us = 0, sv_rerank_latency_max_us = 0, sv_rerank_model_version = 0,
     sv_log = l, sv_tick = 0\<rparr>"

definition GetStats :: "'l server_env \<Rightarrow> 'l Server \<Rightarrow> StatsResponse" where
  "GetStats env st = StatsResponse_init
     \<lparr>ss_rerank_count := sv_rerank_count st, ss_ping_count := sv_ping_count st,
      ss_commit_count := sv_commit_count st, ss_error_count := sv_error_count st,
      ss_rerank_latency_sum_us := sv_rerank_latency_sum_us st,
      ss_rerank_latency_max_us := sv_rerank_latency_max_us st,
      ss_rerank_model_version := sv_rerank_model_version st,
      ss_uptime_sec := se_uptime env (sv_tick st)\<rparr>"

section \<open>One message\<close>

text \<open>The compare-and-swap loop, run without interference, leaves the larger value.\<close>

definition count_rerank :: "RerankResponse \<Rightarrow> 'l Server \<Rightarrow> 'l Server" where
  "count_rerank resp st = st
     \<lparr>sv_rerank_count := sv_rerank_count st + 1,
      sv_rerank_latency_sum_us := sv_rerank_latency_sum_us st + ucast (rs_latency_us resp),
      sv_rerank_latency_max_us :=
        (if rs_latency_us resp > sv_rerank_latency_max_us st then rs_latency_us resp
         else sv_rerank_latency_max_us st),
      sv_rerank_model_version := rs_model_version resp\<rparr>"

definition handle_message ::
    "'l server_env \<Rightarrow> 'l Server \<Rightarrow> Message \<Rightarrow> 'l Server \<times> Message option" where
  "handle_message env st msg =
     (let (st', reply) =
        (case msg of
           M_RerankRequest req \<Rightarrow>
             let resp = se_rerank env (se_latency env (sv_tick st)) req
             in (count_rerank resp st, Some (M_RerankResponse resp))
         | M_Ping ping \<Rightarrow>
             (st \<lparr>sv_ping_count := sv_ping_count st + 1\<rparr>,
              Some (M_Pong \<lparr>pong_request_id = ping_request_id ping\<rparr>))
         | M_CommitEvent ev \<Rightarrow>
             (st \<lparr>sv_log := se_record env ev (sv_log st), sv_commit_count := sv_commit_count st + 1\<rparr>, None)
         | M_StatsRequest sreq \<Rightarrow>
             (st, Some (M_StatsResponse (GetStats env st \<lparr>ss_request_id := sq_request_id sreq\<rparr>)))
         | _ \<Rightarrow> (st \<lparr>sv_error_count := sv_error_count st + 1\<rparr>, None))
      in (st' \<lparr>sv_tick := Suc (sv_tick st)\<rparr>, reply))"

section \<open>One connection\<close>

text \<open>The connection is destroyed, and so closed, when the handler returns.\<close>

partial_function (option) HandleConnection ::
    "msgpack \<Rightarrow> 'c conn_ops \<Rightarrow> 'l server_env \<Rightarrow> 'c \<Rightarrow> 'l Server \<Rightarrow> ('c \<times> 'l Server) option" where
  "HandleConnection mp ops env c st =
     (if \<not> IsConnected ops c then Some (Close ops c, st)
      else case read_message mp ops c of (c1, received) \<Rightarrow>
        (case received of
           None \<Rightarrow> Some (Close ops c1, st)
         | Some msg \<Rightarrow>
             (case handle_message env st msg of (st', answer) \<Rightarrow>
               (case answer of
                  None \<Rightarrow> HandleConnection mp ops env c1 st'
                | Some reply \<Rightarrow>
                    (case write_message mp ops c1 reply of (c2, ok) \<Rightarrow>
                      if ok then HandleConnection mp ops env c2 st'
                      else Some (Close ops c2, st'))))))"

text \<open>The accept loop: a handler per connection until \<^verbatim>\<open>Accept\<close> returns nullptr.\<close>

fun Run :: "'c option list \<Rightarrow> 'c list" where
  "Run [] = []"
| "Run (None # _) = []"
| "Run (Some c # cs) = c # Run cs"

section \<open>The abstract server\<close>

fun serve :: "'l server_env \<Rightarrow> 'l Server \<Rightarrow> Message list \<Rightarrow> 'l Server \<times> Message list" where
  "serve env st [] = (st, [])"
| "serve env st (m # ms) =
     (case handle_message env st m of
        (st', r) \<Rightarrow> (case serve env st' ms of
          (st'', rs) \<Rightarrow> (st'', (case r of None \<Rightarrow> rs | Some r' \<Rightarrow> r' # rs))))"

lemma serve_append:
  "serve env st (ms @ ms') =
     (case serve env st ms of (st', rs) \<Rightarrow>
        (case serve env st' ms' of (st'', rs') \<Rightarrow> (st'', rs @ rs')))"
  by (induction ms arbitrary: st) (auto split: prod.splits option.splits)

text \<open>
  \<open>written out fs out'\<close>: after \<open>out\<close> the frames \<open>fs\<close> were written in order, the
  last one possibly cut off.  \<open>handled mp env st s out k st' out'\<close>: after the first
  \<open>k\<close> messages of the stream the counters are those of the abstract server, and what was
  written is its replies.
\<close>

definition written :: "bytes \<Rightarrow> bytes list \<Rightarrow> bytes \<Rightarrow> bool" where
  "written out fs out' \<longleftrightarrow> (\<exists>full cut. fs = full @ cut \<and> length cut \<le> 1
     \<and> prefix (out @ concat full) out' \<and> prefix out' (out @ concat fs))"

lemma written_none: "written out [] out"
  by (simp add: written_def)

lemma written_cons:
  assumes "written (out @ f) fs out'"
  shows "written out (f # fs) out'"
proof -
  obtain full cut where "fs = full @ cut" "length cut \<le> 1" "prefix ((out @ f) @ concat full) out'"
    "prefix out' ((out @ f) @ concat fs)"
    using assms unfolding written_def by blast
  then have "f # fs = (f # full) @ cut \<and> length cut \<le> 1 \<and> prefix (out @ concat (f # full)) out'
    \<and> prefix out' (out @ concat (f # fs))" by simp
  then show ?thesis unfolding written_def by blast
qed

lemma written_cut:
  assumes "prefix pre f"
  shows "written out [f] (out @ pre)"
proof -
  have "[f] = [] @ [f] \<and> length [f] \<le> 1 \<and> prefix (out @ concat []) (out @ pre)
    \<and> prefix (out @ pre) (out @ concat [f])"
    using assms by simp
  then show ?thesis unfolding written_def by blast
qed

definition handled ::
    "msgpack \<Rightarrow> 'l server_env \<Rightarrow> 'l Server \<Rightarrow> bytes \<Rightarrow> bytes \<Rightarrow> nat \<Rightarrow> 'l Server \<Rightarrow> bytes \<Rightarrow> bool" where
  "handled mp env st s out k st' out' \<longleftrightarrow>
     k \<le> length (messages mp s) \<and> st' = fst (serve env st (take k (messages mp s)))
     \<and> written out (map (frame mp) (snd (serve env st (take k (messages mp s))))) out'"

lemma handled_0: "handled mp env st s out 0 st out"
  by (simp add: handled_def written_none)

lemma handled_silent:
  assumes "next_message mp s = Some (m, s')" "handle_message env st m = (st1, None)"
    "handled mp env st1 s' out k st' out'"
  shows "handled mp env st s out (Suc k) st' out'"
  using assms by (simp add: handled_def messages_step split: prod.splits)

lemma handled_reply:
  assumes "next_message mp s = Some (m, s')" "handle_message env st m = (st1, Some r)"
    "handled mp env st1 s' (out @ frame mp r) k st' out'"
  shows "handled mp env st s out (Suc k) st' out'"
  using assms by (cases "serve env st1 (take k (messages mp s'))")
    (simp add: handled_def messages_step written_cons)

lemma handled_cut:
  assumes "next_message mp s = Some (m, s')" "handle_message env st m = (st1, Some r)"
    "prefix pre (frame mp r)"
  shows "handled mp env st s out (Suc 0) st1 (out @ pre)"
  using assms by (simp add: handled_def messages_step written_cut)

context connection
begin

text \<open>Every handler returns, having closed its connection and refined the abstract server.\<close>

lemma HandleConnection_refines:
  "\<exists>c' st' k. HandleConnection mp ops env c st = Some (c', st') \<and> \<not> IsConnected ops c'
     \<and> handled mp env st (incoming c) (outgoing c) k st' (outgoing c')"
proof (induction "length (incoming c)" arbitrary: c st rule: less_induct)
  case less
  show ?case
  proof (cases "IsConnected ops c")
    case False
    have "HandleConnection mp ops env c st = Some (Close ops c, st)"
      using False by (subst HandleConnection.simps) simp
    then show ?thesis
      using closed close_streams handled_0 [of mp env st "incoming c" "outgoing c"] by fastforce
  next
    case conn: True
    show ?thesis
    proof (cases "snd (read_message mp ops c)")
      case None
      then obtain c1 where r: "read_message mp ops c = (c1, None)" by (metis prod.collapse)
      then have "HandleConnection mp ops env c st = Some (Close ops c1, st)"
        using conn by (subst HandleConnection.simps) simp
      moreover have "outgoing (Close ops c1) = outgoing c"
        using read_message_fail [OF r] close_streams by simp
      ultimately show ?thesis
        using closed handled_0 [of mp env st "incoming c" "outgoing c"] by metis
    next
      case (Some m)
      then obtain c1 where r: "read_message mp ops c = (c1, Some m)" by (metis prod.collapse)
      then have n: "next_message mp (incoming c) = Some (m, incoming c1)" "outgoing c1 = outgoing c"
        using read_message_ok by blast+
      have less1: "length (incoming c1) < length (incoming c)"
        using n(1) by (rule next_message_shrinks)
      obtain st1 reply where h: "handle_message env st m = (st1, reply)" by fastforce
      show ?thesis
      proof (cases reply)
        case no: None
        have "HandleConnection mp ops env c st = HandleConnection mp ops env c1 st1"
          using conn r h no by (subst HandleConnection.simps) simp
        with less(1) [OF less1, of st1] handled_silent [OF n(1)] h no n(2) show ?thesis
          by metis
      next
        case (Some rp)
        obtain c2 ok where w: "write_message mp ops c1 rp = (c2, ok)" by fastforce
        show ?thesis
        proof (cases ok)
          case True
          have wr: "outgoing c2 = outgoing c @ frame mp rp" "incoming c2 = incoming c1"
            using w True write_ok n(2) by (auto simp: write_message_def)
          have "HandleConnection mp ops env c st = HandleConnection mp ops env c2 st1"
            using conn r h w True Some by (subst HandleConnection.simps) simp
          with less(1) [of c2 st1] less1 handled_reply [OF n(1)] h Some wr show ?thesis
            by metis
        next
          case False
          obtain pre where pre: "prefix pre (frame mp rp)" "outgoing c2 = outgoing c @ pre"
            using w False write_fail n(2) by (fastforce simp: write_message_def)
          have "HandleConnection mp ops env c st = Some (Close ops c2, st1)"
            using conn r h w False Some by (subst HandleConnection.simps) simp
          moreover have "handled mp env st (incoming c) (outgoing c) (Suc 0) st1 (outgoing (Close ops c2))"
            using handled_cut [OF n(1) _ pre(1)] h Some pre(2) close_streams by simp
          ultimately show ?thesis using closed by blast
        qed
      qed
    qed
  qed
qed

end

end
