(* ===== verification/Client.thy ===== *)
theory Client
  imports Server
begin

text \<open>
  src/client/client.cc: the client the input method links.  The state is the connection (if
  any), the next request id and the number of connection attempts, which numbers the results
  of \<^verbatim>\<open>ConnectEndpoint\<close>.  \<open>exchange\<close> is the sequence that \<^verbatim>\<open>Rerank\<close>,
  \<^verbatim>\<open>GetStats\<close> and \<^verbatim>\<open>Ping\<close> repeat: write the frame, read header, length and body,
  decode, and reset the connection on every failure.  \<open>in_sync\<close> relates a connection to a
  server that answers as \<open>serve\<close> does.
\<close>

record 'c Client =
  cl_conn :: "'c option"
  cl_next_request_id :: u32
  cl_attempts :: nat

definition Client_init :: "'c Client" where
  "Client_init = \<lparr>cl_conn = None, cl_next_request_id = 1, cl_attempts = 0\<rparr>"

definition EnsureConnectedLocked ::
    "'c conn_ops \<Rightarrow> (nat \<Rightarrow> 'c option) \<Rightarrow> 'c Client \<Rightarrow> 'c Client \<times> bool" where
  "EnsureConnectedLocked ops connect st =
     (if (case cl_conn st of Some c \<Rightarrow> IsConnected ops c | None \<Rightarrow> False) then (st, True)
      else let conn = connect (cl_attempts st)
           in (st \<lparr>cl_conn := conn, cl_attempts := Suc (cl_attempts st)\<rparr>, conn \<noteq> None))"

definition ResetLocked :: "'c Client \<Rightarrow> 'c Client" where
  "ResetLocked st = st \<lparr>cl_conn := None\<rparr>"

text \<open>\<open>None\<close>: the connection has been reset.\<close>

definition exchange ::
    "msgpack \<Rightarrow> 'c conn_ops \<Rightarrow> 'c Client \<Rightarrow> Message \<Rightarrow> 'c Client \<times> Message option" where
  "exchange mp ops st m =
     (case cl_conn st of
        None \<Rightarrow> (st, None)
      | Some c \<Rightarrow>
          (case write_message mp ops c m of
             (c1, False) \<Rightarrow> (ResetLocked st, None)
           | (c1, True) \<Rightarrow>
               (case read_message mp ops c1 of
                  (c2, None) \<Rightarrow> (ResetLocked st, None)
                | (c2, Some r) \<Rightarrow> (st \<lparr>cl_conn := Some c2\<rparr>, Some r))))"

definition take_id :: "'c Client \<Rightarrow> 'c Client" where
  "take_id st = st \<lparr>cl_next_request_id := cl_next_request_id st + 1\<rparr>"

definition Client_Rerank :: "msgpack \<Rightarrow> 'c conn_ops \<Rightarrow> (nat \<Rightarrow> 'c option) \<Rightarrow> 'c Client \<Rightarrow>
    RerankRequest \<Rightarrow> 'c Client \<times> RerankResponse option" where
  "Client_Rerank mp ops connect st req =
     (case EnsureConnectedLocked ops connect st of
        (st1, False) \<Rightarrow> (st1, None)
      | (st1, True) \<Rightarrow>
          (case exchange mp ops (take_id st1)
                  (M_RerankRequest (req \<lparr>rq_request_id := cl_next_request_id st1\<rparr>)) of
             (st2, None) \<Rightarrow> (st2, None)
           | (st2, Some (M_RerankResponse resp)) \<Rightarrow> (st2, Some resp)
           | (st2, Some _) \<Rightarrow> (ResetLocked st2, None)))"

definition Client_GetStats :: "msgpack \<Rightarrow> 'c conn_ops \<Rightarrow> (nat \<Rightarrow> 'c option) \<Rightarrow> 'c Client \<Rightarrow>
    'c Client \<times> StatsResponse option" where
  "Client_GetStats mp ops connect st =
     (case EnsureConnectedLocked ops connect st of
        (st1, False) \<Rightarrow> (st1, None)
      | (st1, True) \<Rightarrow>
          (case exchange mp ops (take_id st1)
                  (M_StatsRequest \<lparr>sq_request_id = cl_next_request_id st1\<rparr>) of
             (st2, None) \<Rightarrow> (st2, None)
           | (st2, Some (M_StatsResponse resp)) \<Rightarrow>
               (if ss_request_id resp \<noteq> cl_next_request_id st1 then (ResetLocked st2, None)
                else (st2, Some resp))
           | (st2, Some _) \<Rightarrow> (ResetLocked st2, None)))"

definition Client_Ping :: "msgpack \<Rightarrow> 'c conn_ops \<Rightarrow> (nat \<Rightarrow> 'c option) \<Rightarrow> 'c Client \<Rightarrow>
    'c Client \<times> bool" where
  "Client_Ping mp ops connect st =
     (case EnsureConnectedLocked ops connect st of
        (st1, False) \<Rightarrow> (st1, False)
      | (st1, True) \<Rightarrow>
          (case exchange mp ops (take_id st1) (M_Ping \<lparr>ping_request_id = cl_next_request_id st1\<rparr>) of
             (st2, None) \<Rightarrow> (st2, False)
           | (st2, Some (M_Pong pong)) \<Rightarrow>
               (if pong_request_id pong \<noteq> cl_next_request_id st1 then (ResetLocked st2, False)
                else (st2, True))
           | (st2, Some _) \<Rightarrow> (ResetLocked st2, False)))"

definition Client_RecordCommit :: "msgpack \<Rightarrow> 'c conn_ops \<Rightarrow> (nat \<Rightarrow> 'c option) \<Rightarrow> 'c Client \<Rightarrow>
    bytes \<Rightarrow> bytes \<Rightarrow> bytes \<Rightarrow> 'c Client" where
  "Client_RecordCommit mp ops connect st code txt ctx =
     (case EnsureConnectedLocked ops connect st of
        (st1, False) \<Rightarrow> st1
      | (st1, True) \<Rightarrow>
          (case cl_conn st1 of
             None \<Rightarrow> st1
           | Some c \<Rightarrow>
               (case write_message mp ops c (M_CommitEvent
                   \<lparr>ev_code = code, ev_committed_text = txt, ev_context_before = ctx\<rparr>) of
                  (c1, False) \<Rightarrow> ResetLocked st1
                | (c1, True) \<Rightarrow> st1 \<lparr>cl_conn := Some c1\<rparr>)))"

definition Client_IsConnected :: "'c conn_ops \<Rightarrow> 'c Client \<Rightarrow> bool" where
  "Client_IsConnected ops st = (case cl_conn st of Some c \<Rightarrow> IsConnected ops c | None \<Rightarrow> False)"

definition ResetConnection :: "'c Client \<Rightarrow> 'c Client" where
  "ResetConnection st = ResetLocked st"

lemmas client_defs = Client_Rerank_def Client_GetStats_def Client_Ping_def Client_RecordCommit_def

lemma Ensure_conn: "EnsureConnectedLocked ops connect st = (st1, ok) \<Longrightarrow> ok \<longleftrightarrow> cl_conn st1 \<noteq> None"
  by (auto simp: EnsureConnectedLocked_def Let_def split: if_splits option.splits)

lemma Ensure_stays:
  "cl_conn st = Some c \<Longrightarrow> IsConnected ops c \<Longrightarrow> EnsureConnectedLocked ops connect st = (st, True)"
  by (simp add: EnsureConnectedLocked_def)

lemma exchange_conn: "exchange mp ops st m = (st', r) \<Longrightarrow> r = None \<longleftrightarrow> cl_conn st' = None"
  by (auto simp: exchange_def ResetLocked_def split: option.splits prod.splits bool.splits)

section \<open>Staying in step with the server\<close>

text \<open>
  \<open>stream\<close> is all the server will ever send on the connection.  In sync: the client has
  written the messages \<open>ms\<close> and consumed exactly the replies to them.
\<close>

definition in_sync :: "msgpack \<Rightarrow> 'l server_env \<Rightarrow> 'l Server \<Rightarrow> ('c \<Rightarrow> bytes) \<Rightarrow> ('c \<Rightarrow> bytes) \<Rightarrow>
    bytes \<Rightarrow> Message list \<Rightarrow> 'c \<Rightarrow> bool" where
  "in_sync mp env sv incoming outgoing stream ms c \<longleftrightarrow>
     outgoing c = concat (map (frame mp) ms)
     \<and> stream = concat (map (frame mp) (snd (serve env sv ms))) @ incoming c"

text \<open>The server's stream agrees with its answers to \<open>ms\<close>, as far as either goes.\<close>

definition server_agrees :: "msgpack \<Rightarrow> 'l server_env \<Rightarrow> 'l Server \<Rightarrow> bytes \<Rightarrow> Message list \<Rightarrow> bool" where
  "server_agrees mp env sv stream ms \<longleftrightarrow>
     prefix stream (concat (map (frame mp) (snd (serve env sv ms))))
     \<or> prefix (concat (map (frame mp) (snd (serve env sv ms)))) stream"

lemma serve_snoc:
  "serve env sv (ms @ [m]) =
     (case handle_message env (fst (serve env sv ms)) m of
        (st', r) \<Rightarrow> (st', snd (serve env sv ms) @ (case r of None \<Rightarrow> [] | Some rp \<Rightarrow> [rp])))"
  by (auto simp: serve_append split: prod.splits option.splits)

lemma agreed_reply:
  assumes api: "msgpack_api mp" and sync: "stream = R @ s" and "sendable mp rp"
    and agrees: "prefix stream (R @ frame mp rp) \<or> prefix (R @ frame mp rp) stream"
    and got: "next_message mp s = Some (m, s')"
  shows "m = rp \<and> s = frame mp rp @ s'"
proof -
  have "prefix s (frame mp rp) \<or> prefix (frame mp rp) s"
    using agrees by (simp add: sync)
  moreover have "\<not> strict_prefix s (frame mp rp)"
    using msgpack_api.next_message_cut [OF api assms(3)] got by auto
  ultimately obtain x where x: "s = frame mp rp @ x"
    by (metis append_Nil2 prefix_def prefix_order.le_less)
  then have "(m, s') = (rp, x)"
    using msgpack_api.next_message_frame [OF api assms(3), of x] got by simp
  with x show ?thesis by simp
qed

context connection
begin

lemma exchange_ok:
  assumes "cl_conn st = Some c" "exchange mp ops st m = (st', Some r)"
  obtains c' where "cl_conn st' = Some c'" "outgoing c' = outgoing c @ frame mp m"
    "next_message mp (incoming c) = Some (r, incoming c')"
proof -
  obtain c1 c2 where e: "write_message mp ops c m = (c1, True)" "read_message mp ops c1 = (c2, Some r)"
    "st' = st \<lparr>cl_conn := Some c2\<rparr>"
    using assms by (auto simp: exchange_def split: prod.splits bool.splits option.splits)
  have "outgoing c1 = outgoing c @ frame mp m" "incoming c1 = incoming c"
    using write_ok e(1) by (auto simp: write_message_def)
  with read_message_ok [OF e(2)] e(3) show ?thesis by (intro that) simp_all
qed

lemma exchange_in_sync:
  assumes "msgpack_api mp" and "cl_conn st = Some c" "exchange mp ops st m = (st', Some r)"
    and sync: "in_sync mp env sv incoming outgoing stream ms c"
    and agrees: "server_agrees mp env sv stream (ms @ [m])"
    and reply: "handle_message env (fst (serve env sv ms)) m = (sv', Some rp)" and "sendable mp rp"
  shows "r = rp \<and> (\<exists>c'. cl_conn st' = Some c' \<and> in_sync mp env sv incoming outgoing stream (ms @ [m]) c')"
proof -
  obtain c' where c': "cl_conn st' = Some c'" "outgoing c' = outgoing c @ frame mp m"
    "next_message mp (incoming c) = Some (r, incoming c')"
    using exchange_ok [OF assms(2,3)] .
  let ?R = "concat (map (frame mp) (snd (serve env sv ms)))"
  have "r = rp \<and> incoming c = frame mp rp @ incoming c'"
  proof (rule agreed_reply [OF assms(1) _ assms(7)])
    show "stream = ?R @ incoming c" using sync by (simp add: in_sync_def)
    show "prefix stream (?R @ frame mp rp) \<or> prefix (?R @ frame mp rp) stream"
      using agrees by (simp add: server_agrees_def serve_snoc reply)
  qed (rule c'(3))
  moreover from this have "in_sync mp env sv incoming outgoing stream (ms @ [m]) c'"
    using sync c'(2) by (simp add: in_sync_def serve_snoc reply)
  ultimately show ?thesis using c'(1) by blast
qed

end

end
