(* ===== verification/History_Store.thy ===== *)
theory History_Store
  imports History_Types Wire_Types Files
begin

text \<open>
  The history store (history_store.cc, and the commit loggers of mock_reranker.cc).  SQLite is a
  parameter, the record \<open>sqlite_api\<close>; the locale \<open>sqlite\<close> states what its documentation
  promises about the five statements the store prepares.  The locale \<open>history_store\<close> is the
  interface \<^verbatim>\<open>IHistoryStore\<close> the learner relies on; the store over any such SQLite
  provides it.  Errors of single row fetches are not modelled.
\<close>

section \<open>SQLite\<close>

text \<open>A row as the column functions deliver it; text columns can be NULL.\<close>

type_synonym sq_row = "u64 \<times> u64 \<times> bytes option \<times> bytes option \<times> bytes option"

record 'd sqlite_api =
  sq_prepare :: "'d \<Rightarrow> bool"
  sq_insert :: "'d \<Rightarrow> u64 \<Rightarrow> bytes \<Rightarrow> bytes \<Rightarrow> bytes \<Rightarrow> bool \<times> 'd"
  sq_select :: "'d \<Rightarrow> u64 \<Rightarrow> sq_row list"
  sq_count :: "'d \<Rightarrow> u64 option"
  sq_delete :: "'d \<Rightarrow> u64 \<Rightarrow> bool \<times> 'd"
  sq_changes :: "'d \<Rightarrow> i32"
  sq_vacuum :: "'d \<Rightarrow> bool \<times> 'd"

section \<open>The store\<close>

text \<open>\<^verbatim>\<open>sqlite3_bind_text(.., s.c_str(), static_cast<int>(s.size()), ..)\<close>: a negative
  length means up to the first NUL.\<close>

definition bind_text :: "bytes \<Rightarrow> bytes" where
  "bind_text s =
     (let n = (of_nat (length s) :: i32) in
      if n <s 0 then takeWhile (\<lambda>c. c \<noteq> 0) s else take (unat n) s)"

definition Insert :: "'d sqlite_api \<Rightarrow> u64 \<Rightarrow> CommitEvent \<Rightarrow> 'd \<Rightarrow> bool \<times> 'd" where
  "Insert sq now ev d =
     (if \<not> sq_prepare sq d then (False, d)
      else sq_insert sq d now (bind_text (ev_code ev)) (bind_text (ev_committed_text ev))
             (bind_text (ev_context_before ev)))"

definition ColumnText :: "bytes option \<Rightarrow> bytes" where
  "ColumnText p = (case p of None \<Rightarrow> [] | Some s \<Rightarrow> s)"

definition entry_of_row :: "sq_row \<Rightarrow> HistoryEntry" where
  "entry_of_row r =
     (case r of (i, ts, code, txt, ctx) \<Rightarrow>
        \<lparr>he_id = i, he_ts_us = ts, he_code = ColumnText code, he_committed_text = ColumnText txt,
         he_context_before = ColumnText ctx\<rparr>)"

definition RecentEntries :: "'d sqlite_api \<Rightarrow> 'd \<Rightarrow> u64 \<Rightarrow> HistoryEntry list" where
  "RecentEntries sq d limit =
     (if \<not> sq_prepare sq d then [] else map entry_of_row (sq_select sq d limit))"

definition Count :: "'d sqlite_api \<Rightarrow> 'd \<Rightarrow> u64" where
  "Count sq d =
     (if \<not> sq_prepare sq d then 0 else case sq_count sq d of None \<Rightarrow> 0 | Some n \<Rightarrow> n)"

text \<open>\<open>older_than\<close> is the 64-bit count of seconds.\<close>

definition prune_cutoff :: "u64 \<Rightarrow> u64 \<Rightarrow> u64" where
  "prune_cutoff now older_than = now - older_than * 1000000"

definition Prune :: "'d sqlite_api \<Rightarrow> u64 \<Rightarrow> u64 \<Rightarrow> 'd \<Rightarrow> u64 \<times> 'd" where
  "Prune sq now older_than d =
     (if \<not> sq_prepare sq d then (0, d)
      else case sq_delete sq d (prune_cutoff now older_than) of
        (finished, d') \<Rightarrow> if finished then (scast (sq_changes sq d'), d') else (0, d'))"

definition Vacuum :: "'d sqlite_api \<Rightarrow> 'd \<Rightarrow> bool \<times> 'd" where
  "Vacuum sq d = sq_vacuum sq d"

text \<open>The loggers: \<^verbatim>\<open>NullCommitLogger\<close> and \<^verbatim>\<open>SqliteCommitLogger\<close>, whose store
  may be null.\<close>

definition NullCommitLogger_Record :: "CommitEvent \<Rightarrow> 'd option \<Rightarrow> 'd option" where
  "NullCommitLogger_Record ev d = d"

definition SqliteCommitLogger_Record :: "'d sqlite_api \<Rightarrow> u64 \<Rightarrow> CommitEvent \<Rightarrow> 'd option \<Rightarrow> 'd option" where
  "SqliteCommitLogger_Record sq now ev store = map_option (\<lambda>d. snd (Insert sq now ev d)) store"

section \<open>Opening\<close>

definition separator :: byte where
  "separator = 0x2F"

text \<open>\<open>canon\<close> is \<^verbatim>\<open>weakly_canonical\<close>, \<open>absolute\<close> is \<^verbatim>\<open>is_absolute\<close>.\<close>

definition PathIsUnder :: "(path \<Rightarrow> path option) \<Rightarrow> (path \<Rightarrow> bool) \<Rightarrow> path \<Rightarrow> path \<Rightarrow> bool" where
  "PathIsUnder canon absolute target root =
     (case canon target of None \<Rightarrow> False | Some t \<Rightarrow>
      case canon root of None \<Rightarrow> False | Some r \<Rightarrow>
      if \<not> absolute t \<or> \<not> absolute r then False
      else if length t < length r then False
      else if take (length r) t \<noteq> r then False
      else if length t = length r then True
      else t ! length r = separator)"

text \<open>What the opening does to the world, in order; \<^verbatim>\<open>Close\<close> is \<^verbatim>\<open>sqlite3_close_v2\<close>.\<close>

datatype open_action = Mkdir path | Open_db path | Chmod_0600 path | Apply_schema | Close_db

record open_env =
  oe_canon :: "path \<Rightarrow> path option"
  oe_absolute :: "path \<Rightarrow> bool"
  oe_parent :: "path \<Rightarrow> path"
  oe_mkdir :: bool
  oe_open :: bool
  oe_handle :: bool
  oe_schema :: bool

text \<open>A failed \<^verbatim>\<open>sqlite3_open_v2\<close> may still give a handle (\<open>oe_handle\<close>).  The code does not
  look at the result of \<^verbatim>\<open>chmod\<close>: the action says that it was called, not that it worked.\<close>

definition MakeSqliteHistoryStore :: "open_env \<Rightarrow> path \<Rightarrow> path \<Rightarrow> bool \<times> open_action list" where
  "MakeSqliteHistoryStore env db_path data_root =
     (if \<not> PathIsUnder (oe_canon env) (oe_absolute env) db_path data_root then (False, [])
      else let made = [Mkdir (oe_parent env db_path)] in
        if \<not> oe_mkdir env then (False, made)
        else let opened = made @ [Open_db db_path] in
          if \<not> oe_open env then (False, if oe_handle env then opened @ [Close_db] else opened)
          else let secured = opened @ [Chmod_0600 db_path, Apply_schema] in
            if \<not> oe_schema env then (False, secured @ [Close_db])
            else (True, secured))"

definition MakeSqliteCommitLogger :: "'s option \<Rightarrow> 's option" where
  "MakeSqliteCommitLogger store = (case store of None \<Rightarrow> None | Some s \<Rightarrow> Some s)"

section \<open>What SQLite promises\<close>

definition row_of_entry :: "HistoryEntry \<Rightarrow> sq_row" where
  "row_of_entry e = (he_id e, he_ts_us e, Some (he_code e), Some (he_committed_text e), Some (he_context_before e))"

lemma entry_of_row_of_entry [simp]: "entry_of_row (row_of_entry e) = e"
  by (simp add: entry_of_row_def row_of_entry_def ColumnText_def)

text \<open>\<^verbatim>\<open>LIMIT n\<close>: a negative limit is none.\<close>

definition sql_limit :: "u64 \<Rightarrow> 'a list \<Rightarrow> 'a list" where
  "sql_limit lim xs = (if lim <s 0 then xs else take (unat lim) xs)"

definition newer :: "HistoryEntry \<Rightarrow> HistoryEntry \<Rightarrow> bool" where
  "newer a b \<longleftrightarrow> he_ts_us b <s he_ts_us a"

locale sqlite =
  fixes sq :: "'d sqlite_api" and rows :: "'d \<Rightarrow> HistoryEntry list"
  assumes insert_done: "sq_insert sq d ts c t x = (True, d') \<Longrightarrow>
      \<exists>i. i \<notin> he_id ` set (rows d) \<and> rows d' = rows d @
        [\<lparr>he_id = i, he_ts_us = ts, he_code = c, he_committed_text = t, he_context_before = x\<rparr>]"
    and insert_failed: "sq_insert sq d ts c t x = (False, d') \<Longrightarrow> rows d' = rows d"
    and select_rows: "\<exists>es. mset es = mset (rows d) \<and> sorted_wrt (\<lambda>a b. \<not> newer b a) es
      \<and> sq_select sq d lim = map row_of_entry (sql_limit lim es)"
    and count_rows: "sq_count sq d = Some n \<Longrightarrow> n = of_nat (length (rows d))"
    and delete_done: "sq_delete sq d cutoff = (True, d') \<Longrightarrow>
      rows d' = filter (\<lambda>e. \<not> he_ts_us e <s cutoff) (rows d)
      \<and> sq_changes sq d' = of_nat (length (rows d) - length (rows d'))"
    and delete_failed: "sq_delete sq d cutoff = (False, d') \<Longrightarrow> rows d' = rows d"
    and vacuum_rows: "sq_vacuum sq d = (r, d') \<Longrightarrow> rows d' = rows d"
begin

lemma RecentEntries_rows:
  "sq_prepare sq d \<Longrightarrow> \<exists>es. mset es = mset (rows d) \<and> sorted_wrt (\<lambda>a b. \<not> newer b a) es
     \<and> RecentEntries sq d lim = sql_limit lim es"
  using select_rows [of d lim] by (auto simp: RecentEntries_def comp_def)

end

section \<open>The interface of the learner\<close>

text \<open>\<^verbatim>\<open>IHistoryStore\<close>: what reading and counting return of the stored entries.\<close>

locale history_store =
  fixes recent :: "'d \<Rightarrow> u64 \<Rightarrow> HistoryEntry list" and cnt :: "'d \<Rightarrow> u64"
    and entries :: "'d \<Rightarrow> HistoryEntry list" and ready :: "'d \<Rightarrow> bool"
  assumes recent_newest: "ready d \<Longrightarrow> \<exists>es. mset es = mset (entries d)
      \<and> sorted_wrt (\<lambda>a b. \<not> newer b a) es \<and> recent d lim = sql_limit lim es"
    and cnt_entries: "ready d \<Longrightarrow> cnt d = of_nat (length (entries d))"
begin

lemma recent_subset: "ready d \<Longrightarrow> set (recent d lim) \<subseteq> set (entries d)"
proof -
  assume "ready d"
  then obtain es where "mset es = mset (entries d)" "recent d lim = sql_limit lim es"
    using recent_newest by blast
  then have "set es = set (entries d)" "set (recent d lim) \<subseteq> set es"
    by (auto dest: mset_eq_set in_set_takeD simp: sql_limit_def split: if_splits)
  then show ?thesis by simp
qed

lemma recent_all:
  assumes "ready d" and "length (entries d) \<le> unat lim"
  shows "mset (recent d lim) = mset (entries d)"
proof -
  obtain es where es: "mset es = mset (entries d)" "recent d lim = sql_limit lim es"
    using recent_newest assms(1) by blast
  then have "length es = length (entries d)" by (metis size_mset)
  with es assms(2) show ?thesis by (simp add: sql_limit_def)
qed

lemma recent_one:
  "ready d \<Longrightarrow> recent d 1 = [] \<Longrightarrow> entries d = []"
  using recent_newest [of d 1] by (auto simp: sql_limit_def split: if_splits)

end

sublocale sqlite \<subseteq> store: history_store "RecentEntries sq" "Count sq" rows
  "\<lambda>d. sq_prepare sq d \<and> sq_count sq d \<noteq> None"
proof unfold_locales
  fix d lim
  assume "sq_prepare sq d \<and> sq_count sq d \<noteq> None"
  then show "\<exists>es. mset es = mset (rows d) \<and> sorted_wrt (\<lambda>a b. \<not> newer b a) es
      \<and> RecentEntries sq d lim = sql_limit lim es" "Count sq d = of_nat (length (rows d))"
    using RecentEntries_rows [of d lim] count_rows [of d] by (auto simp: Count_def)
qed

section \<open>A table in memory\<close>

text \<open>
  A concrete table with the documented behaviour: ids are one more than the largest one,
  inserting fails when there is none left, and the order of equal time stamps is that of
  insertion.
\<close>

record mem_db =
  mem_rows :: "HistoryEntry list"
  mem_changes :: i32

definition max_id :: "HistoryEntry list \<Rightarrow> u64" where
  "max_id es = fold max (map he_id es) 0"

definition mem_insert :: "mem_db \<Rightarrow> u64 \<Rightarrow> bytes \<Rightarrow> bytes \<Rightarrow> bytes \<Rightarrow> bool \<times> mem_db" where
  "mem_insert d ts c t x =
     (let i = max_id (mem_rows d) in
      if i = 0xFFFFFFFFFFFFFFFF then (False, d)
      else (True, d\<lparr>mem_rows := mem_rows d @
        [\<lparr>he_id = i + 1, he_ts_us = ts, he_code = c, he_committed_text = t, he_context_before = x\<rparr>]\<rparr>))"

definition mem_sqlite :: "mem_db sqlite_api" where
  "mem_sqlite =
     \<lparr>sq_prepare = \<lambda>d. True,
      sq_insert = mem_insert,
      sq_select = \<lambda>d lim. map row_of_entry (sql_limit lim (sort_by newer (mem_rows d))),
      sq_count = \<lambda>d. Some (of_nat (length (mem_rows d))),
      sq_delete = \<lambda>d c. (let kept = filter (\<lambda>e. \<not> he_ts_us e <s c) (mem_rows d) in
        (True, d\<lparr>mem_rows := kept, mem_changes := of_nat (length (mem_rows d) - length kept)\<rparr>)),
      sq_changes = mem_changes,
      sq_vacuum = \<lambda>d. (True, d)\<rparr>"

interpretation newest: compare newer
  by unfold_locales (auto simp: newer_def word_sless_alt)

lemma max_id_bound: "e \<in> set es \<Longrightarrow> he_id e \<le> max_id es"
proof -
  have "max_id es = Max (insert 0 (he_id ` set es))"
    by (simp add: max_id_def Max.set_eq_fold [symmetric])
  then show "e \<in> set es \<Longrightarrow> he_id e \<le> max_id es" by simp
qed

lemma max_id_fresh: "max_id es \<noteq> 0xFFFFFFFFFFFFFFFF \<Longrightarrow> max_id es + 1 \<notin> he_id ` set es"
proof
  assume a: "max_id es \<noteq> 0xFFFFFFFFFFFFFFFF" "max_id es + 1 \<in> he_id ` set es"
  then have "max_id es + 1 \<le> max_id es" using max_id_bound by auto
  moreover have "max_id es < max_id es + 1"
    using a(1) unat_bound [of "max_id es"]
    by (simp add: word_less_nat_alt word_unat_eq_iff unat_word_ariths)
  ultimately show False by simp
qed

interpretation mem: sqlite mem_sqlite mem_rows
proof unfold_locales
  fix d :: mem_db and lim :: u64
  show "\<exists>es. mset es = mset (mem_rows d) \<and> sorted_wrt (\<lambda>a b. \<not> newer b a) es
      \<and> sq_select mem_sqlite d lim = map row_of_entry (sql_limit lim es)"
    by (intro exI [of _ "sort_by newer (mem_rows d)"]) (simp add: mem_sqlite_def newest.sorted_sort_by)
qed (use max_id_fresh in \<open>auto simp: mem_sqlite_def mem_insert_def Let_def split: if_splits\<close>)

end
