(* ===== verification/History_Correct.thy ===== *)
theory History_Correct
  imports History_Store
begin

text \<open>Properties of the history store: reading after writing, pruning, and the privacy guard.\<close>

section \<open>Reading\<close>

lemma bind_text_id: "length s < 2 ^ 31 \<Longrightarrow> bind_text s = s"
proof -
  assume "length s < 2 ^ 31"
  then have "unat (of_nat (length s) :: i32) = length s" "\<not> (of_nat (length s) :: i32) <s 0"
    by (simp_all add: unat_of_nat word_sless_alt sint_uint uint_nat signed_take_bit_int_eq_self)
  then show ?thesis by (simp add: bind_text_def Let_def)
qed

definition event_entry :: "u64 \<Rightarrow> u64 \<Rightarrow> CommitEvent \<Rightarrow> HistoryEntry" where
  "event_entry i now ev =
     \<lparr>he_id = i, he_ts_us = now, he_code = ev_code ev, he_committed_text = ev_committed_text ev,
      he_context_before = ev_context_before ev\<rparr>"

text \<open>C33: After a successful insert the event is the newest entry, with the time of the insert
  and exactly the strings of the event, if all older entries have earlier times.\<close>

theorem insert_then_recent:
  assumes "sqlite sq rows" and "Insert sq now ev d = (True, d')" and "sq_prepare sq d'"
    and "\<forall>e \<in> set (rows d). he_ts_us e <s now" and "0 <s limit"
    and "length (ev_code ev) < 2 ^ 31" "length (ev_committed_text ev) < 2 ^ 31"
    and "length (ev_context_before ev) < 2 ^ 31"
  shows "\<exists>i es. RecentEntries sq d' limit = event_entry i now ev # es \<and> set es \<subseteq> set (rows d)"
proof -
  obtain i where i: "rows d' = rows d @ [event_entry i now ev]"
    using sqlite.insert_done [OF assms(1)] assms(2,6-8)
    by (fastforce simp: Insert_def event_entry_def bind_text_id split: if_splits)
  obtain es where es: "mset es = mset (rows d')" "sorted_wrt (\<lambda>a b. \<not> newer b a) es"
    "RecentEntries sq d' limit = sql_limit limit es"
    using sqlite.RecentEntries_rows [OF assms(1,3)] by blast
  have set_es: "set es = insert (event_entry i now ev) (set (rows d))"
    using mset_eq_set [OF es(1)] by (simp add: i)
  then obtain x xs where x: "es = x # xs" by (cases es) auto
  have new: "newer (event_entry i now ev) e" if "e \<in> set (rows d)" for e
    using assms(4) that by (simp add: newer_def event_entry_def)
  have head: "x = event_entry i now ev"
  proof (rule ccontr)
    assume n: "x \<noteq> event_entry i now ev"
    then have "x \<in> set (rows d)" "event_entry i now ev \<in> set xs" using set_es x by auto
    then show False using es(2) new by (auto simp: x)
  qed
  have "mset xs = mset (rows d)" using es(1) by (simp add: i x head)
  then have "set xs = set (rows d)" by (rule mset_eq_set)
  moreover have "unat limit \<noteq> 0" "\<not> limit <s 0"
    using assms(5) by (auto simp: unat_eq_0 word_sless_alt)
  ultimately have "sql_limit limit es = event_entry i now ev # take (unat limit - 1) xs
      \<and> set (take (unat limit - 1) xs) \<subseteq> set (rows d)"
    using set_take_subset [of "unat limit - 1" xs] by (auto simp: sql_limit_def x head take_Cons')
  then show ?thesis unfolding es(3) by blast
qed

text \<open>\<^verbatim>\<open>RecentEntries(n)\<close> returns the newest \<open>n\<close> entries, all if there are
  fewer, newest first: nothing that was left out is newer than something returned.\<close>

theorem recent_newest_first:
  assumes "sqlite sq rows" and "sq_prepare sq d" and "\<not> limit <s 0"
  shows "length (RecentEntries sq d limit) = min (unat limit) (length (rows d))
    \<and> sorted_wrt (\<lambda>a b. \<not> newer b a) (RecentEntries sq d limit)
    \<and> (\<exists>rest. mset (RecentEntries sq d limit) + rest = mset (rows d)
        \<and> (\<forall>a \<in> set (RecentEntries sq d limit). \<forall>b \<in># rest. \<not> newer b a))"
proof -
  obtain es where es: "mset es = mset (rows d)" "sorted_wrt (\<lambda>a b. \<not> newer b a) es"
    "RecentEntries sq d limit = sql_limit limit es"
    using sqlite.RecentEntries_rows [OF assms(1,2)] by blast
  let ?n = "unat limit"
  have r: "RecentEntries sq d limit = take ?n es" using es(3) assms(3) by (simp add: sql_limit_def)
  have split: "sorted_wrt (\<lambda>a b. \<not> newer b a) (take ?n es @ drop ?n es)" using es(2) by simp
  have "mset (take ?n es) + mset (drop ?n es) = mset (rows d)"
    by (metis append_take_drop_id es(1) mset_append)
  moreover have "\<forall>a \<in> set (take ?n es). \<forall>b \<in># mset (drop ?n es). \<not> newer b a"
    using split unfolding sorted_wrt_append by simp
  moreover have "length es = length (rows d)" using es(1) by (rule mset_eq_length)
  ultimately show ?thesis
    using split unfolding r sorted_wrt_append by (auto simp: min.commute)
qed

section \<open>Pruning\<close>

lemma sint_cutoff:
  assumes "- (2 ^ 63) \<le> uint now - sint older * 1000000" "uint now - sint older * 1000000 < 2 ^ 63"
  shows "sint (prune_cutoff now older) = uint now - sint older * 1000000"
proof -
  have "prune_cutoff now older = word_of_int (uint now - sint older * 1000000)"
    by (simp add: prune_cutoff_def)
  then have "sint (prune_cutoff now older) = signed_take_bit 63 (uint now - sint older * 1000000)"
    by (simp only: signed_of_int) simp
  then show ?thesis using assms by (simp add: signed_take_bit_int_eq_self)
qed

text \<open>C37: Pruning deletes exactly the entries more than \<open>older_than\<close> seconds old and
  returns their number, although the code computes the cut-off on unsigned words: as long as the
  true cut-off fits a signed 64-bit integer the wrap-around is undone, so an age that reaches back
  before the epoch deletes nothing.  A failed delete changes nothing and returns 0.\<close>

theorem prune_exact:
  assumes "sqlite sq rows" and "sq_prepare sq d" and "Prune sq now older d = (n, d')"
    and "uint now - sint older * 1000000 \<in> {- (2 ^ 63) ..< 2 ^ 63}" and "length (rows d) < 2 ^ 31"
  shows "(fst (sq_delete sq d (prune_cutoff now older)) \<longrightarrow>
        rows d' = filter (\<lambda>e. uint now - sint older * 1000000 \<le> sint (he_ts_us e)) (rows d)
        \<and> unat n = length (rows d) - length (rows d'))
    \<and> (\<not> fst (sq_delete sq d (prune_cutoff now older)) \<longrightarrow> rows d' = rows d \<and> n = 0)"
proof -
  obtain ok d1 where del: "sq_delete sq d (prune_cutoff now older) = (ok, d1)" by fastforce
  show ?thesis
  proof (cases ok)
    case True
    have d1: "d' = d1" "n = scast (sq_changes sq d1)"
      using assms(2,3) del True by (auto simp: Prune_def)
    have rows: "rows d1 = filter (\<lambda>e. \<not> he_ts_us e <s prune_cutoff now older) (rows d)"
      "sq_changes sq d1 = of_nat (length (rows d) - length (rows d1))"
      using sqlite.delete_done [OF assms(1), of d "prune_cutoff now older" d1] del True by auto
    let ?k = "length (rows d) - length (rows d1)"
    have "?k < 2 ^ 31" using assms(5) by simp
    then have "sint (of_nat ?k :: i32) = int ?k"
      by (simp add: sint_uint uint_nat unat_of_nat signed_take_bit_int_eq_self)
    then have "(scast (of_nat ?k :: i32) :: u64) = of_nat ?k"
      by (metis of_int_of_nat_eq scast_eq)
    then have "unat n = ?k"
      using \<open>?k < 2 ^ 31\<close> d1(2) rows(2) by (simp add: unat_of_nat)
    then show ?thesis
      using True del d1(1) rows(1) assms(4) sint_cutoff [of now older]
      by (auto simp: word_sless_alt not_less)
  next
    case False
    then show ?thesis
      using sqlite.delete_failed [OF assms(1)] assms(2,3) del by (auto simp: Prune_def)
  qed
qed

section \<open>The privacy guard\<close>

lemma under_prefix:
  "(if length t < length r then False
    else if take (length r) t \<noteq> r then False
    else if length t = length r then True
    else t ! length r = separator) \<longleftrightarrow> t = r \<or> (\<exists>s. t = r @ separator # s)" for t r :: path
proof (cases "\<exists>s. t = r @ s")
  case True
  then obtain s where "t = r @ s" ..
  then show ?thesis by (cases s) auto
next
  case False
  then have "take (length r) t \<noteq> r" by (metis append_take_drop_id)
  with False show ?thesis by auto
qed

lemma PathIsUnder_iff:
  "PathIsUnder canon absolute target root \<longleftrightarrow>
     (\<exists>t r. canon target = Some t \<and> canon root = Some r \<and> absolute t \<and> absolute r
        \<and> (t = r \<or> (\<exists>s. t = r @ separator # s)))"
proof (cases "canon target")
  case (Some t)
  show ?thesis
  proof (cases "canon root")
    case (Some r)
    then show ?thesis
      using \<open>canon target = Some t\<close> under_prefix [of t r] by (auto simp: PathIsUnder_def)
  qed (simp add: PathIsUnder_def Some)
qed (simp add: PathIsUnder_def)

lemma opened_path:
  "MakeSqliteHistoryStore env db_path root = (ok, acts) \<Longrightarrow> Open_db p \<in> set acts \<Longrightarrow> p = db_path"
  by (auto simp: MakeSqliteHistoryStore_def Let_def split: if_splits)

text \<open>C17: Nothing is created, opened or changed for a database whose canonical path is not the
  canonical data directory or below it; a store is only returned after \<^verbatim>\<open>chmod\<close> 0600 was
  called, before the schema was applied (its result is ignored by the code), and after a failure no
  handle stays open.\<close>

theorem open_guarded:
  assumes "MakeSqliteHistoryStore env db_path data_root = (ok, acts)"
  shows "(acts \<noteq> [] \<longrightarrow> (\<exists>t r. oe_canon env db_path = Some t \<and> oe_canon env data_root = Some r
        \<and> (t = r \<or> (\<exists>s. t = r @ separator # s))))
    \<and> (ok \<longrightarrow> acts = [Mkdir (oe_parent env db_path), Open_db db_path, Chmod_0600 db_path, Apply_schema])
    \<and> (\<forall>p. Open_db p \<in> set acts \<or> Chmod_0600 p \<in> set acts \<longrightarrow> p = db_path)
    \<and> (\<not> ok \<and> Open_db db_path \<in> set acts \<and> (oe_open env \<or> oe_handle env) \<longrightarrow> last acts = Close_db)"
proof -
  have "acts \<noteq> [] \<longrightarrow> PathIsUnder (oe_canon env) (oe_absolute env) db_path data_root"
    using assms by (auto simp: MakeSqliteHistoryStore_def split: if_splits)
  then have "acts \<noteq> [] \<longrightarrow> (\<exists>t r. oe_canon env db_path = Some t \<and> oe_canon env data_root = Some r
        \<and> (t = r \<or> (\<exists>s. t = r @ separator # s)))"
    unfolding PathIsUnder_iff by blast
  moreover have "ok \<longrightarrow> acts = [Mkdir (oe_parent env db_path), Open_db db_path, Chmod_0600 db_path, Apply_schema]"
    "\<forall>p. Open_db p \<in> set acts \<or> Chmod_0600 p \<in> set acts \<longrightarrow> p = db_path"
    "\<not> ok \<and> Open_db db_path \<in> set acts \<and> (oe_open env \<or> oe_handle env) \<longrightarrow> last acts = Close_db"
    using assms by (auto simp: MakeSqliteHistoryStore_def Let_def split: if_splits)
  ultimately show ?thesis by blast
qed

section \<open>Concrete runs\<close>

definition demo_event :: CommitEvent where
  "demo_event = \<lparr>ev_code = [97], ev_committed_text = [98], ev_context_before = []\<rparr>"

definition demo_row :: "u64 \<Rightarrow> u64 \<Rightarrow> HistoryEntry" where
  "demo_row i t = event_entry i t demo_event"

definition demo_db :: mem_db where
  "demo_db = \<lparr>mem_rows = [demo_row 1 1000000, demo_row 2 5000000], mem_changes = 0\<rparr>"

lemma demo_prepare: "sq_prepare mem_sqlite d"
  by (simp add: mem_sqlite_def)

theorem insert_then_recent_witness:
  "hd (RecentEntries mem_sqlite (snd (Insert mem_sqlite 6000000 demo_event demo_db)) 5)
     \<in> {event_entry i 6000000 demo_event | i. True}"
proof -
  have ins: "Insert mem_sqlite 6000000 demo_event demo_db
      = (True, snd (Insert mem_sqlite 6000000 demo_event demo_db))"
    by (simp add: Insert_def mem_sqlite_def mem_insert_def max_id_def demo_db_def demo_row_def event_entry_def)
  show ?thesis
    using insert_then_recent [OF mem.sqlite_axioms ins demo_prepare, of 5]
    by (auto simp: demo_db_def demo_row_def event_entry_def demo_event_def word_sless_alt)
qed

theorem recent_newest_first_witness:
  "length (RecentEntries mem_sqlite demo_db 1) = 1"
  using recent_newest_first [OF mem.sqlite_axioms demo_prepare, of 1 demo_db]
  by (simp add: demo_db_def word_sless_alt)

text \<open>Two seconds before second 6 the first entry goes; a million seconds reach back before the
  epoch, and nothing goes.\<close>

theorem prune_exact_witness:
  "unat (fst (Prune mem_sqlite 6000000 2 demo_db)) = 1
   \<and> mem_rows (snd (Prune mem_sqlite 6000000 1000000 demo_db)) = mem_rows demo_db"
proof
  note pruned = prune_exact [OF mem.sqlite_axioms demo_prepare prod.collapse [symmetric]]
  have del: "fst (sq_delete mem_sqlite d c)" for d c
    by (simp add: mem_sqlite_def Let_def)
  show "unat (fst (Prune mem_sqlite 6000000 2 demo_db)) = 1"
    using pruned [of 6000000 2 demo_db]
    by (simp add: del demo_db_def demo_row_def event_entry_def)
  show "mem_rows (snd (Prune mem_sqlite 6000000 1000000 demo_db)) = mem_rows demo_db"
    using pruned [of 6000000 1000000 demo_db]
    by (simp add: del demo_db_def demo_row_def event_entry_def)
qed

definition demo_open :: open_env where
  "demo_open = \<lparr>oe_canon = Some, oe_absolute = \<lambda>p. True, oe_parent = \<lambda>p. [47, 100],
     oe_mkdir = True, oe_open = True, oe_handle = True, oe_schema = True\<rparr>"

text \<open>/d/h is opened below the data directory /d; of its sibling /dh nothing is touched.\<close>

theorem open_guarded_witness:
  "snd (MakeSqliteHistoryStore demo_open [47, 100, 47, 104] [47, 100]) =
     [Mkdir [47, 100], Open_db [47, 100, 47, 104], Chmod_0600 [47, 100, 47, 104], Apply_schema]
   \<and> snd (MakeSqliteHistoryStore demo_open [47, 100, 104] [47, 100]) = []"
proof
  have "fst (MakeSqliteHistoryStore demo_open [47, 100, 47, 104] [47, 100])"
    by (simp add: MakeSqliteHistoryStore_def PathIsUnder_def separator_def demo_open_def)
  then show "snd (MakeSqliteHistoryStore demo_open [47, 100, 47, 104] [47, 100]) =
     [Mkdir [47, 100], Open_db [47, 100, 47, 104], Chmod_0600 [47, 100, 47, 104], Apply_schema]"
    using open_guarded [OF prod.collapse [symmetric, of
        "MakeSqliteHistoryStore demo_open [47, 100, 47, 104] [47, 100]"]]
    by (simp add: demo_open_def)
  show "snd (MakeSqliteHistoryStore demo_open [47, 100, 104] [47, 100]) = []"
    using open_guarded [OF prod.collapse [symmetric, of "MakeSqliteHistoryStore demo_open [47, 100, 104] [47, 100]"]]
    by (simp add: demo_open_def separator_def)
qed

end
