(* ===== verification/Paths.thy ===== *)
theory Paths
  imports Files
begin

text \<open>
  src/common/paths_mac.cc and paths_win.cc: where the daemon's data and its socket or pipe live.
  The environment, the working directory and the answers of the Windows shell are parameters; a
  Windows path is the bytes of its UTF-8 form.
\<close>

type_synonym environment = "bytes \<Rightarrow> bytes option"

text \<open>\<^verbatim>\<open>getenv\<close>, where an empty value counts as unset.\<close>

definition env_value :: "environment \<Rightarrow> bytes \<Rightarrow> bytes option" where
  "env_value env name = (case env name of None \<Rightarrow> None | Some v \<Rightarrow> if v = [] then None else Some v)"

section \<open>Unix\<close>

definition GetDataDir :: "environment \<Rightarrow> path \<Rightarrow> path" where
  "GetDataDir env cwd =
     (case env_value env (lit ''DAFENG_DATA_DIR'') of
        Some d \<Rightarrow> d
      | None \<Rightarrow>
          (case env_value env (lit ''HOME'') of
             None \<Rightarrow> join cwd (lit ''.dafeng'')
           | Some home \<Rightarrow>
               join (join (join home (lit ''Library'')) (lit ''Application Support'')) (lit ''Dafeng'')))"

definition GetDaemonAddress :: "environment \<Rightarrow> path \<Rightarrow> bytes" where
  "GetDaemonAddress env cwd =
     (case env_value env (lit ''DAFENG_DAEMON_ADDR'') of
        Some a \<Rightarrow> a
      | None \<Rightarrow> join (GetDataDir env cwd) (lit ''daemon.sock''))"

text \<open>\<open>mkdirs\<close> is \<^verbatim>\<open>create_directories\<close>.\<close>

definition EnsureDataDir :: "(path \<Rightarrow> bool) \<Rightarrow> environment \<Rightarrow> path \<Rightarrow> bool" where
  "EnsureDataDir mkdirs env cwd = mkdirs (GetDataDir env cwd)"

section \<open>Windows\<close>

text \<open>\<^verbatim>\<open>operator/\<close> for a right operand that is a plain name: a separator is put
  between unless the left path ends in one, is empty or is a bare drive.\<close>

definition win_join :: "path \<Rightarrow> bytes \<Rightarrow> path" where
  "win_join p q =
     (if p = [] \<or> last p = 0x5C \<or> last p = 0x2F \<or> length p = 2 \<and> last p = 0x3A then p @ q
      else p @ [0x5C] @ q)"

record win_env =
  we_roaming :: path
  we_user_name :: "bytes option"
  we_cwd :: path

definition GetDataDir_win :: "environment \<Rightarrow> win_env \<Rightarrow> path" where
  "GetDataDir_win env w =
     (case env_value env (lit ''DAFENG_DATA_DIR'') of
        Some d \<Rightarrow> d
      | None \<Rightarrow> if we_roaming w \<noteq> [] then win_join (we_roaming w) (lit ''Dafeng'')
                else win_join (we_cwd w) (lit ''.dafeng''))"

definition pipe_char :: "byte \<Rightarrow> bool" where
  "pipe_char u \<longleftrightarrow> 0x61 \<le> u \<and> u \<le> 0x7A \<or> 0x41 \<le> u \<and> u \<le> 0x5A \<or> 0x30 \<le> u \<and> u \<le> 0x39
     \<or> u = 0x2D \<or> u = 0x5F \<or> u = 0x2E"

fun sanitize_loop :: "bytes \<Rightarrow> bytes \<Rightarrow> bytes" where
  "sanitize_loop out [] = out"
| "sanitize_loop out (c # s) = sanitize_loop (out @ [if pipe_char c then c else 0x5F]) s"

definition SanitizeForPipeName :: "bytes \<Rightarrow> bytes" where
  "SanitizeForPipeName s =
     (let out = sanitize_loop [] s in if out = [] then lit ''user'' else out)"

definition CurrentUserName :: "environment \<Rightarrow> win_env \<Rightarrow> bytes" where
  "CurrentUserName env w =
     (case we_user_name w of
        Some u \<Rightarrow> SanitizeForPipeName u
      | None \<Rightarrow>
          (case env_value env (lit ''USERNAME'') of
             Some u \<Rightarrow> SanitizeForPipeName u | None \<Rightarrow> lit ''user''))"

definition pipe_prefix :: bytes where
  "pipe_prefix = [0x5C, 0x5C, 0x2E, 0x5C] @ lit ''pipe'' @ [0x5C] @ lit ''dafeng-daemon-''"

definition GetDaemonAddress_win :: "environment \<Rightarrow> win_env \<Rightarrow> bytes" where
  "GetDaemonAddress_win env w =
     (case env_value env (lit ''DAFENG_DAEMON_ADDR'') of
        Some a \<Rightarrow> a
      | None \<Rightarrow> pipe_prefix @ CurrentUserName env w)"

section \<open>Properties\<close>

lemma env_value_nonempty: "env_value env name = Some v \<Longrightarrow> v \<noteq> []"
  by (auto simp: env_value_def split: option.splits if_splits)

lemma join_nonempty: "q \<noteq> [] \<Longrightarrow> join p q \<noteq> []"
  by (auto simp: join_def)

lemma sanitize_loop_map: "sanitize_loop out s = out @ map (\<lambda>c. if pipe_char c then c else 0x5F) s"
  by (induction s arbitrary: out) simp_all

lemma SanitizeForPipeName_eq:
  "SanitizeForPipeName s = (if s = [] then lit ''user'' else map (\<lambda>c. if pipe_char c then c else 0x5F) s)"
  by (simp add: SanitizeForPipeName_def sanitize_loop_map)

lemma sanitize_chars: "c \<in> set (SanitizeForPipeName s) \<Longrightarrow> pipe_char c"
  by (auto simp: SanitizeForPipeName_eq pipe_char_def split: if_splits)

text \<open>On every platform the data directory and the address are never empty, an override wins as it
  is given, and without one the socket lies in the data directory.\<close>

theorem paths_total:
  "GetDataDir env cwd \<noteq> [] \<and> GetDaemonAddress env cwd \<noteq> []
   \<and> GetDataDir_win env w \<noteq> [] \<and> GetDaemonAddress_win env w \<noteq> []
   \<and> (env_value env (lit ''DAFENG_DAEMON_ADDR'') = None \<longrightarrow>
        GetDaemonAddress env cwd = join (GetDataDir env cwd) (lit ''daemon.sock''))"
proof -
  have "GetDataDir_win env w \<noteq> []"
    by (auto simp: GetDataDir_win_def win_join_def dest: env_value_nonempty split: option.splits)
  moreover have "GetDataDir env cwd \<noteq> []" "GetDaemonAddress env cwd \<noteq> []"
    by (auto simp: GetDataDir_def GetDaemonAddress_def join_nonempty dest: env_value_nonempty
        simp del: lit_simps split: option.splits)
  moreover have "GetDaemonAddress_win env w \<noteq> []"
    by (auto simp: GetDaemonAddress_win_def pipe_prefix_def dest: env_value_nonempty split: option.splits)
  ultimately show ?thesis by (simp add: GetDaemonAddress_def del: lit_simps)
qed

text \<open>Two user names with the same letters: the pipe is the same exactly if the names agree up to the
  characters that are replaced.\<close>

definition pipe_byte :: "byte \<Rightarrow> byte" where
  "pipe_byte c = (if pipe_char c then c else 0x5F)"

definition same_pipe_byte :: "byte \<Rightarrow> byte \<Rightarrow> bool" where
  "same_pipe_byte a b \<longleftrightarrow> a = b \<or> (pipe_char a \<longrightarrow> a = 0x5F) \<and> (pipe_char b \<longrightarrow> b = 0x5F)"

lemma same_pipe_byte_iff: "pipe_byte a = pipe_byte b \<longleftrightarrow> same_pipe_byte a b"
  by (auto simp: pipe_byte_def same_pipe_byte_def)

lemma same_pipe_name:
  assumes "s \<noteq> []" "t \<noteq> []"
  shows "SanitizeForPipeName s = SanitizeForPipeName t \<longleftrightarrow> list_all2 same_pipe_byte s t"
proof -
  have "SanitizeForPipeName u = map pipe_byte u" if "u \<noteq> []" for u
    using that by (simp add: SanitizeForPipeName_eq pipe_byte_def)
  then have "SanitizeForPipeName s = SanitizeForPipeName t \<longleftrightarrow> map pipe_byte s = map pipe_byte t"
    using assms by simp
  also have "\<dots> \<longleftrightarrow> list_all2 same_pipe_byte s t"
    using list.rel_map(2) [of "(=)" "map pipe_byte s" pipe_byte t]
    by (simp add: list.rel_eq list.rel_map(1) same_pipe_byte_iff)
  finally show ?thesis .
qed

text \<open>The default pipe name is the fixed prefix and one component of safe characters; two users
  get the same pipe exactly if their names have the same length and differ only where both characters
  are replaced by or equal to an underscore, so any two names of the same number of CJK characters share
  one.\<close>

theorem pipe_name_of_user:
  assumes "env_value env (lit ''DAFENG_DAEMON_ADDR'') = None"
    and "we_user_name w = Some s" "we_user_name w' = Some t" "s \<noteq> []" "t \<noteq> []"
  shows "(\<exists>n. GetDaemonAddress_win env w = pipe_prefix @ n \<and> n \<noteq> [] \<and> (\<forall>c \<in> set n. pipe_char c))
    \<and> (GetDaemonAddress_win env w = GetDaemonAddress_win env w' \<longleftrightarrow> list_all2 same_pipe_byte s t)
    \<and> (length s = length t \<and> (\<forall>c \<in> set s \<union> set t. 0x80 \<le> c) \<longrightarrow>
         GetDaemonAddress_win env w = GetDaemonAddress_win env w')"
proof -
  have a: "GetDaemonAddress_win env w = pipe_prefix @ SanitizeForPipeName s"
    "GetDaemonAddress_win env w' = pipe_prefix @ SanitizeForPipeName t"
    using assms(1-3) by (simp_all add: GetDaemonAddress_win_def CurrentUserName_def del: lit_simps)
  have high: "\<not> pipe_char c" if "0x80 \<le> c" for c
    using that by (auto simp: pipe_char_def word_le_nat_alt)
  have "list_all2 same_pipe_byte s t"
    if "length s = length t" "\<forall>c \<in> set s \<union> set t. 0x80 \<le> c"
    using that by (induction s t rule: list_induct2) (auto simp: same_pipe_byte_def high)
  moreover have "SanitizeForPipeName s \<noteq> []" using assms(4) by (simp add: SanitizeForPipeName_eq)
  ultimately show ?thesis
    using sanitize_chars same_pipe_name [OF assms(4,5)] unfolding a same_append_eq by blast
qed

text \<open>Two different Chinese names of two characters, \<^verbatim>\<open>E5BCA0 E4B889\<close> and
  \<^verbatim>\<open>E69D8E E59B9B\<close>.\<close>

theorem pipe_name_of_user_witness:
  "GetDaemonAddress_win (\<lambda>_. None)
     \<lparr>we_roaming = [], we_user_name = Some [0xE5, 0xBC, 0xA0, 0xE4, 0xB8, 0x89], we_cwd = []\<rparr>
   = GetDaemonAddress_win (\<lambda>_. None)
     \<lparr>we_roaming = [], we_user_name = Some [0xE6, 0x9D, 0x8E, 0xE5, 0x9B, 0x9B], we_cwd = []\<rparr>"
  by (rule pipe_name_of_user [THEN conjunct2, THEN conjunct2, THEN mp,
        of _ _ "[0xE5, 0xBC, 0xA0, 0xE4, 0xB8, 0x89]" _ "[0xE6, 0x9D, 0x8E, 0xE5, 0x9B, 0x9B]"])
    (simp_all add: env_value_def)

end
