(* ===== verification/Logging.thy ===== *)
theory Logging
  imports Text_Output "HOL-Library.Sublist"
begin

text \<open>
  src/common/logging.cc: the level filter and the line a message becomes on stderr.  The local
  time is a parameter, and so is the message as \<^verbatim>\<open>vfprintf\<close> formats it; the mutex makes
  a line one write.
\<close>

section \<open>Levels\<close>

datatype LogLevel = kDebug | kInfo | kWarn | kError

fun level_value :: "LogLevel \<Rightarrow> nat" where
  "level_value kDebug = 0"
| "level_value kInfo = 1"
| "level_value kWarn = 2"
| "level_value kError = 3"

lemma level_value_inject [simp]: "level_value a = level_value b \<longleftrightarrow> a = b"
  by (cases a; cases b) simp_all

text \<open>Levels are compared by their values.\<close>

instantiation LogLevel :: linorder
begin

definition less_eq_LogLevel :: "LogLevel \<Rightarrow> LogLevel \<Rightarrow> bool" where
  "a \<le> b \<longleftrightarrow> level_value a \<le> level_value b"

definition less_LogLevel :: "LogLevel \<Rightarrow> LogLevel \<Rightarrow> bool" where
  "a < b \<longleftrightarrow> level_value a < level_value b"

instance
  by standard (auto simp: less_eq_LogLevel_def less_LogLevel_def)

end

lemmas level_order = less_eq_LogLevel_def less_LogLevel_def

definition LevelTag :: "LogLevel \<Rightarrow> bytes" where
  "LevelTag level = (case level of
     kDebug \<Rightarrow> lit ''D'' | kInfo \<Rightarrow> lit ''I'' | kWarn \<Rightarrow> lit ''W'' | kError \<Rightarrow> lit ''E'')"

section \<open>File names\<close>

definition name_separator :: "byte \<Rightarrow> bool" where
  "name_separator c \<longleftrightarrow> c = 0x2F \<or> c = 0x5C"

text \<open>The loop of \<^verbatim>\<open>BaseName\<close>: the pointers \<^verbatim>\<open>last\<close> and \<^verbatim>\<open>p\<close>.\<close>

fun base_loop :: "bytes \<Rightarrow> bytes \<Rightarrow> bytes" where
  "base_loop lst [] = lst"
| "base_loop lst (c # p) = base_loop (if name_separator c then p else lst) p"

definition BaseName :: "bytes \<Rightarrow> bytes" where
  "BaseName path = base_loop path path"

lemma base_loop_plain: "\<forall>c \<in> set p. \<not> name_separator c \<Longrightarrow> base_loop lst p = lst"
  by (induction p) auto

lemma base_loop_after:
  "\<forall>c \<in> set p. \<not> name_separator c \<Longrightarrow> name_separator s \<Longrightarrow> base_loop lst (pre @ s # p) = p"
  by (induction pre arbitrary: lst) (simp_all add: base_loop_plain)

lemma BaseName_split:
  "\<exists>pre. path = pre @ BaseName path \<and> (\<forall>c \<in> set (BaseName path). \<not> name_separator c)
     \<and> (pre = [] \<or> name_separator (last pre))"
proof (cases "\<exists>c \<in> set path. name_separator c")
  case True
  then obtain pre s p where p: "path = pre @ s # p" "name_separator s" "\<forall>c \<in> set p. \<not> name_separator c"
    by (metis split_list_last_prop)
  then have "BaseName path = p" by (simp add: BaseName_def base_loop_after)
  with p show ?thesis by (intro exI [of _ "pre @ [s]"]) simp
next
  case False
  then show ?thesis by (intro exI [of _ "[]"]) (simp add: BaseName_def base_loop_plain)
qed

section \<open>The logger\<close>

record Logger =
  lg_level :: LogLevel
  lg_enabled :: bool

definition Logger_init :: Logger where
  "Logger_init = \<lparr>lg_level = kInfo, lg_enabled = True\<rparr>"

definition SetLogLevel :: "LogLevel \<Rightarrow> Logger \<Rightarrow> Logger" where
  "SetLogLevel level lg = lg\<lparr>lg_level := level\<rparr>"

definition GetLogLevel :: "Logger \<Rightarrow> LogLevel" where
  "GetLogLevel lg = lg_level lg"

definition SetLogEnabled :: "bool \<Rightarrow> Logger \<Rightarrow> Logger" where
  "SetLogEnabled enabled lg = lg\<lparr>lg_enabled := enabled\<rparr>"

text \<open>Hour, minute, second and millisecond.\<close>

type_synonym clock_time = "nat \<times> nat \<times> nat \<times> nat"

definition time_stamp :: "clock_time \<Rightarrow> bytes" where
  "time_stamp t = (case t of (h, m, s, ms) \<Rightarrow>
     take 31 (pad_left 0x30 2 (dec h) @ lit '':'' @ pad_left 0x30 2 (dec m) @ lit '':''
       @ pad_left 0x30 2 (dec s) @ lit ''.'' @ pad_left 0x30 3 (dec ms)))"

record log_call =
  lo_level :: LogLevel
  lo_file :: bytes
  lo_line :: nat
  lo_time :: clock_time
  lo_msg :: bytes

definition log_line :: "log_call \<Rightarrow> bytes" where
  "log_line c = lit ''['' @ time_stamp (lo_time c) @ lit '' '' @ LevelTag (lo_level c) @ lit '' ''
     @ BaseName (lo_file c) @ lit '':'' @ dec (lo_line c) @ lit ''] '' @ lo_msg c @ [0x0A]"

text \<open>\<open>Log\<close> returns what it writes.\<close>

definition Log :: "Logger \<Rightarrow> log_call \<Rightarrow> bytes option" where
  "Log lg c =
     (if \<not> lg_enabled lg then None
      else if level_value (lo_level c) < level_value (lg_level lg) then None
      else Some (log_line c))"

definition logged :: "Logger \<Rightarrow> log_call list \<Rightarrow> bytes list" where
  "logged lg cs = List.map_filter (Log lg) cs"

lemma logged_eq:
  "logged lg cs = map log_line (filter (\<lambda>c. lg_enabled lg \<and> lg_level lg \<le> lo_level c) cs)"
  by (induction cs) (auto simp: logged_def Log_def level_order map_filter_simps)

lemma logged_subseq:
  "l \<le> l' \<Longrightarrow> subseq (logged (SetLogLevel l' lg) cs) (logged (SetLogLevel l lg) cs)"
  by (induction cs) (auto simp: logged_eq SetLogLevel_def)

text \<open>The log of a run holds, in order, the lines of exactly the calls at or above the level, none
  when logging is off; a higher level only leaves lines out; and a line names the file by its last
  path component.\<close>

theorem log_filter:
  assumes "l \<le> l'"
  shows "logged lg cs = map log_line (filter (\<lambda>c. lg_enabled lg \<and> lg_level lg \<le> lo_level c) cs)
    \<and> subseq (logged (SetLogLevel l' lg) cs) (logged (SetLogLevel l lg) cs)
    \<and> logged (SetLogEnabled False lg) cs = []
    \<and> (\<exists>pre. path = pre @ BaseName path \<and> (\<forall>c \<in> set (BaseName path). \<not> name_separator c)
         \<and> (pre = [] \<or> name_separator (last pre)))"
  using logged_subseq [OF assms] BaseName_split
  by (auto simp: logged_eq SetLogEnabled_def)

theorem log_filter_witness:
  "subseq (logged (SetLogLevel kWarn Logger_init)
       [\<lparr>lo_level = kInfo, lo_file = [], lo_line = 1, lo_time = (1, 2, 3, 4), lo_msg = []\<rparr>])
     (logged (SetLogLevel kInfo Logger_init)
       [\<lparr>lo_level = kInfo, lo_file = [], lo_line = 1, lo_time = (1, 2, 3, 4), lo_msg = []\<rparr>])"
  by (rule log_filter [of kInfo kWarn, THEN conjunct2, THEN conjunct1]) (simp add: level_order)

end
