(* ===== verification/Cli.thy ===== *)
theory Cli
  imports Client History_Correct Learning_Correct Paths Shell Logging
begin

text \<open>
  src/cli/main.cc: the debugging client.  A command returns its exit code and what it prints on
  stdout; messages on stderr are left out, and so is the closing advice of \<^verbatim>\<open>setup\<close>.
  Commands handed to \<^verbatim>\<open>std::system\<close> are answered by \<open>sh\<close>, which gets the number of
  the call and the command line and returns the wait status.
\<close>

section \<open>Options\<close>

record cli_args =
  ca_addr :: bytes
  ca_timeout_ms :: i32
  ca_code :: bytes
  ca_ctx :: bytes
  ca_cands :: bytes
  ca_app :: bytes
  ca_text :: bytes
  ca_backend :: bytes
  ca_model_path :: bytes
  ca_history_limit :: i32
  ca_min_freq :: i32
  ca_dry_run :: bool

definition cli_defaults :: "bytes \<Rightarrow> cli_args" where
  "cli_defaults addr =
     \<lparr>ca_addr = addr, ca_timeout_ms = 1000, ca_code = [], ca_ctx = [], ca_cands = [], ca_app = [],
      ca_text = [], ca_backend = [], ca_model_path = [], ca_history_limit = 20, ca_min_freq = 2,
      ca_dry_run = False\<rparr>"

text \<open>The value and the arguments behind it, if the argument is the flag and has one.\<close>

definition TakeArg :: "bytes \<Rightarrow> bytes \<Rightarrow> bytes list \<Rightarrow> (bytes \<times> bytes list) option" where
  "TakeArg flag a rest = (if a = flag \<and> rest \<noteq> [] then Some (hd rest, tl rest) else None)"

definition TakeArgInt :: "bytes \<Rightarrow> bytes \<Rightarrow> bytes list \<Rightarrow> (i32 \<times> bytes list) option" where
  "TakeArgInt flag a rest = map_option (apfst atoi) (TakeArg flag a rest)"

text \<open>One round of the loop tries the flags in order; \<open>None\<close> is an unknown argument.\<close>

fun first_some :: "'a option list \<Rightarrow> 'a option" where
  "first_some [] = None"
| "first_some (None # xs) = first_some xs"
| "first_some (Some x # xs) = Some x"

definition cli_arg :: "bytes \<Rightarrow> bytes list \<Rightarrow> cli_args \<Rightarrow> (cli_args \<times> bytes list) option" where
  "cli_arg a rest args =
     first_some
       [map_option (apfst (\<lambda>v. args\<lparr>ca_addr := v\<rparr>)) (TakeArg (lit ''--addr'') a rest),
        map_option (apfst (\<lambda>v. args\<lparr>ca_timeout_ms := v\<rparr>)) (TakeArgInt (lit ''--timeout'') a rest),
        map_option (apfst (\<lambda>v. args\<lparr>ca_code := v\<rparr>)) (TakeArg (lit ''--code'') a rest),
        map_option (apfst (\<lambda>v. args\<lparr>ca_ctx := v\<rparr>)) (TakeArg (lit ''--ctx'') a rest),
        map_option (apfst (\<lambda>v. args\<lparr>ca_cands := v\<rparr>)) (TakeArg (lit ''--cands'') a rest),
        map_option (apfst (\<lambda>v. args\<lparr>ca_app := v\<rparr>)) (TakeArg (lit ''--app'') a rest),
        map_option (apfst (\<lambda>v. args\<lparr>ca_text := v\<rparr>)) (TakeArg (lit ''--text'') a rest),
        map_option (apfst (\<lambda>v. args\<lparr>ca_backend := v\<rparr>)) (TakeArg (lit ''--backend'') a rest),
        map_option (apfst (\<lambda>v. args\<lparr>ca_model_path := v\<rparr>)) (TakeArg (lit ''--model-path'') a rest),
        map_option (apfst (\<lambda>v. args\<lparr>ca_history_limit := v\<rparr>)) (TakeArgInt (lit ''--limit'') a rest),
        map_option (apfst (\<lambda>v. args\<lparr>ca_min_freq := v\<rparr>)) (TakeArgInt (lit ''--min-freq'') a rest),
        if a = lit ''--dry-run'' then Some (args\<lparr>ca_dry_run := True\<rparr>, rest) else None]"

lemma first_some_in: "first_some xs = Some y \<Longrightarrow> Some y \<in> set xs"
  by (induction xs rule: first_some.induct) auto

lemma TakeArg_rest:
  "TakeArg flag a rest = Some (v, r) \<Longrightarrow> r = tl rest"
  "TakeArgInt flag a rest = Some (n, r) \<Longrightarrow> r = tl rest"
  by (auto simp: TakeArg_def TakeArgInt_def split: if_splits)

lemma map_apfst_rest: "Some (x, r) = map_option (apfst g) t \<longleftrightarrow> (\<exists>v. t = Some (v, r) \<and> x = g v)"
  by (cases t) auto

lemma cli_arg_rest: "cli_arg a rest args = Some (args', r) \<Longrightarrow> r = rest \<or> r = tl rest"
  unfolding cli_arg_def
  by (drule first_some_in) (auto simp: map_apfst_rest simp del: lit_simps dest: TakeArg_rest split: if_split_asm)

function cli_parse :: "bytes list \<Rightarrow> cli_args \<Rightarrow> cli_args option" where
  "cli_parse [] args = Some args"
| "cli_parse (a # rest) args =
     (case cli_arg a rest args of
        None \<Rightarrow> None
      | Some (args', r) \<Rightarrow> cli_parse r args')"
  by pat_completeness auto

termination
  by (relation "measure (length \<circ> fst)") (auto dest: cli_arg_rest)

section \<open>Candidates\<close>

text \<open>The loop of \<^verbatim>\<open>Split\<close>: the pieces so far and \<^verbatim>\<open>cur\<close>.\<close>

fun split_loop :: "byte \<Rightarrow> bytes list \<Rightarrow> bytes \<Rightarrow> bytes \<Rightarrow> bytes list" where
  "split_loop delim out cur [] = (if cur \<noteq> [] then out @ [cur] else out)"
| "split_loop delim out cur (c # s) =
     (if c = delim then split_loop delim (out @ [cur]) [] s else split_loop delim out (cur @ [c]) s)"

definition Split :: "bytes \<Rightarrow> byte \<Rightarrow> bytes list" where
  "Split s delim = split_loop delim [] [] s"

lemma split_loop_piece:
  "delim \<notin> set p \<Longrightarrow> split_loop delim out cur (p @ delim # s) = split_loop delim (out @ [cur @ p]) [] s"
  "delim \<notin> set p \<Longrightarrow> split_loop delim out cur p = (if cur @ p \<noteq> [] then out @ [cur @ p] else out)"
  by (induction p arbitrary: cur) auto

text \<open>Splitting undoes writing each piece with a delimiter behind it.\<close>

lemma Split_join:
  "\<forall>p \<in> set ps. delim \<notin> set p \<Longrightarrow> Split (concat (map (\<lambda>p. p @ [delim]) ps)) delim = ps"
proof -
  have "split_loop delim out [] (concat (map (\<lambda>p. p @ [delim]) ps)) = out @ ps"
    if "\<forall>p \<in> set ps. delim \<notin> set p" for out
    using that by (induction ps arbitrary: out) (simp_all add: split_loop_piece(1))
  then show "\<forall>p \<in> set ps. delim \<notin> set p \<Longrightarrow> Split (concat (map (\<lambda>p. p @ [delim]) ps)) delim = ps"
    by (simp add: Split_def)
qed

section \<open>Commands that talk to the daemon\<close>

definition nl :: bytes where "nl = [0x0A]"

definition CmdPing :: "msgpack \<Rightarrow> 'c conn_ops \<Rightarrow> (nat \<Rightarrow> 'c option) \<Rightarrow> nat \<Rightarrow> 'c Client \<times> int \<times> bytes" where
  "CmdPing mp ops connect us =
     (case Client_Ping mp ops connect Client_init of
        (cl, ok) \<Rightarrow> if ok then (cl, 0, lit ''pong in '' @ dec us @ lit '' us'' @ nl) else (cl, 1, []))"

text \<open>A negative or too large index prints a question mark.\<close>

definition candidate_at :: "bytes list \<Rightarrow> i32 \<Rightarrow> bytes" where
  "candidate_at cands idx =
     (if 0 \<le>s idx \<and> idx <s of_nat (length cands) then cands ! unat idx else lit ''?'')"

definition order_text :: "bytes list \<Rightarrow> i32 list \<Rightarrow> bytes" where
  "order_text cands is =
     concat (map (\<lambda>i. (if i = 0 then [] else lit '' '') @ c_str (candidate_at cands (is ! i))) [0..<length is])"

definition CmdRerank ::
  "msgpack \<Rightarrow> 'c conn_ops \<Rightarrow> (nat \<Rightarrow> 'c option) \<Rightarrow> bytes \<Rightarrow> bytes \<Rightarrow> bytes \<Rightarrow> bytes \<Rightarrow> 'c Client \<times> int \<times> bytes" where
  "CmdRerank mp ops connect code ctx cands_csv app =
     (let req = RerankRequest_init\<lparr>rq_code := code, rq_context_before := ctx,
                  rq_candidates := Split cands_csv 0x2C, rq_app_id := app\<rparr> in
      case Client_Rerank mp ops connect Client_init req of
        (cl, None) \<Rightarrow> (cl, 1, [])
      | (cl, Some resp) \<Rightarrow>
          (cl, 0, lit ''order: '' @ order_text (rq_candidates req) (rs_reordered_indices resp)
             @ nl @ lit ''latency_us: '' @ dec (unat (rs_latency_us resp)) @ nl))"

definition CmdCommit ::
  "msgpack \<Rightarrow> 'c conn_ops \<Rightarrow> (nat \<Rightarrow> 'c option) \<Rightarrow> bytes \<Rightarrow> bytes \<Rightarrow> bytes \<Rightarrow> 'c Client \<times> int \<times> bytes" where
  "CmdCommit mp ops connect code txt ctx =
     (Client_RecordCommit mp ops connect Client_init code txt ctx, 0,
      lit ''commit sent (fire-and-forget)'' @ nl)"

definition model_names :: "bytes list" where
  "model_names = [lit ''mock'', lit ''deterministic'', lit ''mlx'', lit ''llama_cpp'']"

definition stats_text :: "StatsResponse \<Rightarrow> bytes" where
  "stats_text s =
     (let rc = ss_rerank_count s;
          mean_us = (if rc > 0 then ss_rerank_latency_sum_us s div rc else 0);
          v = unat (ss_rerank_model_version s);
          name = (if v < length model_names then model_names ! v else lit ''unknown'')
      in lit ''daemon uptime    : '' @ dec (unat (ss_uptime_sec s)) @ lit '' s'' @ nl
       @ lit ''rerank model     : '' @ name @ lit '' (v'' @ dec v @ lit '')'' @ nl
       @ lit ''rerank requests  : '' @ dec (unat (ss_rerank_count s)) @ nl
       @ lit ''ping requests    : '' @ dec (unat (ss_ping_count s)) @ nl
       @ lit ''commit events    : '' @ dec (unat (ss_commit_count s)) @ nl
       @ lit ''errors           : '' @ dec (unat (ss_error_count s)) @ nl
       @ lit ''rerank mean (us) : '' @ dec (unat mean_us) @ nl
       @ lit ''rerank max  (us) : '' @ dec (unat (ss_rerank_latency_max_us s)) @ nl)"

definition CmdStats :: "msgpack \<Rightarrow> 'c conn_ops \<Rightarrow> (nat \<Rightarrow> 'c option) \<Rightarrow> 'c Client \<times> int \<times> bytes" where
  "CmdStats mp ops connect =
     (case Client_GetStats mp ops connect Client_init of
        (cl, None) \<Rightarrow> (cl, 1, []) | (cl, Some s) \<Rightarrow> (cl, 0, stats_text s))"

section \<open>Commands on the data directory\<close>

definition history_line :: "HistoryEntry \<Rightarrow> bytes" where
  "history_line e = lit ''  '' @ dec (unat (he_id e)) @ lit '' | code='' @ pad_right 8 (c_str (he_code e))
     @ lit '' text='' @ c_str (he_committed_text e) @ nl"

definition CmdHistory :: "open_env \<Rightarrow> 'd sqlite_api \<Rightarrow> 'd \<Rightarrow> path \<Rightarrow> i32 \<Rightarrow> int \<times> bytes \<times> open_action list" where
  "CmdHistory oe sq d data_dir limit =
     (case MakeSqliteHistoryStore oe (join data_dir (lit ''history.db'')) data_dir of
        (opened, acts) \<Rightarrow>
          if \<not> opened then (1, [], acts)
          else (0, lit ''history: '' @ dec (unat (Count sq d)) @ lit '' rows total'' @ nl
                     @ concat (map history_line (RecentEntries sq d (scast limit))), acts))"

text \<open>The configuration of the round: \<open>git\<close> says whether there is a synchronisation object.\<close>

definition learn_round_config :: "environment \<Rightarrow> path \<Rightarrow> bool \<Rightarrow> u32 \<Rightarrow> bool \<Rightarrow> LearningRoundConfig" where
  "learn_round_config env data_dir git min_freq dry_run =
     (let cfg = LearningRoundConfig_init\<lparr>lc_data_dir := data_dir\<rparr>;
          cfg = (case env (lit ''HOME'') of
             None \<Rightarrow> cfg
           | Some home \<Rightarrow>
               let rime = join (join home (lit ''Library'')) (lit ''Rime'')
               in cfg\<lparr>lc_rime_user_dir := rime, lc_wubi_dict_path := join rime (lit ''wubi86.dict.yaml'')\<rparr>)
      in cfg\<lparr>lc_min_new_word_freq := min_freq, lc_commit_to_git := \<not> dry_run \<and> git, lc_push_to_remote := False\<rparr>)"

text \<open>The words shown before the round, with the codec applied to each.\<close>

definition learn_preview :: "round_env \<Rightarrow> LearningRoundConfig \<Rightarrow> fs \<Rightarrow> DiscoveredWord list" where
  "learn_preview re cfg f =
     (let dcfg = DiscoveryConfig_init\<lparr>dc_min_frequency := lc_min_new_word_freq cfg,
                   dc_scan_max_entries := lc_scan_max_entries cfg,
                   dc_include_bigrams := lc_include_bigrams cfg,
                   dc_include_trigrams := lc_include_trigrams cfg\<rparr>;
          preview = Discover (re_sort re) (re_sort_words re) (re_recent re (dc_scan_max_entries dcfg)) dcfg
      in if lc_wubi_dict_path cfg \<noteq> [] then
           (case LoadFromDict (lc_wubi_dict_path cfg) f of
              (ok, codec) \<Rightarrow>
                if ok then map (\<lambda>w. let canonical = EncodePhrase codec (dw_text w)
                                    in if canonical \<noteq> [] then w\<lparr>dw_code := canonical\<rparr> else w) preview
                else preview)
         else preview)"

definition preview_line :: "DiscoveredWord \<Rightarrow> bytes" where
  "preview_line w = lit ''  '' @ pad_left 0x20 4 (dec (unat (dw_frequency w))) @ lit ''  ''
     @ pad_right 12 (c_str (dw_text w)) @ lit '' ''
     @ (if dw_code w = [] then lit ''-'' else c_str (dw_code w)) @ nl"

definition preview_text :: "round_env \<Rightarrow> u32 \<Rightarrow> DiscoveredWord list \<Rightarrow> bytes" where
  "preview_text re min_freq preview =
     lit ''history rows scanned: '' @ dec (unat (re_count re)) @ nl
     @ lit ''min_frequency: '' @ dec (unat min_freq) @ nl
     @ lit ''discovered words (top 30):'' @ nl
     @ lit ''  freq  text         code  (code blank = code-attribution lost)'' @ nl
     @ concat (map preview_line (take 30 preview))
     @ lit ''('' @ dec (length preview) @ lit '' total)'' @ nl"

definition yes_no :: "bool \<Rightarrow> bytes" where
  "yes_no b = (if b then lit ''yes'' else lit ''no'')"

definition round_text :: "LearningRoundResult \<Rightarrow> nat \<Rightarrow> bytes" where
  "round_text r elapsed =
     nl @ lit ''running learning round...'' @ nl
     @ lit ''  ok               : '' @ yes_no (lr_ok r) @ nl
     @ lit ''  bigrams added    : '' @ dec (unat (lr_bigram_increments r)) @ nl
     @ lit ''  words discovered : '' @ dec (unat (lr_words_discovered r)) @ nl
     @ lit ''  wrote user_dict  : '' @ yes_no (lr_wrote_user_dict r) @ nl
     @ lit ''  wrote ngram      : '' @ yes_no (lr_wrote_ngram r) @ nl
     @ lit ''  redeploy flagged : '' @ yes_no (lr_requested_redeploy r) @ nl
     @ lit ''  git committed    : '' @ yes_no (lr_committed r) @ nl
     @ lit ''  elapsed          : '' @ dec elapsed @ lit '' ms'' @ nl"

text \<open>\<open>mk\<close> is \<^verbatim>\<open>MakeGitSync\<close> of the build; \<open>elapsed\<close> is what the round took.  The third
  component of the result is what opening the history store did to the disk, before anything else and
  also for a dry run; \<open>f\<close> and \<open>g\<close> are the other files and the repository.\<close>

definition CmdLearn ::
  "environment \<Rightarrow> open_env \<Rightarrow> round_env \<Rightarrow> (GitSyncConfig \<Rightarrow> LibGit2Sync option) \<Rightarrow> 'g git_api \<Rightarrow> nat \<Rightarrow>
     path \<Rightarrow> u32 \<Rightarrow> bool \<Rightarrow> fs \<Rightarrow> 'g \<Rightarrow> int \<times> bytes \<times> open_action list \<times> fs \<times> 'g" where
  "CmdLearn env oe re mk api elapsed data_dir min_freq dry_run f g =
     (case MakeSqliteHistoryStore oe (join data_dir (lit ''history.db'')) data_dir of
        (opened, acts) \<Rightarrow>
          if \<not> opened then (1, [], acts, f, g)
          else let
            ngram = snd (Load (join (join data_dir (lit ''userdata'')) (lit ''personal_ngram.bin'')) f);
            git = (if dry_run then None
                   else mk (GitSyncConfig_init\<lparr>gc_repo_path := join data_dir (lit ''userdata'')\<rparr>));
            cfg = learn_round_config env data_dir (git \<noteq> None) min_freq dry_run;
            preview = learn_preview re cfg f;
            shown = preview_text re min_freq preview
          in if dry_run
             then (0, shown @ nl @ lit ''--dry-run: skipping persist + git commit.'' @ nl, acts, f, g)
             else case RunLearningRound re api git cfg f ngram g of
               (r, st) \<Rightarrow> (if lr_ok r then 0 else 1, shown @ round_text r elapsed, acts, rd_fs st, rd_git st))"

end
