(* ===== verification/Cli_Main.thy ===== *)
theory Cli_Main
  imports Cli
begin

text \<open>
  src/cli/main.cc, second part: the commands that run other programs (setup, pause, resume) and
  the dispatch of \<^verbatim>\<open>main\<close>.  \<open>shell\<close> is a run of \<^verbatim>\<open>std::system\<close> calls: the answers by
  number of the call, and the command lines so far.
\<close>

section \<open>Running commands\<close>

type_synonym sys = "nat \<Rightarrow> bytes \<Rightarrow> int"

definition run_cmd :: "sys \<Rightarrow> bytes \<Rightarrow> bytes list \<Rightarrow> int \<times> bytes list" where
  "run_cmd sh cmd log = (sh (length log) cmd, log @ [cmd])"

text \<open>The exit code in a wait status, and what the parent of this process sees of the value
  \<^verbatim>\<open>main\<close> returns.\<close>

definition WEXITSTATUS :: "int \<Rightarrow> int" where
  "WEXITSTATUS rc = rc div 256 mod 256"

definition exit_status :: "int \<Rightarrow> int" where
  "exit_status code = code mod 256"

section \<open>setup\<close>

definition share_candidates :: "path list" where
  "share_candidates =
     [lit ''/usr/local/share/dafeng'', lit ''/opt/homebrew/share/dafeng'',
      lit ''/opt/homebrew/opt/dafeng-wubi/share/dafeng'']"

definition FindShareDir :: "(path \<Rightarrow> bool) \<Rightarrow> path" where
  "FindShareDir exists =
     (case filter (\<lambda>p. exists (join p (lit ''deploy.sh''))) share_candidates of
        [] \<Rightarrow> lit ''/usr/local/share/dafeng'' | p # _ \<Rightarrow> p)"

definition daemon_binary :: "(path \<Rightarrow> bool) \<Rightarrow> path" where
  "daemon_binary exists =
     (if exists (lit ''/usr/local/bin/dafeng-daemon'') then lit ''/usr/local/bin/dafeng-daemon''
      else lit ''/opt/homebrew/bin/dafeng-daemon'')"

definition default_model :: "environment \<Rightarrow> path" where
  "default_model env =
     (case env (lit ''HOME'') of
        None \<Rightarrow> []
      | Some home \<Rightarrow> home @ lit ''/Library/Application Support/Dafeng/models/''
          @ lit ''Qwen2.5-0.5B-Instruct-GGUF/qwen2.5-0.5b-instruct-q4_k_m.gguf'')"

definition quoted_model :: "path \<Rightarrow> bytes" where
  "quoted_model model = lit ''DAFENG_MODEL_PATH='' @ [0x27] @ model @ [0x27, 0x20]"

text \<open>\<open>None\<close>: there is no model file.\<close>

definition env_prefix :: "environment \<Rightarrow> (path \<Rightarrow> bool) \<Rightarrow> bytes \<Rightarrow> path \<Rightarrow> bytes option" where
  "env_prefix env exists backend model_path =
     (if backend = lit ''llama_cpp'' then
        (let model = (if model_path = [] then default_model env else model_path) in
         if \<not> exists model then None
         else Some (lit ''DAFENG_BACKEND=llama_cpp '' @ quoted_model model))
      else if backend \<noteq> [] \<and> backend \<noteq> lit ''deterministic'' then
        Some (lit ''DAFENG_BACKEND='' @ backend @ lit '' ''
          @ (if model_path \<noteq> [] then quoted_model model_path else []))
      else Some [])"

definition agent_command :: "bytes \<Rightarrow> path \<Rightarrow> path \<Rightarrow> bytes" where
  "agent_command pre share_dir daemon_bin =
     pre @ share_dir @ lit ''/install_launchagent.sh '' @ [0x27] @ daemon_bin @ [0x27]"

definition CmdSetup :: "environment \<Rightarrow> (path \<Rightarrow> bool) \<Rightarrow> sys \<Rightarrow> bytes \<Rightarrow> path \<Rightarrow> int \<times> bytes list" where
  "CmdSetup env exists sh backend model_path =
     (let share_dir = FindShareDir exists in
      if \<not> exists (join share_dir (lit ''deploy.sh'')) then (1, [])
      else case run_cmd sh (share_dir @ lit ''/deploy.sh'') [] of
        (rc, log) \<Rightarrow>
          if rc \<noteq> 0 then (rc, log)
          else case env_prefix env exists backend model_path of
            None \<Rightarrow> (2, log)
          | Some pre \<Rightarrow>
              (case run_cmd sh (agent_command pre share_dir (daemon_binary exists)) log of
                 (rc2, log2) \<Rightarrow> if rc2 \<noteq> 0 then (rc2, log2) else (0, log2)))"

section \<open>pause and resume\<close>

definition alive_command :: bytes where
  "alive_command = lit ''pgrep -x dafeng-daemon >/dev/null 2>&1''"

definition DafengDaemonAlive :: "sys \<Rightarrow> bytes list \<Rightarrow> bool \<times> bytes list" where
  "DafengDaemonAlive sh log = apfst (\<lambda>rc. rc = 0) (run_cmd sh alive_command log)"

definition service_name :: "nat \<Rightarrow> bytes" where
  "service_name uid = lit ''gui/'' @ dec uid @ lit ''/com.dafeng.daemon''"

definition DafengDaemonLoaded :: "sys \<Rightarrow> nat \<Rightarrow> bytes list \<Rightarrow> bool \<times> bytes list" where
  "DafengDaemonLoaded sh uid log =
     apfst (\<lambda>rc. rc = 0)
       (run_cmd sh (lit ''launchctl print '' @ service_name uid @ lit '' >/dev/null 2>&1'') log)"

text \<open>Waiting for the daemon to exit, \<open>n\<close> more times.\<close>

fun wait_dead :: "nat \<Rightarrow> sys \<Rightarrow> bytes list \<Rightarrow> bytes list" where
  "wait_dead 0 sh log = log"
| "wait_dead (Suc n) sh log =
     (case DafengDaemonAlive sh log of (alive, log') \<Rightarrow> if alive then wait_dead n sh log' else log')"

definition CmdPause :: "sys \<Rightarrow> nat \<Rightarrow> int \<times> bytes list" where
  "CmdPause sh uid =
     (case DafengDaemonLoaded sh uid [] of
        (loaded, log) \<Rightarrow>
          if \<not> loaded then (0, log)
          else case run_cmd sh (lit ''launchctl bootout '' @ service_name uid) log of
            (rc, log1) \<Rightarrow>
              if rc \<noteq> 0 \<and> WEXITSTATUS rc \<noteq> 3 then (1, log1)
              else (0, wait_dead 30 sh log1))"

text \<open>The retries of \<^verbatim>\<open>resume\<close>, \<open>n\<close> more times.\<close>

fun bootstrap_loop :: "nat \<Rightarrow> sys \<Rightarrow> bytes \<Rightarrow> bytes list \<Rightarrow> int \<times> bytes list" where
  "bootstrap_loop 0 sh cmd log = (1, log)"
| "bootstrap_loop (Suc n) sh cmd log =
     (case run_cmd sh cmd log of
        (rc, log') \<Rightarrow> if rc = 0 then (0, log')
                      else if WEXITSTATUS rc = 17 then (0, log')
                      else bootstrap_loop n sh cmd log')"

definition plist_path :: "path \<Rightarrow> path" where
  "plist_path home = home @ lit ''/Library/LaunchAgents/com.dafeng.daemon.plist''"

definition bootstrap_command :: "nat \<Rightarrow> path \<Rightarrow> bytes" where
  "bootstrap_command uid plist =
     lit ''launchctl bootstrap gui/'' @ dec uid @ [0x20, 0x27] @ plist @ [0x27] @ lit '' 2>/dev/null''"

definition CmdResume :: "environment \<Rightarrow> (path \<Rightarrow> bool) \<Rightarrow> sys \<Rightarrow> nat \<Rightarrow> int \<times> bytes list" where
  "CmdResume env exists sh uid =
     (case env_value env (lit ''HOME'') of
        None \<Rightarrow> (1, [])
      | Some home \<Rightarrow>
          if \<not> exists (plist_path home) then (1, [])
          else case DafengDaemonLoaded sh uid [] of
            (loaded, log) \<Rightarrow>
              if loaded then (0, log)
              else bootstrap_loop 5 sh (bootstrap_command uid (plist_path home)) log)"

section \<open>Dispatch\<close>

record ('c, 'd, 'g) cli_env =
  ce_env :: environment
  ce_cwd :: path
  ce_msgpack :: msgpack
  ce_ops :: "'c conn_ops"
  ce_connect :: "bytes \<Rightarrow> i32 \<Rightarrow> nat \<Rightarrow> 'c option"
  ce_open :: open_env
  ce_sq :: "'d sqlite_api"
  ce_db :: 'd
  ce_round :: round_env
  ce_make_git :: "GitSyncConfig \<Rightarrow> LibGit2Sync option"
  ce_git_api :: "'g git_api"
  ce_exists :: "path \<Rightarrow> bool"
  ce_sh :: sys
  ce_uid :: nat
  ce_elapsed :: nat

text \<open>What a run leaves: code, output, commands, client (if there was one), what was done to the
  history database, files and repository.\<close>

record ('c, 'g) cli_result =
  cr_code :: int
  cr_out :: bytes
  cr_cmds :: "bytes list"
  cr_client :: "'c Client"
  cr_opened :: "open_action list"
  cr_fs :: fs
  cr_git :: 'g

definition cli_result_init :: "fs \<Rightarrow> 'g \<Rightarrow> ('c, 'g) cli_result" where
  "cli_result_init f g =
     \<lparr>cr_code = 1, cr_out = [], cr_cmds = [], cr_client = Client_init, cr_opened = [], cr_fs = f, cr_git = g\<rparr>"

definition of_client :: "('c, 'g) cli_result \<Rightarrow> 'c Client \<times> int \<times> bytes \<Rightarrow> ('c, 'g) cli_result" where
  "of_client r x = (case x of (cl, code, out) \<Rightarrow> r\<lparr>cr_client := cl, cr_code := code, cr_out := out\<rparr>)"

definition of_system :: "('c, 'g) cli_result \<Rightarrow> int \<times> bytes list \<Rightarrow> ('c, 'g) cli_result" where
  "of_system r x = (case x of (code, log) \<Rightarrow> r\<lparr>cr_code := code, cr_cmds := log\<rparr>)"

definition cli_command :: "('c, 'd, 'g) cli_env \<Rightarrow> bytes \<Rightarrow> cli_args \<Rightarrow> fs \<Rightarrow> 'g \<Rightarrow> ('c, 'g) cli_result" where
  "cli_command ce cmd args f g =
     (let r = cli_result_init f g; mp = ce_msgpack ce; ops = ce_ops ce;
          connect = ce_connect ce (ca_addr args) (ca_timeout_ms args);
          data_dir = GetDataDir (ce_env ce) (ce_cwd ce) in
      if cmd = lit ''ping'' then of_client r (CmdPing mp ops connect (ce_elapsed ce))
      else if cmd = lit ''stats'' then of_client r (CmdStats mp ops connect)
      else if cmd = lit ''history'' then
        (case CmdHistory (ce_open ce) (ce_sq ce) (ce_db ce) data_dir (ca_history_limit args) of
           (code, out, acts) \<Rightarrow> r\<lparr>cr_code := code, cr_out := out, cr_opened := acts\<rparr>)
      else if cmd = lit ''learn'' then
        (case CmdLearn (ce_env ce) (ce_open ce) (ce_round ce) (ce_make_git ce) (ce_git_api ce) (ce_elapsed ce)
                data_dir (if ca_min_freq args <s 1 then 1 else ca_min_freq args) (ca_dry_run args) f g of
           (code, out, acts, f', g') \<Rightarrow>
             r\<lparr>cr_code := code, cr_out := out, cr_opened := acts, cr_fs := f', cr_git := g'\<rparr>)
      else if cmd = lit ''setup'' then
        of_system r (CmdSetup (ce_env ce) (ce_exists ce) (ce_sh ce) (ca_backend args) (ca_model_path args))
      else if cmd = lit ''pause'' then of_system r (CmdPause (ce_sh ce) (ce_uid ce))
      else if cmd = lit ''resume'' then
        of_system r (CmdResume (ce_env ce) (ce_exists ce) (ce_sh ce) (ce_uid ce))
      else if cmd = lit ''rerank'' then
        (if ca_code args = [] \<or> ca_cands args = [] then r
         else of_client r (CmdRerank mp ops connect (ca_code args) (ca_ctx args) (ca_cands args) (ca_app args)))
      else if cmd = lit ''commit'' then
        (if ca_code args = [] \<or> ca_text args = [] then r
         else of_client r (CmdCommit mp ops connect (ca_code args) (ca_text args) (ca_ctx args)))
      else r)"

text \<open>\<open>argv\<close> without the program's name.\<close>

definition cli_main :: "('c, 'd, 'g) cli_env \<Rightarrow> bytes list \<Rightarrow> fs \<Rightarrow> 'g \<Rightarrow> ('c, 'g) cli_result" where
  "cli_main ce argv f g =
     (case argv of
        [] \<Rightarrow> cli_result_init f g
      | cmd # rest \<Rightarrow>
          if cmd = lit ''help'' \<or> cmd = lit ''-h'' \<or> cmd = lit ''--help''
          then (cli_result_init f g)\<lparr>cr_code := 0\<rparr>
          else case cli_parse rest (cli_defaults (GetDaemonAddress (ce_env ce) (ce_cwd ce))) of
            None \<Rightarrow> cli_result_init f g
          | Some args \<Rightarrow> cli_command ce cmd args f g)"

end
