(* ===== verification/Cli_Correct.thy ===== *)
theory Cli_Correct
  imports Cli_Main
begin

text \<open>
  Properties of the command line client: what learning does to the saved counts, how the shell
  reads the command lines of setup, what the caller sees of its failures, and that pausing and
  resuming end.
\<close>

section \<open>Learning\<close>

definition ngram_file :: "path \<Rightarrow> path" where
  "ngram_file data_dir = join (join data_dir (lit ''userdata'')) (lit ''personal_ngram.bin'')"

definition saved_count :: "path \<Rightarrow> fs \<Rightarrow> bytes \<Rightarrow> bytes \<Rightarrow> u32" where
  "saved_count data_dir f = BigramCount (snd (Load (ngram_file data_dir) f))"

text \<open>The pass of a learning run, and the adjacent pairs it counts.\<close>

definition learn_pass :: "round_env \<Rightarrow> path \<Rightarrow> fs \<Rightarrow> NgramTable" where
  "learn_pass re data_dir f =
     snd (UpdateBigramsFromHistory IncrementBigram (re_sort re) (re_recent re 5000) (snd (Load (ngram_file data_dir) f)))"

definition learn_bigrams :: "round_env \<Rightarrow> (bytes \<times> bytes) list" where
  "learn_bigrams re = history_bigrams kChainGapUs (re_sort re (re_recent re 5000))"

lemma learn_round_config_fields [simp]:
  "lc_data_dir (learn_round_config env dd git mf dry) = dd"
  "lc_ngram_scan_max_entries (learn_round_config env dd git mf dry) = 5000"
  "lc_min_new_word_freq (learn_round_config env dd git mf dry) = mf"
  by (simp_all add: learn_round_config_def LearningRoundConfig_init_def Let_def split: option.split)

lemma short_table_put2:
  "table_ok m \<Longrightarrow> short_table m \<Longrightarrow> short_key a \<Longrightarrow> short_key b \<Longrightarrow> short_table (put2 a b v m)"
  by (auto simp: short_table_def key_pairs_put2)

lemma read_n_length: "read_n n s = Some (a, r) \<Longrightarrow> length a = n"
  by (auto simp: read_n_def split: if_splits)

lemma load_record_short: "load_record s = Some ((a, b, c), r) \<Longrightarrow> short_key a \<and> short_key b"
proof -
  have "unat w \<le> 65535" for w :: u16 using unat_bound [of w] by simp
  then show "load_record s = Some ((a, b, c), r) \<Longrightarrow> short_key a \<and> short_key b"
    by (auto simp: load_record_def short_key_def split: option.splits dest!: read_n_length)
qed

lemma short_table_load_pairs:
  "table_ok m \<Longrightarrow> short_table m \<Longrightarrow> short_table (snd (load_pairs n s m))"
proof (induction n s m rule: load_pairs.induct)
  case (2 n s m)
  show ?case
  proof (cases "load_record s")
    case (Some x)
    obtain a b c r where x: "x = ((a, b, c), r)" by (metis surj_pair)
    have "short_key a" "short_key b" using load_record_short Some unfolding x by blast+
    with 2 Some x show ?thesis by (simp add: table_ok_put2 short_table_put2)
  qed (simp add: 2)
qed simp

lemma short_table_Nil: "short_table []"
  by (simp add: short_table_def key_pairs_def)

lemma short_table_Load: "table_ok (snd (Load p f)) \<and> short_table (snd (Load p f))"
proof
  show "table_ok (snd (Load p f))" by (simp add: Load_def table_ok_load_bytes split: option.split)
  show "short_table (snd (Load p f))"
    by (simp add: Load_def load_bytes_def short_table_Nil short_table_load_pairs split: option.split)
qed

lemma learn_pass_ok: "table_ok (learn_pass re dd f) \<and> short_table (learn_pass re dd f)"
  using update_table_ok [OF prod.collapse [symmetric]] update_short_table [OF prod.collapse [symmetric]]
    short_table_Load [of "ngram_file dd" f] unfolding learn_pass_def by blast

lemma learn_run:
  assumes "CmdLearn env oe re mk api elapsed dd mf False f g = (0, out, acts, f', g')"
  shows "f' (ngram_file dd) = Some (save_bytes (learn_pass re dd f))"
proof -
  define git where "git = mk (GitSyncConfig_init\<lparr>gc_repo_path := join dd (lit ''userdata'')\<rparr>)"
  define cfg where "cfg = learn_round_config env dd (git \<noteq> None) mf False"
  define ngram where "ngram = snd (Load (ngram_file dd) f)"
  obtain r st where run: "RunLearningRound re api git cfg f ngram g = (r, st)" by fastforce
  have "fst (MakeSqliteHistoryStore oe (join dd (lit ''history.db'')) dd)"
    using assms by (auto simp: CmdLearn_def simp del: lit_simps split: prod.splits if_splits)
  then have res: "lr_ok r" "f' = rd_fs st"
    using assms run unfolding git_def cfg_def ngram_def ngram_file_def
    by (auto simp: CmdLearn_def Let_def simp del: lit_simps split: prod.splits if_splits)
  have path: "ngram_path cfg = ngram_file dd"
    by (simp add: ngram_path_def userdata_def ngram_file_def cfg_def del: lit_simps)
  have "f' = snd (write_sentinel re cfg ngram f)" "fst (write_ngram re cfg ngram f)"
    using run res by (auto simp: round_eq)
  then have "f' (ngram_path cfg) = Some (save_bytes (snd (round_ngram re cfg ngram)))"
    by (simp add: final_ngram write_ngram_result)
  then show ?thesis
    unfolding path by (simp add: round_ngram_def learn_pass_def ngram_def cfg_def)
qed

lemma learn_once:
  assumes "CmdLearn env oe re mk api elapsed dd mf False f g = (0, out, acts, f', g')"
    and "Size (learn_pass re dd f) < 2 ^ 32"
  shows "saved_count dd f' x y = saved_count dd f x y + of_nat (count_list (learn_bigrams re) (x, y))"
proof -
  have "BigramCount (snd (load_bytes (save_bytes (learn_pass re dd f)))) = BigramCount (learn_pass re dd f)"
    using load_saved_counts learn_pass_ok assms(2) by blast
  then have "saved_count dd f' x y = BigramCount (learn_pass re dd f) x y"
    by (simp add: saved_count_def Load_def learn_run [OF assms(1)])
  also have "\<dots> = saved_count dd f x y + of_nat (count_list (learn_bigrams re) (x, y))"
    using table.update_counts [OF prod.collapse [symmetric]]
    by (simp add: learn_pass_def saved_count_def learn_bigrams_def)
  finally show ?thesis .
qed

text \<open>Whatever its mode, a run first opens the history store with all that belongs to it.\<close>

lemma learn_opens:
  assumes "CmdLearn env oe re mk api elapsed dd mf False f g = (0, out, acts, f', g')"
  shows "fst (snd (snd (CmdLearn env oe re mk api elapsed dd mf dry f2 g2))) =
      [Mkdir (oe_parent oe (join dd (lit ''history.db''))), Open_db (join dd (lit ''history.db'')),
       Chmod_0600 (join dd (lit ''history.db'')), Apply_schema]
    \<and> (dry \<longrightarrow> snd (snd (snd (CmdLearn env oe re mk api elapsed dd mf dry f2 g2))) = (f2, g2))"
proof -
  obtain opened a where o: "MakeSqliteHistoryStore oe (join dd (lit ''history.db'')) dd = (opened, a)" by fastforce
  have opened using assms by (auto simp: CmdLearn_def o simp del: lit_simps split: if_splits)
  moreover from this have "a = [Mkdir (oe_parent oe (join dd (lit ''history.db''))), Open_db (join dd (lit ''history.db'')),
      Chmod_0600 (join dd (lit ''history.db'')), Apply_schema]"
    using o by (auto simp: MakeSqliteHistoryStore_def Let_def simp del: lit_simps split: if_splits)
  ultimately show ?thesis by (simp add: CmdLearn_def o Let_def del: lit_simps split: prod.split)
qed

text \<open>What is shown before the round is what the round writes.\<close>

lemma preview_is_round_words: "learn_preview re cfg f = round_words re cfg f"
  by (auto simp: learn_preview_def round_words_def encode_words_def discovery_config_def encode_word_def
      DiscoveryConfig_init_def Let_def split: prod.splits)

text \<open>C14: A learning run of the client adds the adjacent pairs of the scanned history to the saved
  counts; it does not remember what it has counted, so a second run over the same history counts every
  pair a second time.  A dry run changes neither the learned files nor the repository; but it too opens
  the history store, which creates, secures and migrates \<^verbatim>\<open>history.db\<close>.\<close>

theorem learn_twice_counts_twice:
  assumes "CmdLearn env oe re mk api elapsed dd mf False f g = (0, out, acts, f1, g1)"
    and "CmdLearn env oe re mk api elapsed dd mf False f1 g1 = (0, out2, acts2, f2, g2)"
    and "Size (learn_pass re dd f) < 2 ^ 32" and "Size (learn_pass re dd f1) < 2 ^ 32"
  shows "saved_count dd f1 x y = saved_count dd f x y + of_nat (count_list (learn_bigrams re) (x, y))
    \<and> saved_count dd f2 x y = saved_count dd f x y + 2 * of_nat (count_list (learn_bigrams re) (x, y))
    \<and> snd (snd (CmdLearn env oe re mk api elapsed dd mf True f g)) =
      ([Mkdir (oe_parent oe (join dd (lit ''history.db''))), Open_db (join dd (lit ''history.db'')),
        Chmod_0600 (join dd (lit ''history.db'')), Apply_schema], f, g)"
  using learn_once [OF assms(1,3)] learn_once [OF assms(2,4)] learn_opens [OF assms(1), of True f g]
  by (simp add: prod_eq_iff del: lit_simps)

definition demo_learn :: "fs \<Rightarrow> int \<times> bytes \<times> open_action list \<times> fs \<times> mem_git" where
  "demo_learn f = CmdLearn (\<lambda>_. None)
     \<lparr>oe_canon = Some, oe_absolute = \<lambda>p. True, oe_parent = \<lambda>p. [47, 100], oe_mkdir = True,
      oe_open = True, oe_handle = True, oe_schema = True\<rparr>
     demo_round_env MakeGitSync_stub mem_git_api 0 [47, 100] 2 False f \<lparr>mg_log = [], mg_work = 0, mg_staged = 0\<rparr>"

lemma demo_learn_code: "\<exists>out acts f' g'. demo_learn f = (0, out, acts, f', g') \<and> g' = \<lparr>mg_log = [], mg_work = 0, mg_staged = 0\<rparr>"
  by (simp add: demo_learn_def CmdLearn_def MakeSqliteHistoryStore_def PathIsUnder_def join_def separator_def
      Let_def round_eq write_words_def write_ngram_def Generate_def Save_def demo_round_env_def
      replace_no_faults MakeGitSync_stub_def git_step_def split: prod.split)

lemma demo_learn_pass:
  "learn_pass demo_round_env [47, 100] (\<lambda>_. None) = [([97], [([98], 1)]), ([98], [([98], 1)])]"
  using demo_round_ngram
  by (simp add: learn_pass_def round_ngram_def Load_def demo_round_config_def LearningRoundConfig_init_def)

theorem learn_twice_counts_twice_witness:
  "\<exists>out acts f1 g1 out2 acts2 f2 g2. demo_learn (\<lambda>_. None) = (0, out, acts, f1, g1)
     \<and> demo_learn f1 = (0, out2, acts2, f2, g2)
     \<and> saved_count [47, 100] f1 [97] [98] = 1 \<and> saved_count [47, 100] f2 [97] [98] = 2"
proof -
  obtain out acts f1 g1 where r1: "demo_learn (\<lambda>_. None) = (0, out, acts, f1, g1)"
    and g1: "g1 = \<lparr>mg_log = [], mg_work = 0, mg_staged = 0\<rparr>" using demo_learn_code by blast
  obtain out2 acts2 f2 g2 where r2: "demo_learn f1 = (0, out2, acts2, f2, g2)" using demo_learn_code by blast
  have bigrams: "learn_bigrams demo_round_env = [([97], [98]), ([98], [98])]"
    using two_commits_bigrams by (simp add: learn_bigrams_def demo_round_env_def two_commits_def ts_less_def)
  have saved: "f1 (ngram_file [47, 100]) = Some (save_bytes [([97], [([98], 1)]), ([98], [([98], 1)])])"
    using learn_run [OF r1 [unfolded demo_learn_def]] by (simp add: demo_learn_pass)
  have "snd (Load (ngram_file [47, 100]) f1) = [([97], [([98], 1)]), ([98], [([98], 1)])]"
    by (simp add: Load_def saved load_bytes_save Size_def put_pair_def put2_def storable_def short_key_def inner_of_def)
  then have "learn_pass demo_round_env [47, 100] f1 = [([97], [([98], 2)]), ([98], [([98], 2)])]"
    using bigrams by (simp add: learn_pass_def table.update_bumps learn_bigrams_def IncrementBigram_def
        put2_def inner_of_def)
  then have "Size (learn_pass demo_round_env [47, 100] f1) < 2 ^ 32" by (simp add: Size_def)
  moreover have "Size (learn_pass demo_round_env [47, 100] (\<lambda>_. None)) < 2 ^ 32"
    by (simp add: demo_learn_pass Size_def)
  moreover have "saved_count [47, 100] (\<lambda>_. None) [97] [98] = 0"
    by (simp add: saved_count_def Load_def BigramCount_def)
  ultimately have "saved_count [47, 100] f1 [97] [98] = 1 \<and> saved_count [47, 100] f2 [97] [98] = 2"
    using learn_twice_counts_twice [OF r1 [unfolded demo_learn_def] r2 [unfolded demo_learn_def, folded g1],
        of "[97]" "[98]"]
    by (simp add: bigrams)
  with r1 r2 show ?thesis by blast
qed

section \<open>The command lines of setup\<close>

text \<open>A word is never longer than what was read, and one quote in it costs a character more.\<close>

lemma sh_length:
  "sh_word s = Some (w, r) \<Longrightarrow> length w + length r \<le> length s \<and> (0x27 \<in> set w \<longrightarrow> length w + length r < length s)"
  "sh_quoted s = Some (w, r) \<Longrightarrow>
     length w + length r < length s \<and> (0x27 \<in> set w \<longrightarrow> length w + length r + 1 < length s)"
  by (induction s and s arbitrary: w r and w r rule: sh_word_sh_quoted.induct)
    (fastforce split: if_splits list.splits)+

lemma quoted_model_word:
  "sh_word (quoted_model model @ r) = Some (lit ''DAFENG_MODEL_PATH='' @ model, 0x20 # r) \<longleftrightarrow> 0x27 \<notin> set model"
proof -
  have "list_all plain_char (lit ''DAFENG_MODEL_PATH='')" by (simp add: plain_char_def)
  then have "sh_word (quoted_model model @ r)
      = map_option (apfst ((@) (lit ''DAFENG_MODEL_PATH=''))) (sh_quoted (model @ 0x27 # 0x20 # r))"
    by (simp add: quoted_model_def sh_word_plain del: lit_simps)
  moreover have "sh_quoted (model @ 0x27 # 0x20 # r) = Some (model, 0x20 # r) \<longleftrightarrow> 0x27 \<notin> set model"
  proof
    assume "sh_quoted (model @ 0x27 # 0x20 # r) = Some (model, 0x20 # r)"
    from sh_length(2) [OF this] show "0x27 \<notin> set model" by simp
  qed (simp add: sh_quoted_plain)
  ultimately show ?thesis
    by (cases "sh_quoted (model @ 0x27 # 0x20 # r)") (auto simp: prod_eq_iff simp del: lit_simps)
qed

lemma share_dir_plain: "list_all plain_char (FindShareDir exists)"
proof -
  have "FindShareDir exists \<in> set share_candidates"
    by (auto simp: FindShareDir_def share_candidates_def simp del: lit_simps split: list.split if_splits)
  moreover have "list_all (list_all plain_char) share_candidates"
    by (simp add: share_candidates_def plain_char_def)
  ultimately show ?thesis by (simp add: list_all_iff)
qed

text \<open>C38: With the llama_cpp backend the shell reads from the launch-agent command of setup first the
  backend variable.  It then reads the model variable with the model path unchanged, followed by exactly
  the script and the quoted daemon path, if and only if the path contains no single quote, because the
  path is put between single quotes as it is.  The rest is read as the script and the daemon.\<close>

theorem setup_command_words:
  assumes "env_prefix env exists (lit ''llama_cpp'') model_path = Some pre"
  shows "let model = (if model_path = [] then default_model env else model_path);
        daemon = [0x27] @ daemon_binary exists @ [0x27];
        script = FindShareDir exists @ lit ''/install_launchagent.sh'' @ [0x20] @ daemon
      in exists model
    \<and> (\<exists>r. sh_word (agent_command pre (FindShareDir exists) (daemon_binary exists))
          = Some (lit ''DAFENG_BACKEND=llama_cpp'', 0x20 # r)
        \<and> (sh_word r = Some (lit ''DAFENG_MODEL_PATH='' @ model, 0x20 # script) \<longleftrightarrow> 0x27 \<notin> set model))
    \<and> sh_word script = Some (FindShareDir exists @ lit ''/install_launchagent.sh'', 0x20 # daemon)
    \<and> sh_word daemon = Some (daemon_binary exists, [])"
proof -
  define model where "model = (if model_path = [] then default_model env else model_path)"
  let ?share = "FindShareDir exists" and ?bin = "daemon_binary exists"
  have ex: "exists model" and pre: "pre = lit ''DAFENG_BACKEND=llama_cpp '' @ quoted_model model"
    using assms by (auto simp: env_prefix_def Let_def model_def simp del: lit_simps split: if_splits)
  define r3 where "r3 = [0x27] @ ?bin @ [0x27]"
  define r2 where "r2 = ?share @ lit ''/install_launchagent.sh'' @ [0x20] @ r3"
  have split: "lit ''DAFENG_BACKEND=llama_cpp '' = lit ''DAFENG_BACKEND=llama_cpp'' @ [0x20]"
    "lit ''/install_launchagent.sh '' = lit ''/install_launchagent.sh'' @ [0x20]" by simp_all
  have cmd: "agent_command pre ?share ?bin = lit ''DAFENG_BACKEND=llama_cpp'' @ 0x20 # quoted_model model @ r2"
    by (simp add: agent_command_def pre split r2_def r3_def del: lit_simps)
  have plain: "list_all plain_char (lit ''DAFENG_BACKEND=llama_cpp'')"
    "list_all plain_char (lit ''/install_launchagent.sh'')" by (simp_all add: plain_char_def)
  have "0x27 \<notin> set ?bin" by (simp add: daemon_binary_def)
  then have "sh_word r3 = Some (?bin, [])" by (simp add: r3_def sh_quoted_plain)
  moreover have "sh_word r2 = Some (?share @ lit ''/install_launchagent.sh'', 0x20 # r3)"
    using share_dir_plain plain(2) by (simp add: r2_def sh_word_plain del: lit_simps)
  moreover have "sh_word (agent_command pre ?share ?bin)
      = Some (lit ''DAFENG_BACKEND=llama_cpp'', 0x20 # quoted_model model @ r2)"
    using plain(1) by (simp add: cmd sh_word_plain del: lit_simps)
  ultimately show ?thesis
    using ex quoted_model_word [of model r2]
    unfolding Let_def model_def [symmetric] r3_def [symmetric] r2_def [symmetric] by blast
qed

text \<open>The model path is m'.\<close>

theorem setup_command_words_witness:
  "\<exists>r. sh_word (agent_command (lit ''DAFENG_BACKEND=llama_cpp '' @ quoted_model [0x6D, 0x27])
       (FindShareDir (\<lambda>p. True)) (daemon_binary (\<lambda>p. True))) = Some (lit ''DAFENG_BACKEND=llama_cpp'', 0x20 # r)
     \<and> sh_word r \<noteq> Some (lit ''DAFENG_MODEL_PATH='' @ [0x6D, 0x27], 0x20 #
          FindShareDir (\<lambda>p. True) @ lit ''/install_launchagent.sh'' @ [0x20] @ [0x27]
          @ daemon_binary (\<lambda>p. True) @ [0x27])"
  using setup_command_words [of "\<lambda>_. None" "\<lambda>p. True" "[0x6D, 0x27]"
      "lit ''DAFENG_BACKEND=llama_cpp '' @ quoted_model [0x6D, 0x27]"]
  by (auto simp: env_prefix_def Let_def simp del: lit_simps)

section \<open>Exit codes\<close>

text \<open>C39: When the scripts of setup end on their own, whatever their exit codes, setup's own exit status
  is 0 unless the share directory or the model file is missing: it returns the wait status of a failed
  script, a multiple of 256, of which the parent sees the low byte.\<close>

theorem setup_exit_status:
  assumes "\<And>k cmd. sh k cmd mod 256 = 0"
  shows "exit_status (fst (CmdSetup env exists sh backend model_path)) =
    (if \<not> exists (join (FindShareDir exists) (lit ''deploy.sh'')) then 1
     else if sh 0 (FindShareDir exists @ lit ''/deploy.sh'') = 0
       \<and> env_prefix env exists backend model_path = None then 2
     else 0)"
  using assms by (auto simp: CmdSetup_def run_cmd_def exit_status_def Let_def simp del: lit_simps split: option.split)

text \<open>A deploy script that fails with exit code 1.\<close>

theorem setup_exit_status_witness:
  "fst (CmdSetup (\<lambda>_. None) (\<lambda>p. True) (\<lambda>k cmd. 256) [] []) = 256
   \<and> exit_status (fst (CmdSetup (\<lambda>_. None) (\<lambda>p. True) (\<lambda>k cmd. 256) [] [])) = 0"
  using setup_exit_status [of "\<lambda>k cmd. 256" "\<lambda>_. None" "\<lambda>p. True" "[]" "[]"]
  by (simp add: CmdSetup_def run_cmd_def del: lit_simps)

section \<open>pause and resume end\<close>

lemma wait_dead_log: "\<exists>more. wait_dead n sh log = log @ more \<and> length more \<le> n
    \<and> (length more < n \<longrightarrow> more \<noteq> [] \<and> sh (length log + length more - 1) alive_command \<noteq> 0)"
proof (induction n arbitrary: log)
  case (Suc n)
  show ?case
  proof (cases "sh (length log) alive_command = 0")
    case True
    from Suc [of "log @ [alive_command]"] obtain rest where
      "wait_dead n sh (log @ [alive_command]) = (log @ [alive_command]) @ rest" "length rest \<le> n"
      "length rest < n \<longrightarrow> rest \<noteq> [] \<and> sh (Suc (length log) + length rest - 1) alive_command \<noteq> 0" by auto
    with True show ?thesis
      by (intro exI [of _ "alive_command # rest"]) (auto simp: DafengDaemonAlive_def run_cmd_def)
  next
    case False
    then show ?thesis
      by (intro exI [of _ "[alive_command]"]) (simp add: DafengDaemonAlive_def run_cmd_def)
  qed
qed simp

lemma wait_dead_polls:
  "(length (wait_dead n sh log) < length log + n \<longrightarrow> sh (length (wait_dead n sh log) - 1) alive_command \<noteq> 0)
   \<and> ((\<forall>i < n. sh (i + length log) alive_command = 0) \<longrightarrow> length (wait_dead n sh log) = length log + n)"
proof -
  obtain more where more: "wait_dead n sh log = log @ more" "length more \<le> n"
    "length more < n \<longrightarrow> more \<noteq> [] \<and> sh (length log + length more - 1) alive_command \<noteq> 0"
    using wait_dead_log by blast
  have "\<not> (\<forall>i < n. sh (i + length log) alive_command = 0)" if "length more < n"
  proof -
    have "length more - 1 + length log = length log + length more - 1" using more(3) that by (cases more) auto
    then show ?thesis using more(3) that by (metis less_imp_diff_less)
  qed
  moreover have "length more < n \<or> length more = n" using more(2) by linarith
  ultimately show ?thesis using more by auto
qed

lemma bootstrap_loop_result:
  "\<exists>k \<le> n. snd (bootstrap_loop n sh cmd log) = log @ replicate k cmd
    \<and> (fst (bootstrap_loop n sh cmd log) = 0 \<longleftrightarrow>
         (\<exists>i < n. sh (length log + i) cmd = 0 \<or> WEXITSTATUS (sh (length log + i) cmd) = 17))
    \<and> fst (bootstrap_loop n sh cmd log) \<in> {0, 1}"
proof (induction n arbitrary: log)
  case (Suc n)
  let ?good = "\<lambda>i. sh i cmd = 0 \<or> WEXITSTATUS (sh i cmd) = 17"
  show ?case
  proof (cases "?good (length log)")
    case True
    then show ?thesis by (intro exI [of _ 1]) (auto simp: run_cmd_def)
  next
    case False
    from Suc [of "log @ [cmd]"] obtain k where k: "k \<le> n"
      "snd (bootstrap_loop n sh cmd (log @ [cmd])) = (log @ [cmd]) @ replicate k cmd"
      "fst (bootstrap_loop n sh cmd (log @ [cmd])) = 0 \<longleftrightarrow> (\<exists>i < n. ?good (Suc (length log + i)))"
      "fst (bootstrap_loop n sh cmd (log @ [cmd])) \<in> {0, 1}" by auto
    have "(\<exists>i < Suc n. ?good (length log + i)) \<longleftrightarrow> (\<exists>i < n. ?good (Suc (length log + i)))"
      using False by (auto simp: less_Suc_eq_0_disj)
    with k False show ?thesis by (intro exI [of _ "Suc k"]) (simp add: run_cmd_def)
  qed
qed simp

lemma resume_result:
  "length (snd (CmdResume env exists sh uid)) \<le> 6
   \<and> (fst (CmdResume env exists sh uid) = 0 \<longleftrightarrow>
        (\<exists>home. env_value env (lit ''HOME'') = Some home \<and> exists (plist_path home)
          \<and> (fst (DafengDaemonLoaded sh uid [])
             \<or> (\<exists>i < 5. let rc = sh (Suc i) (bootstrap_command uid (plist_path home))
                     in rc = 0 \<or> WEXITSTATUS rc = 17))))"
proof -
  obtain loaded log where l: "DafengDaemonLoaded sh uid [] = (loaded, log)" "length log = 1"
    by (simp add: DafengDaemonLoaded_def run_cmd_def)
  show ?thesis
  proof (cases "env_value env (lit ''HOME'')")
    case None
    then show ?thesis by (simp add: CmdResume_def del: lit_simps)
  next
    case (Some home)
    obtain k where "k \<le> 5" "snd (bootstrap_loop 5 sh (bootstrap_command uid (plist_path home)) log)
        = log @ replicate k (bootstrap_command uid (plist_path home))"
      "fst (bootstrap_loop 5 sh (bootstrap_command uid (plist_path home)) log) = 0 \<longleftrightarrow>
         (\<exists>i < 5. sh (length log + i) (bootstrap_command uid (plist_path home)) = 0
           \<or> WEXITSTATUS (sh (length log + i) (bootstrap_command uid (plist_path home))) = 17)"
      using bootstrap_loop_result [of 5 sh "bootstrap_command uid (plist_path home)" log] by blast
    then show ?thesis
      by (simp add: CmdResume_def Some l Let_def del: lit_simps bootstrap_loop.simps)
  qed
qed

lemma pause_result:
  "length (snd (CmdPause sh uid)) \<le> 32
   \<and> (fst (CmdPause sh uid) = 0 \<longleftrightarrow>
        \<not> fst (DafengDaemonLoaded sh uid [])
        \<or> (let rc = sh 1 (lit ''launchctl bootout '' @ service_name uid) in rc = 0 \<or> WEXITSTATUS rc = 3))
   \<and> (fst (DafengDaemonLoaded sh uid []) \<and> fst (CmdPause sh uid) = 0 \<longrightarrow>
        (length (snd (CmdPause sh uid)) < 32 \<longrightarrow> sh (length (snd (CmdPause sh uid)) - 1) alive_command \<noteq> 0)
        \<and> ((\<forall>i < 30. sh (i + 2) alive_command = 0) \<longrightarrow> length (snd (CmdPause sh uid)) = 32))"
proof -
  obtain loaded log where l: "DafengDaemonLoaded sh uid [] = (loaded, log)" "length log = 1"
    by (simp add: DafengDaemonLoaded_def run_cmd_def)
  let ?stop = "lit ''launchctl bootout '' @ service_name uid"
  show ?thesis
    using wait_dead_log [of 30 sh "log @ [?stop]"] wait_dead_polls [of 30 sh "log @ [?stop]"] l(2)
    by (auto simp: CmdPause_def l(1) run_cmd_def Let_def simp del: lit_simps wait_dead.simps)
qed

text \<open>C40: Resuming and pausing end whatever the system answers: resume runs the bootstrap command at most
  five times and succeeds exactly if the agent's file exists and the daemon was loaded or one of the
  tries within the first five succeeds or finds it loaded; pause runs at most 32 commands and fails only
  if stopping a loaded daemon fails with another code than 3.  After stopping a loaded daemon pause
  asks until the daemon is found gone, but at most 30 times: if it is alive each time, pause gives up and
  still returns 0, although the cheat sheet says that it waits until the daemon has really exited.\<close>

theorem pause_resume_end:
  "length (snd (CmdResume env exists sh uid)) \<le> 6
   \<and> (fst (CmdResume env exists sh uid) = 0 \<longleftrightarrow>
        (\<exists>home. env_value env (lit ''HOME'') = Some home \<and> exists (plist_path home)
          \<and> (fst (DafengDaemonLoaded sh uid [])
             \<or> (\<exists>i < 5. let rc = sh (Suc i) (bootstrap_command uid (plist_path home))
                     in rc = 0 \<or> WEXITSTATUS rc = 17))))
   \<and> length (snd (CmdPause sh uid)) \<le> 32
   \<and> (fst (CmdPause sh uid) = 0 \<longleftrightarrow>
        \<not> fst (DafengDaemonLoaded sh uid [])
        \<or> (let rc = sh 1 (lit ''launchctl bootout '' @ service_name uid) in rc = 0 \<or> WEXITSTATUS rc = 3))
   \<and> (fst (DafengDaemonLoaded sh uid []) \<and> fst (CmdPause sh uid) = 0 \<longrightarrow>
        (length (snd (CmdPause sh uid)) < 32 \<longrightarrow> sh (length (snd (CmdPause sh uid)) - 1) alive_command \<noteq> 0)
        \<and> ((\<forall>i < 30. sh (i + 2) alive_command = 0) \<longrightarrow> length (snd (CmdPause sh uid)) = 32))"
  using resume_result [of env exists sh uid] pause_result [of sh uid] by blast

text \<open>A daemon that is loaded by someone else between the second and the third try, and one that
  never exits.\<close>

theorem pause_resume_end_witness:
  "\<exists>code log. CmdResume (\<lambda>_. Some [0x2F]) (\<lambda>p. True) (\<lambda>k cmd. if k = 3 then 17 * 256 else 256) 501 = (code, log)
     \<and> code = 0 \<and> length log \<le> 6
     \<and> fst (CmdPause (\<lambda>k cmd. 0) 501) = 0 \<and> length (snd (CmdPause (\<lambda>k cmd. 0) 501)) = 32"
proof -
  let ?sh = "\<lambda>(k::nat) (cmd::bytes). if k = 3 then 17 * 256 else (256::int)"
  have "\<not> fst (DafengDaemonLoaded ?sh 501 [])"
    by (simp add: DafengDaemonLoaded_def run_cmd_def del: lit_simps)
  moreover have "env_value (\<lambda>_. Some [0x2F]) (lit ''HOME'') = Some [0x2F]"
    by (simp add: env_value_def del: lit_simps)
  moreover have "\<exists>i < 5. let rc = ?sh (Suc i) (bootstrap_command 501 (plist_path [0x2F]))
      in rc = 0 \<or> WEXITSTATUS rc = 17"
    by (intro exI [of _ 2]) (simp add: Let_def WEXITSTATUS_def)
  ultimately have "fst (CmdResume (\<lambda>_. Some [0x2F]) (\<lambda>p. True) ?sh 501) = 0
     \<and> length (snd (CmdResume (\<lambda>_. Some [0x2F]) (\<lambda>p. True) ?sh 501)) \<le> 6"
    using pause_resume_end [of "\<lambda>_. Some [0x2F]" "\<lambda>p. True" ?sh 501] by blast
  moreover have "fst (DafengDaemonLoaded (\<lambda>k cmd. 0) 501 [])"
    by (simp add: DafengDaemonLoaded_def run_cmd_def del: lit_simps)
  then have "fst (CmdPause (\<lambda>k cmd. 0) 501) = 0 \<and> length (snd (CmdPause (\<lambda>k cmd. 0) 501)) = 32"
    using pause_resume_end [of "\<lambda>_. None" "\<lambda>p. True" "\<lambda>k cmd. 0" 501] by (simp add: Let_def del: lit_simps)
  ultimately show ?thesis by (intro exI conjI) (rule surjective_pairing, simp_all)
qed

end
