(* ===== verification/Endpoint_Unix.thy ===== *)
theory Endpoint_Unix
  imports Connection_Api
begin

text \<open>
  src/common/endpoint_unix.cc: the connection over a Unix domain socket, the listening and
  connecting factories and the accept loop.  The operating system is an input: one
  \<open>os_event\<close> per round of the read and write loops, one \<open>accept_event\<close> per round of
  the accept loop.  The list of events ends when the deadline of the call passes, because
  \<^verbatim>\<open>RemainingMs\<close> is 0 from then on.
\<close>

datatype errno = EINTR | EAGAIN | EOTHER

text \<open>One round: remaining time, result of \<^verbatim>\<open>poll\<close>, result of \<^verbatim>\<open>read\<close> or \<^verbatim>\<open>write\<close>.\<close>

record os_event =
  ev_rem :: int
  ev_poll :: int
  ev_poll_errno :: errno
  ev_ret :: int
  ev_ret_errno :: errno

text \<open>\<open>kin\<close> is the kernel's stream from the peer, \<open>kout\<close> what it took for the peer.\<close>

record UnixConnection =
  uc_fd :: int
  uc_os :: "os_event list"
  uc_kin :: bytes
  uc_kout :: bytes

definition kMaxInt :: int where
  "kMaxInt = 2 ^ 31 - 1"

text \<open>\<^verbatim>\<open>RemainingMs\<close>, of the milliseconds left until the deadline.\<close>

definition RemainingMs :: "int \<Rightarrow> int" where
  "RemainingMs rem = (if rem < 0 then 0 else if rem > kMaxInt then kMaxInt else rem)"

text \<open>A \<^verbatim>\<open>read\<close> that returns \<open>ret\<close> delivers at most what was asked for and is there.\<close>

fun read_loop :: "nat \<Rightarrow> bytes \<Rightarrow> os_event list \<Rightarrow> bytes \<Rightarrow> bytes option \<times> os_event list \<times> bytes" where
  "read_loop sz acc [] kin = (if length acc < sz then (None, [], kin) else (Some acc, [], kin))"
| "read_loop sz acc (e # es) kin =
     (if length acc \<ge> sz then (Some acc, e # es, kin)
      else if RemainingMs (ev_rem e) = 0 then (None, es, kin)
      else if ev_poll e = 0 then (None, es, kin)
      else if ev_poll e < 0 then
        (if ev_poll_errno e = EINTR then read_loop sz acc es kin else (None, es, kin))
      else if ev_ret e < 0 then
        (if ev_ret_errno e = EINTR \<or> ev_ret_errno e = EAGAIN then read_loop sz acc es kin
         else (None, es, kin))
      else let n = min (nat (ev_ret e)) (min (sz - length acc) (length kin))
           in if n = 0 then (None, es, kin)
              else read_loop sz (acc @ take n kin) es (drop n kin))"

fun write_loop :: "bytes \<Rightarrow> os_event list \<Rightarrow> bytes \<Rightarrow> bool \<times> os_event list \<times> bytes" where
  "write_loop buf [] kout = (buf = [], [], kout)"
| "write_loop buf (e # es) kout =
     (if buf = [] then (True, e # es, kout)
      else if RemainingMs (ev_rem e) = 0 then (False, es, kout)
      else if ev_poll e = 0 then (False, es, kout)
      else if ev_poll e < 0 then
        (if ev_poll_errno e = EINTR then write_loop buf es kout else (False, es, kout))
      else if ev_ret e < 0 then
        (if ev_ret_errno e = EINTR \<or> ev_ret_errno e = EAGAIN then write_loop buf es kout
         else (False, es, kout))
      else let n = min (nat (ev_ret e)) (length buf)
           in write_loop (drop n buf) es (kout @ take n buf))"

definition Unix_ReadFull :: "UnixConnection \<Rightarrow> nat \<Rightarrow> UnixConnection \<times> bytes option" where
  "Unix_ReadFull c sz =
     (if uc_fd c < 0 then (c, None)
      else case read_loop sz [] (uc_os c) (uc_kin c) of
        (r, es, kin) \<Rightarrow> (c \<lparr>uc_os := es, uc_kin := kin\<rparr>, r))"

definition Unix_WriteAll :: "UnixConnection \<Rightarrow> bytes \<Rightarrow> UnixConnection \<times> bool" where
  "Unix_WriteAll c buf =
     (if uc_fd c < 0 then (c, False)
      else case write_loop buf (uc_os c) (uc_kout c) of
        (r, es, kout) \<Rightarrow> (c \<lparr>uc_os := es, uc_kout := kout\<rparr>, r))"

definition Unix_Close :: "UnixConnection \<Rightarrow> UnixConnection" where
  "Unix_Close c = (if uc_fd c \<ge> 0 then c \<lparr>uc_fd := -1\<rparr> else c)"

definition Unix_IsConnected :: "UnixConnection \<Rightarrow> bool" where
  "Unix_IsConnected c \<longleftrightarrow> uc_fd c \<ge> 0"

definition unix_ops :: "UnixConnection conn_ops" where
  "unix_ops = \<lparr>ReadFull = Unix_ReadFull, WriteAll = Unix_WriteAll, Close = Unix_Close,
     IsConnected = Unix_IsConnected\<rparr>"

section \<open>The loops move exactly the bytes they report\<close>

lemma read_loop_some:
  "read_loop sz acc es kin = (Some bs, es', kin') \<Longrightarrow> length acc \<le> sz \<Longrightarrow>
     length bs = sz \<and> acc @ kin = bs @ kin'"
proof (induction es arbitrary: acc kin)
  case Nil
  then show ?case by (simp split: if_splits)
next
  case (Cons e es)
  define n where "n = min (nat (ev_ret e)) (min (sz - length acc) (length kin))"
  have len: "length (acc @ take n kin) \<le> sz" using Cons.prems(2) by (simp add: n_def)
  consider "length acc \<ge> sz" | "length acc < sz" "read_loop sz acc es kin = (Some bs, es', kin')"
    | "length acc < sz" "read_loop sz (acc @ take n kin) es (drop n kin) = (Some bs, es', kin')"
    using Cons.prems(1) unfolding read_loop.simps Let_def n_def [symmetric] by (simp split: if_splits)
  then show ?case
  proof cases
    case 1
    with Cons.prems show ?thesis by simp
  next
    case 2
    with Cons.IH show ?thesis by simp
  next
    case 3
    with Cons.IH [OF 3(2) len] show ?thesis by simp
  qed
qed

lemma read_loop_suffix:
  "read_loop sz acc es kin = (r, es', kin') \<Longrightarrow> suffix kin' kin"
proof (induction es arbitrary: acc kin)
  case Nil
  then show ?case by (simp split: if_splits)
next
  case (Cons e es)
  define n where "n = min (nat (ev_ret e)) (min (sz - length acc) (length kin))"
  have "kin' = kin \<or> read_loop sz acc es kin = (r, es', kin')
    \<or> read_loop sz (acc @ take n kin) es (drop n kin) = (r, es', kin')"
    using Cons.prems unfolding read_loop.simps Let_def n_def [symmetric] by (simp split: if_splits)
  then show ?case
    using Cons.IH suffix_drop [of n kin] suffix_order.trans by blast
qed

lemma write_loop_result:
  "write_loop buf es kout = (ok, es', kout') \<Longrightarrow>
     \<exists>pre. prefix pre buf \<and> kout' = kout @ pre \<and> (ok \<longrightarrow> pre = buf)"
proof (induction es arbitrary: buf kout)
  case Nil
  then show ?case by auto
next
  case (Cons e es)
  define n where "n = min (nat (ev_ret e)) (length buf)"
  consider "kout' = kout" "ok \<longrightarrow> buf = []" | "write_loop buf es kout = (ok, es', kout')"
    | "write_loop (drop n buf) es (kout @ take n buf) = (ok, es', kout')"
    using Cons.prems unfolding write_loop.simps Let_def n_def [symmetric] by (simp split: if_splits)
  then show ?case
  proof cases
    case 1
    then show ?thesis by (intro exI [of _ "[]"]) simp
  next
    case 2
    then show ?thesis by (rule Cons.IH)
  next
    case 3
    from Cons.IH [OF this] obtain pre where pre: "prefix pre (drop n buf)"
      "kout' = (kout @ take n buf) @ pre" "ok \<longrightarrow> pre = drop n buf" by blast
    have "prefix (take n buf @ pre) (take n buf @ drop n buf)"
      using pre(1) by (simp only: same_prefix_prefix)
    with pre show ?thesis by (intro exI [of _ "take n buf @ pre"]) simp
  qed
qed

interpretation unix: connection unix_ops uc_kin uc_kout
proof
  fix c c' :: UnixConnection and n bs
  show "length bs = n \<and> uc_kin c = bs @ uc_kin c' \<and> uc_kout c' = uc_kout c"
    if "ReadFull unix_ops c n = (c', Some bs)"
    using that read_loop_some [of n "[]" "uc_os c" "uc_kin c" bs]
    by (auto simp: unix_ops_def Unix_ReadFull_def split: if_splits prod.splits)
  show "suffix (uc_kin c') (uc_kin c) \<and> uc_kout c' = uc_kout c"
    if "ReadFull unix_ops c n = (c', None)"
    using that read_loop_suffix [of n "[]" "uc_os c" "uc_kin c"]
    by (auto simp: unix_ops_def Unix_ReadFull_def split: if_splits prod.splits)
  show "uc_kout c' = uc_kout c @ bs \<and> uc_kin c' = uc_kin c"
    if "WriteAll unix_ops c bs = (c', True)"
    using that write_loop_result [of bs "uc_os c" "uc_kout c" True]
    by (auto simp: unix_ops_def Unix_WriteAll_def split: if_splits prod.splits)
  show "(\<exists>pre. prefix pre bs \<and> uc_kout c' = uc_kout c @ pre) \<and> uc_kin c' = uc_kin c"
    if "WriteAll unix_ops c bs = (c', False)"
    using that write_loop_result [of bs "uc_os c" "uc_kout c" False]
    by (fastforce simp: unix_ops_def Unix_WriteAll_def split: if_splits prod.splits)
qed (simp_all add: unix_ops_def Unix_Close_def Unix_IsConnected_def Unix_ReadFull_def Unix_WriteAll_def)

section \<open>Interrupted calls\<close>

text \<open>A round that is only repeated, and one that moves at least one byte.\<close>

definition retry_event :: "os_event \<Rightarrow> bool" where
  "retry_event e \<longleftrightarrow> RemainingMs (ev_rem e) \<noteq> 0
     \<and> (ev_poll e < 0 \<and> ev_poll_errno e = EINTR
        \<or> ev_poll e > 0 \<and> ev_ret e < 0 \<and> (ev_ret_errno e = EINTR \<or> ev_ret_errno e = EAGAIN))"

definition moving_event :: "os_event \<Rightarrow> bool" where
  "moving_event e \<longleftrightarrow> RemainingMs (ev_rem e) \<noteq> 0 \<and> ev_poll e > 0 \<and> ev_ret e > 0"

lemma read_loop_retry: "retry_event e \<Longrightarrow> length acc < sz \<Longrightarrow>
    read_loop sz acc (e # es) kin = read_loop sz acc es kin"
  by (auto simp: retry_event_def)

lemma read_loop_done: "sz \<le> length acc \<Longrightarrow> read_loop sz acc es kin = (Some acc, es, kin)"
  by (cases es) auto

lemma read_loop_progress:
  "list_all (\<lambda>e. retry_event e \<or> moving_event e) es \<Longrightarrow>
     sz - length acc \<le> length (filter moving_event es) \<Longrightarrow> sz - length acc \<le> length kin \<Longrightarrow>
     length acc \<le> sz \<Longrightarrow> fst (read_loop sz acc es kin) = Some (acc @ take (sz - length acc) kin)"
proof (induction es arbitrary: acc kin)
  case (Cons e es)
  show ?case
  proof (cases "length acc < sz")
    case False
    with Cons.prems show ?thesis by (simp add: read_loop_done)
  next
    case lt: True
    show ?thesis
    proof (cases "moving_event e")
      case False
      then have "retry_event e" using Cons.prems(1) by simp
      with False Cons lt show ?thesis by (simp add: read_loop_retry del: read_loop.simps)
    next
      case True
      define n where "n = min (nat (ev_ret e)) (min (sz - length acc) (length kin))"
      have n: "n \<le> length kin" "n \<le> sz - length acc" "0 < n"
        using True Cons.prems(3) lt by (auto simp: n_def moving_event_def)
      then have "read_loop sz acc (e # es) kin = read_loop sz (acc @ take n kin) es (drop n kin)"
        using True lt unfolding read_loop.simps Let_def n_def [symmetric] by (simp add: moving_event_def)
      moreover have "fst (read_loop sz (acc @ take n kin) es (drop n kin))
          = Some ((acc @ take n kin) @ take (sz - length (acc @ take n kin)) (drop n kin))"
        using Cons.prems n True by (intro Cons.IH) auto
      moreover have "take n kin @ take (sz - length acc - n) (drop n kin) = take (sz - length acc) kin"
        using n by (metis le_add_diff_inverse take_add)
      ultimately show ?thesis using n by (simp add: min_def)
    qed
  qed
qed simp

section \<open>Listening and connecting\<close>

text \<open>The system calls with their effect on descriptors and the file system, in order.\<close>

datatype syscall =
    SysUnlink bytes
  | SysSocket int
  | SysBind int bytes
  | SysChmod bytes nat
  | SysListen int
  | SysConnect int bytes
  | SysPipe int int
  | SysShutdownByte int
  | SysClose int

text \<open>Results the system gives: descriptors (negative for an error) and return codes.\<close>

record listen_os =
  lo_socket :: int
  lo_bind :: int
  lo_listen :: int
  lo_connect :: int
  lo_pipe :: "(int \<times> int) option"

record UnixServer =
  us_listen_fd :: int
  us_shutdown_read :: int
  us_shutdown_write :: int
  us_path :: bytes

definition UnixServer_ctor :: "listen_os \<Rightarrow> int \<Rightarrow> bytes \<Rightarrow> UnixServer \<times> syscall list" where
  "UnixServer_ctor os listen_fd path =
     (case lo_pipe os of
        Some (r, w) \<Rightarrow> (\<lparr>us_listen_fd = listen_fd, us_shutdown_read = r, us_shutdown_write = w,
                         us_path = path\<rparr>, [SysPipe r w])
      | None \<Rightarrow> (\<lparr>us_listen_fd = listen_fd, us_shutdown_read = -1, us_shutdown_write = -1,
                  us_path = path\<rparr>, []))"

definition UnixServer_Shutdown :: "UnixServer \<Rightarrow> syscall list" where
  "UnixServer_Shutdown s =
     (if us_shutdown_write s \<ge> 0 then [SysShutdownByte (us_shutdown_write s)] else [])"

definition UnixServer_dtor :: "UnixServer \<Rightarrow> syscall list" where
  "UnixServer_dtor s = UnixServer_Shutdown s
     @ (if us_listen_fd s \<ge> 0 then [SysClose (us_listen_fd s)] else [])
     @ (if us_shutdown_read s \<ge> 0 then [SysClose (us_shutdown_read s)] else [])
     @ (if us_shutdown_write s \<ge> 0 then [SysClose (us_shutdown_write s)] else [])
     @ (if us_path s \<noteq> [] then [SysUnlink (us_path s)] else [])"

text \<open>\<open>sun_len\<close> is \<^verbatim>\<open>sizeof(addr.sun_path)\<close>; S_IRUSR | S_IWUSR is 384.\<close>

definition ListenEndpoint :: "nat \<Rightarrow> listen_os \<Rightarrow> bytes \<Rightarrow> UnixServer option \<times> syscall list" where
  "ListenEndpoint sun_len os address =
     (let fd = lo_socket os; log = [SysUnlink address] in
      if fd < 0 then (None, log)
      else let log = log @ [SysSocket fd] in
      if length address \<ge> sun_len then (None, log @ [SysClose fd])
      else let log = log @ [SysBind fd address] in
      if lo_bind os < 0 then (None, log @ [SysClose fd])
      else let log = log @ [SysChmod address 384, SysListen fd] in
      if lo_listen os < 0 then (None, log @ [SysClose fd, SysUnlink address])
      else case UnixServer_ctor os fd address of (s, l) \<Rightarrow> (Some s, log @ l))"

definition ConnectEndpoint ::
    "nat \<Rightarrow> listen_os \<Rightarrow> (int \<Rightarrow> UnixConnection) \<Rightarrow> bytes \<Rightarrow> UnixConnection option \<times> syscall list" where
  "ConnectEndpoint sun_len os mk address =
     (let fd = lo_socket os in
      if fd < 0 then (None, [])
      else if length address \<ge> sun_len then (None, [SysSocket fd, SysClose fd])
      else let log = [SysSocket fd, SysConnect fd address] in
      if lo_connect os < 0 then (None, log @ [SysClose fd]) else (Some (mk fd), log))"

fun open_after :: "int set \<Rightarrow> syscall list \<Rightarrow> int set" where
  "open_after F [] = F"
| "open_after F (SysSocket fd # l) = open_after (insert fd F) l"
| "open_after F (SysPipe r w # l) = open_after (insert r (insert w F)) l"
| "open_after F (SysClose fd # l) = open_after (F - {fd}) l"
| "open_after F (_ # l) = open_after F l"

text \<open>A socket only takes connections after \<^verbatim>\<open>listen\<close>.\<close>

definition chmod_before_listen :: "syscall list \<Rightarrow> bytes \<Rightarrow> bool" where
  "chmod_before_listen log path \<longleftrightarrow>
     (\<exists>pre fd post. log = pre @ SysListen fd # post \<and> SysChmod path 384 \<in> set pre
       \<and> (\<forall>fd'. SysListen fd' \<notin> set pre \<union> set post))"

section \<open>Accepting\<close>

record accept_event =
  ae_poll :: int
  ae_poll_errno :: errno
  ae_listen_ready :: bool
  ae_accept :: int
  ae_accept_errno :: errno

text \<open>
  \<open>shut\<close>: a byte stands in the self-pipe.  \<open>None\<close>: the call still blocks when the
  events end; \<open>Some None\<close> is \<^verbatim>\<open>nullptr\<close>.
\<close>

fun accept_loop :: "bool \<Rightarrow> accept_event list \<Rightarrow> int option option" where
  "accept_loop shut [] = None"
| "accept_loop shut (e # es) =
     (if ae_poll e < 0 then (if ae_poll_errno e = EINTR then accept_loop shut es else Some None)
      else if shut then Some None
      else if \<not> ae_listen_ready e then accept_loop shut es
      else if ae_accept e < 0 then
        (if ae_accept_errno e = EINTR then accept_loop shut es else Some None)
      else Some (Some (ae_accept e)))"

definition Accept :: "UnixServer \<Rightarrow> bool \<Rightarrow> accept_event list \<Rightarrow> int option option" where
  "Accept s shut es = (if us_listen_fd s < 0 then Some None else accept_loop shut es)"

section \<open>Properties\<close>

text \<open>C28: \<^verbatim>\<open>ReadFull\<close> over a Unix socket delivers the next bytes of the peer's stream, exactly as
  many as asked, when every round is either interrupted (EINTR, EAGAIN) or moves at least one byte and
  enough rounds come before the deadline, however the kernel cuts the stream into pieces.\<close>

theorem unix_read_delivers:
  assumes "uc_fd c \<ge> 0" and "list_all (\<lambda>e. retry_event e \<or> moving_event e) (uc_os c)"
    and "n \<le> length (filter moving_event (uc_os c))" and "n \<le> length (uc_kin c)"
  shows "\<exists>c'. Unix_ReadFull c n = (c', Some (take n (uc_kin c))) \<and> uc_kin c' = drop n (uc_kin c)
    \<and> uc_kout c' = uc_kout c \<and> Unix_IsConnected c'"
proof -
  obtain es kin where r: "read_loop n [] (uc_os c) (uc_kin c) = (Some (take n (uc_kin c)), es, kin)"
    using read_loop_progress [OF assms(2), of n "[]" "uc_kin c"] assms(3,4)
    by (cases "read_loop n [] (uc_os c) (uc_kin c)") auto
  then have "uc_kin c = take n (uc_kin c) @ kin"
    using read_loop_some [OF r] by simp
  then have "kin = drop n (uc_kin c)"
    by (metis append_take_drop_id same_append_eq)
  then show ?thesis
    using assms(1) r by (simp add: Unix_ReadFull_def Unix_IsConnected_def)
qed

definition demo_conn :: UnixConnection where
  "demo_conn = \<lparr>uc_fd = 5, uc_os =
     [\<lparr>ev_rem = 9, ev_poll = -1, ev_poll_errno = EINTR, ev_ret = 0, ev_ret_errno = EOTHER\<rparr>,
      \<lparr>ev_rem = 8, ev_poll = 1, ev_poll_errno = EOTHER, ev_ret = 1, ev_ret_errno = EOTHER\<rparr>,
      \<lparr>ev_rem = 7, ev_poll = 1, ev_poll_errno = EOTHER, ev_ret = -1, ev_ret_errno = EAGAIN\<rparr>,
      \<lparr>ev_rem = 6, ev_poll = 1, ev_poll_errno = EOTHER, ev_ret = 8, ev_ret_errno = EOTHER\<rparr>],
     uc_kin = [0, 0, 7], uc_kout = []\<rparr>"

theorem unix_read_delivers_witness:
  "snd (Unix_ReadFull demo_conn 2) = Some [0, 0]"
  using unix_read_delivers [of demo_conn 2]
  by (auto simp: demo_conn_def retry_event_def moving_event_def RemainingMs_def kMaxInt_def)

text \<open>C29: \<^verbatim>\<open>ListenEndpoint\<close> never leaks a descriptor: on every error path all descriptors it
  opened are closed again, and on success the server's destructor closes all of them; and on success
  \<^verbatim>\<open>chmod\<close> 0600 was called on the socket file before the socket began to listen (its result is
  ignored by the code).\<close>

theorem listen_no_leak:
  assumes "\<And>r w. lo_pipe os = Some (r, w) \<Longrightarrow> r \<ge> 0 \<and> w \<ge> 0"
  shows "case ListenEndpoint sun_len os address of
      (None, log) \<Rightarrow> open_after {} log = {}
    | (Some s, log) \<Rightarrow> open_after {} (log @ UnixServer_dtor s) = {}
        \<and> chmod_before_listen log address \<and> us_path s = address"
proof -
  have chmod: "chmod_before_listen ([SysUnlink address, SysSocket fd, SysBind fd address,
      SysChmod address 384, SysListen fd] @ l) address" if "\<forall>fd'. SysListen fd' \<notin> set l" for fd l
    unfolding chmod_before_listen_def
    by (rule exI [of _ "[SysUnlink address, SysSocket fd, SysBind fd address, SysChmod address 384]"])
      (use that in auto)
  show ?thesis
    using assms chmod [of "[]"] chmod
    by (auto simp: ListenEndpoint_def UnixServer_ctor_def UnixServer_dtor_def UnixServer_Shutdown_def
        Let_def split: option.splits)
qed

theorem listen_no_leak_witness:
  "case ListenEndpoint 104 \<lparr>lo_socket = 3, lo_bind = 0, lo_listen = 0, lo_connect = 0,
       lo_pipe = Some (4, 5)\<rparr> (lit ''/tmp/d.sock'') of
      (None, log) \<Rightarrow> False
    | (Some s, log) \<Rightarrow> open_after {} (log @ UnixServer_dtor s) = {}"
  using listen_no_leak [of "\<lparr>lo_socket = 3, lo_bind = 0, lo_listen = 0, lo_connect = 0,
       lo_pipe = Some (4, 5)\<rparr>" "lit ''/tmp/d.sock''" 104]
  by (simp add: ListenEndpoint_def UnixServer_ctor_def split: prod.splits option.splits)

text \<open>After \<^verbatim>\<open>Shutdown\<close> no \<^verbatim>\<open>Accept\<close> call returns a connection any more, even with
  clients waiting, and the first round that is not an interrupted poll makes it return nullptr; before
  it, a call that returns nullptr has met an error of poll or accept.\<close>

theorem accept_after_shutdown:
  "Accept s True es = (if us_listen_fd s \<ge> 0 \<and> list_all (\<lambda>e. ae_poll e < 0 \<and> ae_poll_errno e = EINTR) es then None else Some None)
   \<and> (accept_loop False es = Some None \<longleftrightarrow>
        (\<exists>pre e post. es = pre @ e # post \<and> accept_loop False pre = None
          \<and> (ae_poll e < 0 \<and> ae_poll_errno e \<noteq> EINTR
             \<or> ae_poll e \<ge> 0 \<and> ae_listen_ready e \<and> ae_accept e < 0 \<and> ae_accept_errno e \<noteq> EINTR)))"
proof (intro conjI)
  have "accept_loop True es
      = (if list_all (\<lambda>e. ae_poll e < 0 \<and> ae_poll_errno e = EINTR) es then None else Some None)"
    by (induction es) auto
  then show "Accept s True es = (if us_listen_fd s \<ge> 0
        \<and> list_all (\<lambda>e. ae_poll e < 0 \<and> ae_poll_errno e = EINTR) es then None else Some None)"
    by (simp add: Accept_def)
  have app: "accept_loop False (pre @ es) = accept_loop False es" if "accept_loop False pre = None" for pre es
    using that by (induction pre) (auto split: if_splits)
  show "accept_loop False es = Some None \<longleftrightarrow>
        (\<exists>pre e post. es = pre @ e # post \<and> accept_loop False pre = None
          \<and> (ae_poll e < 0 \<and> ae_poll_errno e \<noteq> EINTR
             \<or> ae_poll e \<ge> 0 \<and> ae_listen_ready e \<and> ae_accept e < 0 \<and> ae_accept_errno e \<noteq> EINTR))"
    (is "_ \<longleftrightarrow> (\<exists>pre e post. ?P es pre e post)")
  proof
    assume "accept_loop False es = Some None"
    then show "\<exists>pre e post. ?P es pre e post"
    proof (induction es)
      case (Cons x xs)
      show ?case
      proof (cases "accept_loop False [x] = None")
        case True
        then have "accept_loop False xs = Some None" using Cons.prems app [OF True, of xs] by simp
        then obtain pre e post where "?P xs pre e post" using Cons.IH by blast
        then have "?P (x # xs) (x # pre) e post" using app [OF True, of pre] by simp
        then show ?thesis by blast
      next
        case False
        then have "?P (x # xs) [] x xs" using Cons.prems by (auto split: if_splits)
        then show ?thesis by blast
      qed
    qed simp
  next
    assume "\<exists>pre e post. ?P es pre e post"
    then show "accept_loop False es = Some None" using app by auto
  qed
qed

end
