(* ===== verification/Daemon_Main.thy ===== *)
theory Daemon_Main
  imports Auto_Learn Server Endpoint_Unix History_Correct Paths Logging
begin

text \<open>
  src/daemon/main.cc: the command line, the signal handlers and the wiring of the parts.  An
  option is read over the remaining arguments; the value of an option is the next argument,
  whatever it looks like.  Starting the daemon composes the models of the parts in the order of
  the code; what the system answers is the record \<open>daemon_env\<close>.
\<close>

section \<open>Signals\<close>

datatype ctrl_event = CTRL_C | CTRL_BREAK | CTRL_CLOSE | CTRL_LOGOFF | CTRL_SHUTDOWN | CTRL_OTHER

text \<open>Whether the event counts as handled, and whether \<^verbatim>\<open>g_server\<close> (if set) is shut down.\<close>

definition HandleConsoleCtrl :: "bool \<Rightarrow> ctrl_event \<Rightarrow> bool \<times> bool" where
  "HandleConsoleCtrl has_server ev =
     (if ev \<in> {CTRL_C, CTRL_BREAK, CTRL_CLOSE, CTRL_LOGOFF, CTRL_SHUTDOWN} then (True, has_server)
      else (False, False))"

definition HandleSignal :: "bool \<Rightarrow> bool" where
  "HandleSignal has_server = has_server"

section \<open>Values of the options\<close>

definition ParseBackend :: "bytes \<Rightarrow> BackendKind option" where
  "ParseBackend s =
     (if s = lit ''mock'' then Some kMock
      else if s = lit ''deterministic'' then Some kDeterministic
      else if s = lit ''mlx'' then Some kMLX
      else if s = lit ''llama_cpp'' \<or> s = lit ''llamacpp'' then Some kLlamaCpp
      else None)"

definition BackendName :: "BackendKind \<Rightarrow> bytes" where
  "BackendName b = (case b of
     kMock \<Rightarrow> lit ''mock'' | kDeterministic \<Rightarrow> lit ''deterministic''
   | kMLX \<Rightarrow> lit ''mlx'' | kLlamaCpp \<Rightarrow> lit ''llama_cpp'')"

definition ParseLogLevel :: "bytes \<Rightarrow> LogLevel option" where
  "ParseLogLevel s =
     (if s = lit ''debug'' then Some kDebug
      else if s = lit ''info'' then Some kInfo
      else if s = lit ''warn'' then Some kWarn
      else if s = lit ''error'' then Some kError
      else None)"

definition level_name :: "LogLevel \<Rightarrow> bytes" where
  "level_name l = (case l of kDebug \<Rightarrow> lit ''debug'' | kInfo \<Rightarrow> lit ''info''
     | kWarn \<Rightarrow> lit ''warn'' | kError \<Rightarrow> lit ''error'')"

lemma parse_names [simp]:
  "ParseBackend (BackendName b) = Some b" "ParseLogLevel (level_name l) = Some l"
  by (cases b; simp add: ParseBackend_def BackendName_def)
    (cases l; simp add: ParseLogLevel_def level_name_def)

section \<open>The command line\<close>

record daemon_options =
  do_addr :: bytes
  do_level :: LogLevel
  do_backend :: BackendKind
  do_model_path :: bytes
  do_auto_learn :: bool
  do_rime_user_dir :: bytes
  do_wubi_dict :: bytes
  do_poll_s :: i32
  do_idle_s :: i32
  do_min_interval_s :: i32

definition daemon_defaults :: "bytes \<Rightarrow> daemon_options" where
  "daemon_defaults addr =
     \<lparr>do_addr = addr, do_level = kInfo, do_backend = kDeterministic, do_model_path = [],
      do_auto_learn = True, do_rime_user_dir = [], do_wubi_dict = [], do_poll_s = 60,
      do_idle_s = 30, do_min_interval_s = 300\<rparr>"

text \<open>
  One round of the loop: the exit code, or the arguments that are left and the options.  A flag
  that needs a value but is the last argument is an unknown one.
\<close>

definition daemon_arg ::
  "bytes \<Rightarrow> bytes list \<Rightarrow> daemon_options \<Rightarrow> int + (bytes list \<times> daemon_options)" where
  "daemon_arg a rest opt =
     (if a = lit ''-h'' \<or> a = lit ''--help'' then Inl 0
      else if a = lit ''--foreground'' then Inr (rest, opt)
      else if a = lit ''--addr'' \<and> rest \<noteq> [] then Inr (tl rest, opt\<lparr>do_addr := hd rest\<rparr>)
      else if a = lit ''--log-level'' \<and> rest \<noteq> [] then
        (case ParseLogLevel (hd rest) of None \<Rightarrow> Inl 1
         | Some l \<Rightarrow> Inr (tl rest, opt\<lparr>do_level := l\<rparr>))
      else if a = lit ''--backend'' \<and> rest \<noteq> [] then
        (case ParseBackend (hd rest) of None \<Rightarrow> Inl 1
         | Some b \<Rightarrow> Inr (tl rest, opt\<lparr>do_backend := b\<rparr>))
      else if a = lit ''--model-path'' \<and> rest \<noteq> [] then Inr (tl rest, opt\<lparr>do_model_path := hd rest\<rparr>)
      else if a = lit ''--auto-learn'' then Inr (rest, opt\<lparr>do_auto_learn := True\<rparr>)
      else if a = lit ''--no-auto-learn'' then Inr (rest, opt\<lparr>do_auto_learn := False\<rparr>)
      else if a = lit ''--rime-user-dir'' \<and> rest \<noteq> [] then
        Inr (tl rest, opt\<lparr>do_rime_user_dir := hd rest\<rparr>)
      else if a = lit ''--wubi-dict'' \<and> rest \<noteq> [] then Inr (tl rest, opt\<lparr>do_wubi_dict := hd rest\<rparr>)
      else if a = lit ''--auto-learn-poll'' \<and> rest \<noteq> [] then
        Inr (tl rest, opt\<lparr>do_poll_s := atoi (hd rest)\<rparr>)
      else if a = lit ''--auto-learn-idle'' \<and> rest \<noteq> [] then
        Inr (tl rest, opt\<lparr>do_idle_s := atoi (hd rest)\<rparr>)
      else if a = lit ''--auto-learn-min-interval'' \<and> rest \<noteq> [] then
        Inr (tl rest, opt\<lparr>do_min_interval_s := atoi (hd rest)\<rparr>)
      else Inl 1)"

lemma daemon_arg_rest: "daemon_arg a rest opt = Inr (rest', opt') \<Longrightarrow> rest' = rest \<or> rest' = tl rest"
  unfolding daemon_arg_def by (simp del: lit_simps split: if_split_asm option.split_asm)

function daemon_args :: "bytes list \<Rightarrow> daemon_options \<Rightarrow> int + daemon_options" where
  "daemon_args [] opt = Inr opt"
| "daemon_args (a # rest) opt =
     (case daemon_arg a rest opt of
        Inl code \<Rightarrow> Inl code
      | Inr (rest', opt') \<Rightarrow> daemon_args rest' opt')"
  by pat_completeness auto

termination
  by (relation "measure (length \<circ> fst)") (auto dest: daemon_arg_rest)

section \<open>Starting up\<close>

text \<open>
  \<open>de_clock\<close> gives the time of each recorded commit; \<open>de_start\<close> and \<open>de_learn_start\<close> are
  the steady clock when the learner is built and started.  \<open>de_db\<close> is the database as
  SQLite opens it.
\<close>

record ('d, 'g) daemon_env =
  de_env :: environment
  de_cwd :: path
  de_mkdirs :: "path \<Rightarrow> bool"
  de_sun_len :: nat
  de_os :: listen_os
  de_mlx :: "mlx linked"
  de_llama :: "llama linked"
  de_open :: open_env
  de_sq :: "'d sqlite_api"
  de_db :: 'd
  de_clock :: "nat \<Rightarrow> u64"
  de_latency :: "nat \<Rightarrow> u32"
  de_uptime :: "nat \<Rightarrow> u64"
  de_start :: int
  de_learn_start :: int
  de_fs :: fs
  de_git :: 'g

text \<open>The commit log of the server: the store, if it could be opened, and the number of events.\<close>

type_synonym 'd commit_log = "'d option \<times> nat"

definition commit_record :: "'d sqlite_api \<Rightarrow> (nat \<Rightarrow> u64) \<Rightarrow> CommitEvent \<Rightarrow> 'd commit_log \<Rightarrow> 'd commit_log" where
  "commit_record sq clock ev l =
     (case fst l of
        None \<Rightarrow> (NullCommitLogger_Record ev None, Suc (snd l))
      | Some d \<Rightarrow> (SqliteCommitLogger_Record sq (clock (snd l)) ev (Some d), Suc (snd l)))"

record ('d, 'g) daemon =
  dm_options :: daemon_options
  dm_endpoint :: UnixServer
  dm_calls :: "syscall list"
  dm_opened :: "open_action list"
  dm_server_env :: "'d commit_log server_env"
  dm_server :: "'d commit_log Server"
  dm_learner :: "(AutoLearnConfig \<times> 'g AutoLearn) option"

definition default_rime_dir :: "environment \<Rightarrow> path" where
  "default_rime_dir env =
     join (join (case env (lit ''HOME'') of Some h \<Rightarrow> h | None \<Rightarrow> lit ''.'') (lit ''Library'')) (lit ''Rime'')"

definition rime_dir_of :: "environment \<Rightarrow> daemon_options \<Rightarrow> path" where
  "rime_dir_of env opt =
     (if do_rime_user_dir opt = [] then default_rime_dir env else do_rime_user_dir opt)"

definition wubi_dict_of :: "environment \<Rightarrow> daemon_options \<Rightarrow> path" where
  "wubi_dict_of env opt =
     (if do_wubi_dict opt = [] then join (rime_dir_of env opt) (lit ''wubi86.dict.yaml'') else do_wubi_dict opt)"

definition learn_config_of :: "environment \<Rightarrow> path \<Rightarrow> daemon_options \<Rightarrow> AutoLearnConfig" where
  "learn_config_of env data_root opt = AutoLearnConfig_init
     \<lparr>ac_data_dir := data_root, ac_rime_user_dir := rime_dir_of env opt,
      ac_wubi_dict_path := wubi_dict_of env opt, ac_poll_interval := sint (do_poll_s opt),
      ac_idle_threshold := sint (do_idle_s opt), ac_min_round_interval := sint (do_min_interval_s opt)\<rparr>"

definition daemon_start :: "('d, 'g) daemon_env \<Rightarrow> bytes list \<Rightarrow> int + ('d, 'g) daemon" where
  "daemon_start de args =
     (case daemon_args args (daemon_defaults (GetDaemonAddress (de_env de) (de_cwd de))) of
        Inl code \<Rightarrow> Inl code
      | Inr opt \<Rightarrow>
          (case ListenEndpoint (de_sun_len de) (de_os de) (do_addr opt) of
             (None, calls) \<Rightarrow> Inl 2
           | (Some endpoint, calls) \<Rightarrow>
               let reranker = BuildReranker (de_mlx de) (de_llama de) (do_backend opt) (do_model_path opt);
                   data_root = GetDataDir (de_env de) (de_cwd de);
                   db_path = join data_root (lit ''history.db'');
                   (history, acts) = MakeSqliteHistoryStore (de_open de) db_path data_root;
                   store = (if history then Some (de_db de) else None);
                   env = \<lparr>se_rerank = reranker, se_latency = de_latency de, se_uptime = de_uptime de,
                          se_record = commit_record (de_sq de) (de_clock de)\<rparr>;
                   learner = (if do_auto_learn opt \<and> history
                     then Some (learn_config_of (de_env de) data_root opt,
                            Start (de_learn_start de) (Count (de_sq de) (de_db de))
                              (AutoLearn_ctor True (de_start de) (de_fs de) (de_git de)))
                     else None)
               in Inr \<lparr>dm_options = opt, dm_endpoint = endpoint, dm_calls = calls, dm_opened = acts,
                       dm_server_env = env, dm_server = Server_init (store, 0), dm_learner = learner\<rparr>))"

text \<open>After \<^verbatim>\<open>server.Run\<close> returned; the destructors run afterwards.\<close>

definition daemon_finish :: "('d, 'g) daemon \<Rightarrow> int \<times> ('d, 'g) daemon" where
  "daemon_finish dm = (0, dm\<lparr>dm_learner := map_option (map_prod id Stop) (dm_learner dm)\<rparr>)"

section \<open>Reading back the options\<close>

definition daemon_render :: "daemon_options \<Rightarrow> bytes list" where
  "daemon_render opt =
     [lit ''--addr'', do_addr opt, lit ''--log-level'', level_name (do_level opt),
      lit ''--backend'', BackendName (do_backend opt), lit ''--model-path'', do_model_path opt,
      (if do_auto_learn opt then lit ''--auto-learn'' else lit ''--no-auto-learn''),
      lit ''--rime-user-dir'', do_rime_user_dir opt, lit ''--wubi-dict'', do_wubi_dict opt,
      lit ''--auto-learn-poll'', dec_int (do_poll_s opt), lit ''--auto-learn-idle'', dec_int (do_idle_s opt),
      lit ''--auto-learn-min-interval'', dec_int (do_min_interval_s opt)]"

lemma daemon_arg_code: "daemon_arg a rest opt = Inl code \<Longrightarrow> code = 0 \<or> code = 1"
  unfolding daemon_arg_def by (simp del: lit_simps split: if_split_asm option.split_asm)

lemma daemon_args_code: "daemon_args args opt = Inl code \<Longrightarrow> code = 0 \<or> code = 1"
  by (induction args opt rule: daemon_args.induct) (auto dest: daemon_arg_code split: sum.splits)

text \<open>The command line sets every option: the arguments that spell out some options are read as
  exactly these options whatever the values are (addresses and paths may look like flags), and nothing
  else than 0 or 1 is ever returned from reading them.\<close>

theorem daemon_args_roundtrip:
  "daemon_args (daemon_render opt) (daemon_defaults addr) = Inr opt
   \<and> (daemon_args args o' = Inl code \<longrightarrow> code = 0 \<or> code = 1)"
proof
  show "daemon_args (daemon_render opt) (daemon_defaults addr) = Inr opt"
    by (cases opt) (simp add: daemon_render_def daemon_defaults_def daemon_arg_def atoi_dec_int)
qed (use daemon_args_code in blast)

end
