(* ===== verification/Msgpack_Format.thy ===== *)
theory Msgpack_Format
  imports Wire_Protocol
begin

text \<open>
  An instance of the msgpack interface after the public MessagePack format specification:
  the packer writes the shortest format of each value and the reader understands every
  format the packer can write.  It interprets \<open>msgpack_api\<close>, so the assumptions of that
  locale can hold together, and it is the concrete codec of the witnesses.
\<close>

section \<open>Big-endian numbers\<close>

fun be_bytes :: "nat \<Rightarrow> nat \<Rightarrow> bytes" where
  "be_bytes 0 n = []"
| "be_bytes (Suc k) n = be_bytes k (n div 256) @ [of_nat (n mod 256)]"

definition be_val :: "bytes \<Rightarrow> nat" where
  "be_val bs = foldl (\<lambda>a b. a * 256 + unat b) 0 bs"

lemma length_be_bytes [simp]: "length (be_bytes k n) = k"
  by (induction k arbitrary: n) auto

lemma be_val_snoc [simp]: "be_val (bs @ [b]) = be_val bs * 256 + unat b"
  by (simp add: be_val_def)

lemma be_val_bytes: "n < 256 ^ k \<Longrightarrow> be_val (be_bytes k n) = n"
proof (induction k arbitrary: n)
  case 0
  then show ?case by (simp add: be_val_def)
next
  case (Suc k)
  then have "n div 256 < 256 ^ k" by (simp add: less_mult_imp_div_less mult.commute)
  with Suc.IH show ?case by (simp add: unat_of_nat mod_div_mult_eq div_mult_mod_eq)
qed

text \<open>Split a fixed number of bytes off a stream.\<close>

definition split_at :: "nat \<Rightarrow> bytes \<Rightarrow> (bytes \<times> bytes) option" where
  "split_at n s = (if n \<le> length s then Some (take n s, drop n s) else None)"

lemma split_at_append: "n = length a \<Longrightarrow> split_at n (a @ r) = Some (a, r)"
  by (simp add: split_at_def)

definition read_be :: "nat \<Rightarrow> bytes \<Rightarrow> (nat \<times> bytes) option" where
  "read_be k s = map_option (\<lambda>(a, r). (be_val a, r)) (split_at k s)"

lemma read_be_append: "n < 256 ^ k \<Longrightarrow> read_be k (be_bytes k n @ r) = Some (n, r)"
  by (simp add: read_be_def split_at_append be_val_bytes)

section \<open>The packer\<close>

definition ser_uint :: "nat \<Rightarrow> bytes" where
  "ser_uint n =
     (if n < 128 then [of_nat n]
      else if n < 2 ^ 8 then 0xCC # be_bytes 1 n
      else if n < 2 ^ 16 then 0xCD # be_bytes 2 n
      else if n < 2 ^ 32 then 0xCE # be_bytes 4 n
      else 0xCF # be_bytes 8 n)"

text \<open>A negative integer: one byte above \<open>-33\<close>, else its 64-bit two's complement.\<close>

definition ser_nint :: "u64 \<Rightarrow> bytes" where
  "ser_nint n = (if unat n \<ge> 2 ^ 64 - 32 then [ucast n] else 0xD3 # be_bytes 8 (unat n))"

definition ser_str_header :: "nat \<Rightarrow> bytes" where
  "ser_str_header n =
     (if n < 32 then [of_nat (0xA0 + n)]
      else if n < 2 ^ 8 then 0xD9 # be_bytes 1 n
      else if n < 2 ^ 16 then 0xDA # be_bytes 2 n
      else 0xDB # be_bytes 4 n)"

definition ser_array_header :: "nat \<Rightarrow> bytes" where
  "ser_array_header n =
     (if n < 16 then [of_nat (0x90 + n)]
      else if n < 2 ^ 16 then 0xDC # be_bytes 2 n
      else 0xDD # be_bytes 4 n)"

definition ser_map_header :: "nat \<Rightarrow> bytes" where
  "ser_map_header n =
     (if n < 16 then [of_nat (0x80 + n)]
      else if n < 2 ^ 16 then 0xDE # be_bytes 2 n
      else 0xDF # be_bytes 4 n)"

definition ser_i32 :: "i32 \<Rightarrow> bytes" where
  "ser_i32 n = (if 0 \<le>s n then ser_uint (unat n) else ser_nint (scast n))"

definition ser_f32 :: "f32 \<Rightarrow> bytes" where
  "ser_f32 x = 0xCA # be_bytes 4 (unat x)"

definition ser_string :: "bytes \<Rightarrow> bytes" where
  "ser_string s = ser_str_header (length s) @ s"

fun ser_call :: "mp_call \<Rightarrow> bytes" where
  "ser_call (pack_map n) = ser_map_header (unat n)"
| "ser_call (pack_str n) = ser_str_header (unat n)"
| "ser_call (pack_str_body s) = s"
| "ser_call (pack_u8 n) = ser_uint (unat n)"
| "ser_call (pack_u32 n) = ser_uint (unat n)"
| "ser_call (pack_u64 n) = ser_uint (unat n)"
| "ser_call (pack_i32 n) = ser_i32 n"
| "ser_call (pack_string s) = ser_string s"
| "ser_call (pack_strings ss) = ser_array_header (length ss) @ concat (map ser_string ss)"
| "ser_call (pack_i32s ns) = ser_array_header (length ns) @ concat (map ser_i32 ns)"
| "ser_call (pack_f32s fs) = ser_array_header (length fs) @ concat (map ser_f32 fs)"

section \<open>The reader\<close>

datatype mp_head = H_leaf mp_object | H_str nat | H_array nat | H_map nat

definition read_head :: "bytes \<Rightarrow> (mp_head \<times> bytes) option" where
  "read_head s =
     (case s of
        [] \<Rightarrow> None
      | b # r \<Rightarrow>
          let n = unat b in
          if n < 0x80 then Some (H_leaf (MP_POSITIVE_INTEGER (of_nat n)), r)
          else if n < 0x90 then Some (H_map (n - 0x80), r)
          else if n < 0xA0 then Some (H_array (n - 0x90), r)
          else if n < 0xC0 then Some (H_str (n - 0xA0), r)
          else if n = 0xC0 then Some (H_leaf MP_NIL, r)
          else if n = 0xC2 then Some (H_leaf (MP_BOOLEAN False), r)
          else if n = 0xC3 then Some (H_leaf (MP_BOOLEAN True), r)
          else if n = 0xCA then map_option (\<lambda>(v, r). (H_leaf (MP_FLOAT32 (of_nat v)), r)) (read_be 4 r)
          else if n = 0xCB then map_option (\<lambda>(v, r). (H_leaf (MP_FLOAT64 (of_nat v)), r)) (read_be 8 r)
          else if n = 0xCC then map_option (\<lambda>(v, r). (H_leaf (MP_POSITIVE_INTEGER (of_nat v)), r)) (read_be 1 r)
          else if n = 0xCD then map_option (\<lambda>(v, r). (H_leaf (MP_POSITIVE_INTEGER (of_nat v)), r)) (read_be 2 r)
          else if n = 0xCE then map_option (\<lambda>(v, r). (H_leaf (MP_POSITIVE_INTEGER (of_nat v)), r)) (read_be 4 r)
          else if n = 0xCF then map_option (\<lambda>(v, r). (H_leaf (MP_POSITIVE_INTEGER (of_nat v)), r)) (read_be 8 r)
          else if n = 0xD3 then map_option (\<lambda>(v, r). (H_leaf (MP_NEGATIVE_INTEGER (of_nat v)), r)) (read_be 8 r)
          else if n = 0xD9 then map_option (\<lambda>(v, r). (H_str v, r)) (read_be 1 r)
          else if n = 0xDA then map_option (\<lambda>(v, r). (H_str v, r)) (read_be 2 r)
          else if n = 0xDB then map_option (\<lambda>(v, r). (H_str v, r)) (read_be 4 r)
          else if n = 0xDC then map_option (\<lambda>(v, r). (H_array v, r)) (read_be 2 r)
          else if n = 0xDD then map_option (\<lambda>(v, r). (H_array v, r)) (read_be 4 r)
          else if n = 0xDE then map_option (\<lambda>(v, r). (H_map v, r)) (read_be 2 r)
          else if n = 0xDF then map_option (\<lambda>(v, r). (H_map v, r)) (read_be 4 r)
          else if n \<ge> 0xE0 then Some (H_leaf (MP_NEGATIVE_INTEGER (of_nat (2 ^ 64 - 256 + n))), r)
          else None)"

text \<open>The nesting depth is the fuel; the protocol nests three levels.\<close>

fun read_many :: "(bytes \<Rightarrow> ('a \<times> bytes) option) \<Rightarrow> nat \<Rightarrow> bytes \<Rightarrow> ('a list \<times> bytes) option" where
  "read_many rd 0 s = Some ([], s)"
| "read_many rd (Suc n) s =
     (case rd s of
        None \<Rightarrow> None
      | Some (x, r) \<Rightarrow> map_option (\<lambda>(xs, r'). (x # xs, r')) (read_many rd n r))"

definition read_pair :: "(bytes \<Rightarrow> ('a \<times> bytes) option) \<Rightarrow> bytes \<Rightarrow> (('a \<times> 'a) \<times> bytes) option" where
  "read_pair rd s =
     (case rd s of
        None \<Rightarrow> None
      | Some (k, r) \<Rightarrow> map_option (\<lambda>(v, r'). ((k, v), r')) (rd r))"

fun read_object :: "nat \<Rightarrow> bytes \<Rightarrow> (mp_object \<times> bytes) option" where
  "read_object 0 s = None"
| "read_object (Suc d) s =
     (case read_head s of
        None \<Rightarrow> None
      | Some (H_leaf ob, r) \<Rightarrow> Some (ob, r)
      | Some (H_str n, r) \<Rightarrow> map_option (\<lambda>(a, r'). (MP_STR a, r')) (split_at n r)
      | Some (H_array n, r) \<Rightarrow> map_option (\<lambda>(xs, r'). (MP_ARRAY xs, r')) (read_many (read_object d) n r)
      | Some (H_map n, r) \<Rightarrow>
          map_option (\<lambda>(kvs, r'). (MP_MAP kvs, r')) (read_many (read_pair (read_object d)) n r))"

section \<open>Conversions\<close>

definition std_uint :: "nat \<Rightarrow> (u64 \<Rightarrow> 'a) \<Rightarrow> 'a mp_conv" where
  "std_uint limit f ob out =
     (case ob of MP_POSITIVE_INTEGER n \<Rightarrow> if unat n < limit then (True, f n) else (False, out)
      | _ \<Rightarrow> (False, out))"

definition std_i32 :: "i32 mp_conv" where
  "std_i32 ob out =
     (case ob of
        MP_POSITIVE_INTEGER n \<Rightarrow> if unat n < 2 ^ 31 then (True, ucast n) else (False, out)
      | MP_NEGATIVE_INTEGER n \<Rightarrow> if unat n \<ge> 2 ^ 64 - 2 ^ 31 then (True, ucast n) else (False, out)
      | _ \<Rightarrow> (False, out))"

definition std_str :: "bytes mp_conv" where
  "std_str ob out = (case ob of MP_STR s \<Rightarrow> (True, s) | MP_BIN s \<Rightarrow> (True, s) | _ \<Rightarrow> (False, out))"

definition std_f32 :: "f32 mp_conv" where
  "std_f32 ob out = (case ob of MP_FLOAT32 x \<Rightarrow> (True, x) | _ \<Rightarrow> (False, out))"

text \<open>A vector is resized first; a throw leaves the elements converted so far.\<close>

fun std_elems :: "'a mp_conv \<Rightarrow> 'a \<Rightarrow> mp_object list \<Rightarrow> bool \<times> 'a list" where
  "std_elems cv d [] = (True, [])"
| "std_elems cv d (x # xs) =
     (case cv x d of
        (True, v) \<Rightarrow> (case std_elems cv d xs of (ok, vs) \<Rightarrow> (ok, v # vs))
      | (False, v) \<Rightarrow> (False, v # replicate (length xs) d))"

definition std_vec :: "'a mp_conv \<Rightarrow> 'a \<Rightarrow> 'a list mp_conv" where
  "std_vec cv d ob out = (case ob of MP_ARRAY xs \<Rightarrow> std_elems cv d xs | _ \<Rightarrow> (False, out))"

definition msgpack_std :: msgpack where
  "msgpack_std = \<lparr>mp_bytes = (\<lambda>cs. concat (map ser_call cs)),
     mp_unpack = (\<lambda>s. map_option fst (read_object 4 s)),
     mp_u8 = std_uint (2 ^ 8) ucast, mp_u32 = std_uint (2 ^ 32) ucast,
     mp_u64 = std_uint (2 ^ 64) id, mp_i32 = std_i32, mp_string = std_str,
     mp_strings = std_vec std_str [], mp_i32s = std_vec std_i32 0,
     mp_f32s = std_vec std_f32 0\<rparr>"

section \<open>The reader undoes the packer\<close>

lemma unat_byte [simp]: "n < 256 \<Longrightarrow> unat (of_nat n :: byte) = n"
  by (simp add: unat_of_nat)

lemma read_head_tags [simp]:
  "read_head (0xCA # r) = map_option (\<lambda>(v, r). (H_leaf (MP_FLOAT32 (of_nat v)), r)) (read_be 4 r)"
  "read_head (0xCC # r) = map_option (\<lambda>(v, r). (H_leaf (MP_POSITIVE_INTEGER (of_nat v)), r)) (read_be 1 r)"
  "read_head (0xCD # r) = map_option (\<lambda>(v, r). (H_leaf (MP_POSITIVE_INTEGER (of_nat v)), r)) (read_be 2 r)"
  "read_head (0xCE # r) = map_option (\<lambda>(v, r). (H_leaf (MP_POSITIVE_INTEGER (of_nat v)), r)) (read_be 4 r)"
  "read_head (0xCF # r) = map_option (\<lambda>(v, r). (H_leaf (MP_POSITIVE_INTEGER (of_nat v)), r)) (read_be 8 r)"
  "read_head (0xD3 # r) = map_option (\<lambda>(v, r). (H_leaf (MP_NEGATIVE_INTEGER (of_nat v)), r)) (read_be 8 r)"
  "read_head (0xD9 # r) = map_option (\<lambda>(v, r). (H_str v, r)) (read_be 1 r)"
  "read_head (0xDA # r) = map_option (\<lambda>(v, r). (H_str v, r)) (read_be 2 r)"
  "read_head (0xDB # r) = map_option (\<lambda>(v, r). (H_str v, r)) (read_be 4 r)"
  "read_head (0xDC # r) = map_option (\<lambda>(v, r). (H_array v, r)) (read_be 2 r)"
  "read_head (0xDD # r) = map_option (\<lambda>(v, r). (H_array v, r)) (read_be 4 r)"
  "read_head (0xDE # r) = map_option (\<lambda>(v, r). (H_map v, r)) (read_be 2 r)"
  "read_head (0xDF # r) = map_option (\<lambda>(v, r). (H_map v, r)) (read_be 4 r)"
  by (simp_all add: read_head_def)

lemma read_head_fix [simp]:
  "n < 128 \<Longrightarrow> read_head (of_nat n # r) = Some (H_leaf (MP_POSITIVE_INTEGER (of_nat n)), r)"
  "n < 16 \<Longrightarrow> read_head (of_nat (0x80 + n) # r) = Some (H_map n, r)"
  "n < 16 \<Longrightarrow> read_head (of_nat (0x90 + n) # r) = Some (H_array n, r)"
  "n < 32 \<Longrightarrow> read_head (of_nat (0xA0 + n) # r) = Some (H_str n, r)"
  by (simp_all add: read_head_def Let_def del: of_nat_add)

lemma read_head_neg:
  assumes "unat b \<ge> 0xE0"
  shows "read_head (b # r) = Some (H_leaf (MP_NEGATIVE_INTEGER (of_nat (2 ^ 64 - 256 + unat b))), r)"
  using assms by (simp add: read_head_def Let_def del: of_nat_add)

lemma read_uint:
  assumes "n < 2 ^ 64"
  shows "read_head (ser_uint n @ r) = Some (H_leaf (MP_POSITIVE_INTEGER (of_nat n)), r)"
proof -
  consider "n < 128" | "128 \<le> n" "n < 2 ^ 8" | "2 ^ 8 \<le> n" "n < 2 ^ 16" | "2 ^ 16 \<le> n" "n < 2 ^ 32"
    | "2 ^ 32 \<le> n" by linarith
  then show ?thesis
    by cases (use assms in \<open>simp_all add: ser_uint_def read_be_append del: be_bytes.simps\<close>)
qed

lemma read_nint:
  assumes "unat n \<ge> 2 ^ 63"
  shows "read_head (ser_nint n @ r) = Some (H_leaf (MP_NEGATIVE_INTEGER n), r)"
proof (cases "unat n \<ge> 2 ^ 64 - 32")
  case True
  define y where "y = unat n - (2 ^ 64 - 256)"
  have y: "unat n = y + (2 ^ 56 - 1) * 256" "y < 256" "y \<ge> 0xE0"
    using True unat_bound [of n] by (simp_all add: y_def)
  then have "unat n mod 256 = y" by (simp only: mod_mult_self1 mod_less)
  then have b: "unat (ucast n :: byte) = y"
    by (simp add: unsigned_ucast_eq take_bit_eq_mod)
  have "read_head (ucast n # r) = Some (H_leaf (MP_NEGATIVE_INTEGER (of_nat (2 ^ 64 - 256 + unat (ucast n :: byte)))), r)"
    using y by (intro read_head_neg) (simp add: b)
  moreover have "2 ^ 64 - 256 + unat (ucast n :: byte) = unat n" using y by (simp add: b)
  ultimately have "read_head (ucast n # r) = Some (H_leaf (MP_NEGATIVE_INTEGER n), r)"
    by (simp only: of_nat_unat ucast_id)
  then show ?thesis using True by (simp add: ser_nint_def)
next
  case False
  have "unat n < 256 ^ 8" using unat_bound [of n] by simp
  then show ?thesis
    using False by (simp add: ser_nint_def read_be_append del: be_bytes.simps)
qed

lemma read_str_header:
  "n < 2 ^ 32 \<Longrightarrow> read_head (ser_str_header n @ r) = Some (H_str n, r)"
  by (simp add: ser_str_header_def read_be_append del: be_bytes.simps of_nat_add)

lemma read_array_header:
  "n < 2 ^ 32 \<Longrightarrow> read_head (ser_array_header n @ r) = Some (H_array n, r)"
  by (simp add: ser_array_header_def read_be_append del: be_bytes.simps of_nat_add)

lemma read_map_header:
  "n < 2 ^ 32 \<Longrightarrow> read_head (ser_map_header n @ r) = Some (H_map n, r)"
  by (simp add: ser_map_header_def read_be_append del: be_bytes.simps of_nat_add)

lemma unat_scast_neg:
  fixes n :: i32
  assumes "\<not> 0 \<le>s n"
  shows "unat (scast n :: u64) \<ge> 2 ^ 64 - 2 ^ 31"
proof -
  have "sint n < 0" using assms by (simp add: word_sle_eq)
  moreover have "sint n \<ge> - (2 ^ 31)" using sint_ge [of n] by simp
  moreover have "uint (scast n :: u64) = sint n mod 2 ^ 64"
    unfolding scast_eq uint_word_of_int by simp
  moreover have "sint n mod 2 ^ 64 = sint n + 2 ^ 64" if "sint n < 0" "sint n \<ge> - (2 ^ 31)"
    using that mod_pos_pos_trivial [of "sint n + 2 ^ 64" "2 ^ 64"] by (simp add: mod_add_self2)
  ultimately have "uint (scast n :: u64) = sint n + 2 ^ 64" and "sint n \<ge> - (2 ^ 31)"
    by simp_all
  then have "int (unat (scast n :: u64)) \<ge> 2 ^ 64 - 2 ^ 31" by simp
  then have "nat (2 ^ 64 - 2 ^ 31) \<le> unat (scast n :: u64)" by (simp only: nat_le_iff)
  then show ?thesis by simp
qed

lemma read_i32: "read_object (Suc d) (ser_i32 n @ r) = Some (i32_object n, r)"
proof (cases "0 \<le>s n")
  case True
  have "unat n < 2 ^ 64" using unat_bound [of n] by simp
  then show ?thesis
    using True by (simp add: ser_i32_def i32_object_def read_uint)
next
  case False
  then show ?thesis
    using unat_scast_neg [of n] by (simp add: ser_i32_def i32_object_def read_nint)
qed

lemma read_f32: "read_object (Suc d) (ser_f32 x @ r) = Some (MP_FLOAT32 x, r)"
proof -
  have "unat x < 256 ^ 4" using unat_bound [of x] by simp
  then show ?thesis by (simp add: ser_f32_def read_be_append del: be_bytes.simps)
qed

lemma read_string:
  "fits_u32 s \<Longrightarrow> read_object (Suc d) (ser_string s @ r) = Some (MP_STR s, r)"
  by (simp add: ser_string_def fits_u32_def read_str_header split_at_append)

lemma read_many_concat:
  assumes "\<And>x r. x \<in> set xs \<Longrightarrow> rd (f x @ r) = Some (g x, r)"
  shows "read_many rd (length xs) (concat (map f xs) @ r) = Some (map g xs, r)"
  using assms by (induction xs) simp_all

lemma read_array:
  assumes "fits_u32 xs" and "\<And>x r. x \<in> set xs \<Longrightarrow> read_object d (f x @ r) = Some (g x, r)"
  shows "read_object (Suc d) (ser_array_header (length xs) @ concat (map f xs) @ r)
    = Some (MP_ARRAY (map g xs), r)"
  using assms by (simp add: fits_u32_def read_array_header read_many_concat)

lemma call_split:
  assumes "call_object v = Some ob"
  shows "read_object (Suc (Suc d)) (ser_call v @ r) = Some (ob, r)"
proof (cases v)
  case (pack_strings ss)
  then have "fits_u32 ss" "list_all fits_u32 ss" "ob = MP_ARRAY (map MP_STR ss)"
    using assms by (simp_all split: if_splits)
  then show ?thesis
    using read_array [of ss "Suc d" ser_string MP_STR r] pack_strings
    by (simp add: list_all_iff read_string del: read_object.simps)
next
  case (pack_i32s ns)
  then show ?thesis
    using assms read_array [of ns "Suc d" ser_i32 i32_object r]
    by (simp add: read_i32 del: read_object.simps split: if_splits)
next
  case (pack_f32s fs)
  then show ?thesis
    using assms read_array [of fs "Suc d" ser_f32 MP_FLOAT32 r]
    by (simp add: read_f32 del: read_object.simps split: if_splits)
next
  case (pack_i32 n)
  then show ?thesis using assms by (simp add: read_i32 del: read_object.simps)
next
  case (pack_string s)
  then show ?thesis
    using assms by (simp add: read_string del: read_object.simps split: if_splits)
next
  case (pack_u8 n)
  moreover have "unat n < 2 ^ 64" using unat_bound [of n] by simp
  ultimately show ?thesis using assms by (simp add: read_uint)
next
  case (pack_u32 n)
  moreover have "unat n < 2 ^ 64" using unat_bound [of n] by simp
  ultimately show ?thesis using assms by (simp add: read_uint)
next
  case (pack_u64 n)
  moreover have "unat n < 2 ^ 64" using unat_bound [of n] by simp
  ultimately show ?thesis using assms by (simp add: read_uint)
qed (use assms in simp_all)

lemma read_entries:
  "entry_objects cs = Some es \<Longrightarrow>
     read_many (read_pair (read_object (Suc (Suc d)))) (length es) (concat (map ser_call cs) @ r)
       = Some (es, r)"
proof (induction cs arbitrary: es rule: entry_objects.induct)
  case (2 n k v cs)
  then obtain ov es' where e: "unat n = length k" "call_object v = Some ov"
    "entry_objects cs = Some es'" "es = (MP_STR k, ov) # es'"
    by (auto split: if_splits option.splits)
  have "length k < 2 ^ 32" using unat_bound [of n] e(1) by simp
  then have "read_object (Suc (Suc d)) (ser_str_header (length k) @ k @ s) = Some (MP_STR k, s)" for s
    using read_string [of k "Suc d" s] by (simp add: ser_string_def fits_u32_def del: read_object.simps)
  with 2(1) e show ?case by (simp add: read_pair_def call_split del: read_object.simps)
qed simp_all

lemma read_calls:
  assumes "calls_object cs = Some ob"
  shows "read_object (Suc (Suc (Suc d))) (concat (map ser_call cs) @ r) = Some (ob, r)"
proof -
  obtain n cs' es where c: "cs = pack_map n # cs'" "entry_objects cs' = Some es"
    "length es = unat n" "ob = MP_MAP es"
    using assms by (cases cs rule: calls_object.cases) (auto split: option.splits if_splits)
  moreover have "unat n < 2 ^ 32" using unat_bound [of n] by simp
  ultimately have "read_head (ser_map_header (length es) @ s) = Some (H_map (length es), s)" for s
    by (simp add: read_map_header)
  then show ?thesis
    using c read_entries [OF c(2), of d r]
    by (subst read_object.simps(2)) (simp del: read_object.simps)
qed

lemma std_elems_map:
  "(\<And>x. cv (f x) d = (True, x)) \<Longrightarrow> std_elems cv d (map f xs) = (True, xs)"
  by (induction xs) auto

lemma wrap_sign:
  fixes x :: int
  assumes "0 \<le> x" "x < 2 ^ 32"
  shows "0 \<le> (x + 2 ^ 31) mod 2 ^ 32 - 2 ^ 31 \<longleftrightarrow> x < 2 ^ 31"
proof (cases "x < 2 ^ 31")
  case True
  have "(x + 2 ^ 31) mod 2 ^ 32 = x + 2 ^ 31"
    using True assms by (intro mod_pos_pos_trivial) simp_all
  then show ?thesis using True assms by linarith
next
  case False
  have "(x + 2 ^ 31) mod 2 ^ 32 = (x + 2 ^ 31 - 2 ^ 32) mod 2 ^ 32"
    by (simp only: minus_mod_self2)
  also have "\<dots> = x + 2 ^ 31 - 2 ^ 32"
    using False assms by (intro mod_pos_pos_trivial) simp_all
  finally show ?thesis using False assms by linarith
qed

lemma i32_sign:
  fixes n :: i32
  shows "0 \<le>s n \<longleftrightarrow> unat n < 2 ^ 31"
proof -
  have s: "sint n = (uint n + 2 ^ 31) mod 2 ^ 32 - 2 ^ 31"
    by (simp add: sint_uint signed_take_bit_eq_take_bit_shift take_bit_eq_mod)
  have "uint n < 2 ^ 32" by (rule unsigned_less [THEN order.strict_trans2]) simp
  then have "0 \<le> sint n \<longleftrightarrow> uint n < 2 ^ 31"
    unfolding s by (intro wrap_sign) simp_all
  moreover have "uint n < 2 ^ 31 \<longleftrightarrow> unat n < 2 ^ 31"
    by (simp only: uint_nat of_nat_less_iff [where 'a = int, symmetric] of_nat_power of_nat_numeral)
  ultimately show ?thesis by (simp only: word_sle_eq sint_0)
qed

lemma ucast_up_down:
  fixes n :: byte and m :: u32
  shows "(ucast (ucast n :: u64) :: byte) = n" "(ucast (ucast m :: u64) :: u32) = m"
    "(ucast (scast m :: u64) :: u32) = m"
  by (rule bit_word_eqI, simp add: bit_simps)+

lemma unat_ucast_up:
  fixes n :: byte and m :: u32
  shows "unat (ucast n :: u64) = unat n" "unat (ucast m :: u64) = unat m"
  using unat_bound [of n] unat_bound [of m] by (simp_all add: unsigned_ucast_eq take_bit_eq_mod)

lemma std_i32_object: "std_i32 (i32_object n) out = (True, n)"
proof (cases "0 \<le>s n")
  case True
  then show ?thesis
    using unat_bound [of n] by (simp add: std_i32_def i32_object_def i32_sign unat_ucast_up ucast_up_down)
next
  case False
  then show ?thesis
    using unat_scast_neg [OF False] by (simp add: std_i32_def i32_object_def ucast_up_down)
qed

interpretation std: msgpack_api msgpack_std
proof unfold_locales
  fix cs ob
  assume a: "calls_object cs = Some ob"
  have four: "Suc (Suc (Suc (Suc 0))) = 4" by simp
  show "mp_unpack msgpack_std (mp_bytes msgpack_std cs) = Some ob"
    using read_calls [OF a, of 1 "[]"] four by (simp add: msgpack_std_def del: read_object.simps)
  show "mp_bytes msgpack_std cs \<noteq> []"
    using a by (cases cs rule: calls_object.cases) (simp_all add: msgpack_std_def ser_map_header_def)
next
  fix n :: u64 and out
  show "mp_u64 msgpack_std (MP_POSITIVE_INTEGER n) out = (True, n)"
    using unat_bound [of n] by (simp add: msgpack_std_def std_uint_def)
next
  fix n :: byte and out
  show "mp_u8 msgpack_std (MP_POSITIVE_INTEGER (ucast n)) out = (True, n)"
    using unat_bound [of n] by (simp add: msgpack_std_def std_uint_def ucast_up_down unat_ucast_up)
next
  fix n :: u32 and out
  show "mp_u32 msgpack_std (MP_POSITIVE_INTEGER (ucast n)) out = (True, n)"
    using unat_bound [of n] by (simp add: msgpack_std_def std_uint_def ucast_up_down unat_ucast_up)
qed (simp_all add: msgpack_std_def std_str_def std_vec_def std_f32_def std_i32_object std_elems_map)

end
