(* ===== verification/Wire_Correct.thy ===== *)
theory Wire_Correct
  imports Msgpack_Format
begin

text \<open>
  The properties of src/common/protocol.cc: a message survives encoding and decoding for
  every msgpack library that keeps its documentation, unknown keys do not matter, and the
  frame header delimits exactly the bodies the reader accepts.
\<close>

section \<open>Bodies\<close>

text \<open>C3: A message whose strings and vectors msgpack can express and whose encoded body is within
  the 1 MiB cap is decoded to itself by \<^verbatim>\<open>DecodeBody\<close>, for all eight message types, and
  \<^verbatim>\<open>PeekMessageType\<close> reads its type tag.\<close>

theorem decode_encode_body:
  assumes "msgpack_api mp" and "message_fits m" and "length (EncodeBody mp m) \<le> kMaxFrameBodyBytes"
  shows "DecodeBody mp (EncodeBody mp m) = Some m
    \<and> PeekMessageType mp (EncodeBody mp m) = Some (message_type m)"
  using assms by (simp add: msgpack_api.decode_encode msgpack_api.peek_encode)

definition pong7 :: Message where
  "pong7 = M_Pong \<lparr>pong_request_id = 7\<rparr>"

lemma pong7_body: "EncodeBody msgpack_std pong7 = [0x83, 0xA1, 0x76, 1, 0xA1, 0x74, 5, 0xA2, 0x69, 0x64, 7]"
  by (simp add: EncodeBody_def pong7_def calls_defs key_defs msgpack_std_def ser_map_header_def
      ser_str_header_def ser_uint_def kProtocolVersion_def)

theorem decode_encode_body_witness:
  "DecodeBody msgpack_std [0x83, 0xA1, 0x76, 1, 0xA1, 0x74, 5, 0xA2, 0x69, 0x64, 7] = Some pong7"
  using decode_encode_body [of msgpack_std pong7] std.msgpack_api_axioms
  by (simp add: pong7_body) (simp add: pong7_def kMaxFrameBodyBytes_def)

section \<open>Unknown and missing keys\<close>

definition known_keys :: "string list" where
  "known_keys = [kKeyVersion, kKeyType, kKeyId, kKeyCode, kKeyContext, kKeyCandidates, kKeyAppId,
     kKeyOrder, kKeyScores, kKeyLatencyUs, kKeyModelVersion, kKeyText, kKeyErrCode, kKeyErrMsg,
     kKeyRerankCount, kKeyPingCount, kKeyCommitCount, kKeyErrorCount, kKeyRerankLatSum,
     kKeyRerankLatMax, kKeyRerankModelVer, kKeyUptimeSec]"

text \<open>An entry whose key is exactly one of these strings.\<close>

definition known_entry :: "mp_object \<times> mp_object \<Rightarrow> bool" where
  "known_entry kv \<longleftrightarrow> list_ex (\<lambda>key. fst kv = MP_STR (lit key)) known_keys"

lemma KeyEquals_iff: "KeyEquals kv key \<longleftrightarrow> fst kv = MP_STR (lit key)"
  by (cases "fst kv") (simp_all add: KeyEquals_def)

lemma map_scan_filter:
  "(\<And>kv. KeyEquals kv key \<Longrightarrow> P kv) \<Longrightarrow> map_scan conv (filter P kvs) key out = map_scan conv kvs key out"
  by (induction kvs) auto

lemma map_scan_known:
  "key \<in> set known_keys \<Longrightarrow> map_scan conv (filter known_entry kvs) key out = map_scan conv kvs key out"
  by (rule map_scan_filter) (auto simp: known_entry_def list_ex_iff KeyEquals_iff)

text \<open>The first entry with the key decides, as in an association list.\<close>

lemma map_scan_map_of:
  "map_scan conv kvs key out = (case map_of kvs (MP_STR (lit key)) of None \<Rightarrow> (False, out) | Some v \<Rightarrow> conv v out)"
  by (induction kvs) (auto simp: KeyEquals_iff)

lemma keys_known:
  "kKeyType \<in> set known_keys" "kKeyId \<in> set known_keys" "kKeyCode \<in> set known_keys"
  "kKeyContext \<in> set known_keys" "kKeyCandidates \<in> set known_keys" "kKeyAppId \<in> set known_keys"
  "kKeyOrder \<in> set known_keys" "kKeyScores \<in> set known_keys" "kKeyLatencyUs \<in> set known_keys"
  "kKeyModelVersion \<in> set known_keys" "kKeyText \<in> set known_keys" "kKeyErrCode \<in> set known_keys"
  "kKeyErrMsg \<in> set known_keys" "kKeyRerankCount \<in> set known_keys" "kKeyPingCount \<in> set known_keys"
  "kKeyCommitCount \<in> set known_keys" "kKeyErrorCount \<in> set known_keys"
  "kKeyRerankLatSum \<in> set known_keys" "kKeyRerankLatMax \<in> set known_keys"
  "kKeyRerankModelVer \<in> set known_keys" "kKeyUptimeSec \<in> set known_keys"
  by (simp_all add: known_keys_def)

text \<open>C30: The decoder depends only on the entries whose key is exactly one of the protocol's strings:
  dropping every other entry of the map, wherever it stands, also one whose key is a beginning or an
  extension of such a string, changes neither the type it reads nor the message; of several entries with
  the same key the first decides, and an empty map of any of the eight types gives the default message
  (protocol.h: unknown keys are ignored, missing keys take their default value).\<close>

theorem decode_ignores_unknown_keys:
  "MapGetType mp (MP_MAP (filter known_entry kvs)) = MapGetType mp (MP_MAP kvs)
   \<and> decode_object mp (MP_MAP (filter known_entry kvs)) t = decode_object mp (MP_MAP kvs) t
   \<and> MapGet conv (MP_MAP kvs) key out =
       (case map_of kvs (MP_STR (lit key)) of None \<Rightarrow> (False, out) | Some v \<Rightarrow> conv v out)
   \<and> decode_object mp (MP_MAP []) kRerankRequest = Some (M_RerankRequest RerankRequest_init)
   \<and> decode_object mp (MP_MAP []) kRerankResponse = Some (M_RerankResponse RerankResponse_init)
   \<and> decode_object mp (MP_MAP []) kCommitEvent = Some (M_CommitEvent CommitEvent_init)
   \<and> decode_object mp (MP_MAP []) kPing = Some (M_Ping \<lparr>ping_request_id = 0\<rparr>)
   \<and> decode_object mp (MP_MAP []) kPong = Some (M_Pong \<lparr>pong_request_id = 0\<rparr>)
   \<and> decode_object mp (MP_MAP []) kError = Some (M_Error ErrorMessage_init)
   \<and> decode_object mp (MP_MAP []) kStatsRequest = Some (M_StatsRequest \<lparr>sq_request_id = 0\<rparr>)
   \<and> decode_object mp (MP_MAP []) kStatsResponse = Some (M_StatsResponse StatsResponse_init)"
proof (intro conjI)
  show "MapGetType mp (MP_MAP (filter known_entry kvs)) = MapGetType mp (MP_MAP kvs)"
    by (simp add: MapGetType_def MapGet_def map_scan_known keys_known)
  show "decode_object mp (MP_MAP (filter known_entry kvs)) t = decode_object mp (MP_MAP kvs) t"
    by (cases t) (simp_all add: decode_object_def field_def MapGet_def map_scan_known keys_known)
qed (simp_all add: decode_object_def field_def MapGet_def map_scan_map_of msg_init_defs)

section \<open>Frames\<close>

text \<open>The header \<^verbatim>\<open>EncodeFrame\<close> puts in front of a body of less than 4 GiB is read back
  as the body's length exactly when the body is not empty and within the cap, else it is refused, and the
  bytes after the header are the body.\<close>

theorem frame_header_roundtrip:
  assumes "length body < 2 ^ 32"
  shows "ReadFrameLength (EncodeFrame body) =
      (if body = [] \<or> length body > kMaxFrameBodyBytes then None else Some (of_nat (length body)))
    \<and> drop kFrameHeaderBytes (EncodeFrame body) = body"
proof -
  have "unat (of_nat (length body) :: u32) = length body"
    using assms by (simp add: unat_of_nat)
  moreover from this have "(of_nat (length body) :: u32) = 0 \<longleftrightarrow> body = []"
    by (metis length_0_conv unat_eq_zero)
  ultimately show ?thesis
    by (simp add: EncodeFrame_def ReadFrameLength_Write) (simp add: WriteFrameLength_def kFrameHeaderBytes_def)
qed

theorem frame_header_roundtrip_witness:
  "ReadFrameLength (EncodeFrame [1, 2, 3]) = Some 3 \<and> EncodeFrame [1, 2, 3] = [0, 0, 0, 3, 1, 2, 3]"
  using frame_header_roundtrip [of "[1, 2, 3]"]
  by (simp add: kMaxFrameBodyBytes_def EncodeFrame_def WriteFrameLength_def)

end
