(* ===== verification/Rerank_Scores.thy ===== *)
theory Rerank_Scores
  imports Rerankers
begin

text \<open>
  The order the deterministic backend produces.  A score depends on four small values
  (bigram hit, repetition, byte length up to 12, hash modulo 7).  The tables hold
  the two small contributions; the sums are bounded with the rounding error of an addition.
\<close>

section \<open>Evaluation of the score\<close>

definition base_score :: "bool \<Rightarrow> bool \<Rightarrow> f32" where
  "base_score rep hit =
     (let s1 = (if rep then f32_sub 0 (f32_of_int 5) else 0)
      in if hit then f32_add s1 (f32_of_int 10) else s1)"

definition half_table :: "f32 list" where
  "half_table = [0, 0x3F000000, 0x3F800000, 0x3FC00000, 0x40000000, 0x40200000, 0x40400000,
     0x40600000, 0x40800000, 0x40900000, 0x40A00000, 0x40B00000, 0x40C00000]"

definition tenth_table :: "f32 list" where
  "tenth_table = [0, 0x3DCCCCCD, 0x3E4CCCCD, 0x3E99999A, 0x3ECCCCCD, 0x3F000000, 0x3F19999A]"

lemma length_tables: "length half_table = 13" "length tenth_table = 7"
  by (simp_all add: half_table_def tenth_table_def)

lemma upt13: "[0..<13] = [0, 1, 2, 3, 4, 5, 6, 7, 8, 9, 10, 11, 12]"
  and upt7: "[0..<7] = [0, 1, 2, 3, 4, 5, 6]"
  by (simp_all add: upt_conv_Cons)

lemma half_map: "map (\<lambda>m. f32_mul 0x3F000000 (f32_of_int (int m))) [0..<13] = half_table"
  unfolding upt13 list.map half_table_def by (simp add: f32_eval cong: let_weak_cong)

lemma tenth_map: "map (\<lambda>k. f32_mul (f32_of_int (int k)) 0x3DCCCCCD) [0..<7] = tenth_table"
  unfolding upt7 list.map tenth_table_def by (simp add: f32_eval cong: let_weak_cong)

lemma half_eval: "m < 13 \<Longrightarrow> f32_mul 0x3F000000 (f32_of_int (int m)) = half_table ! m"
  by (simp del: upt_rec_numeral flip: half_map)

lemma tenth_eval: "k < 7 \<Longrightarrow> f32_mul (f32_of_int (int k)) 0x3DCCCCCD = tenth_table ! k"
  by (simp del: upt_rec_numeral flip: tenth_map)

lemma half_vals:
  "list_all (\<lambda>h. f32_finite h \<and> 0 \<le> f32_val h \<and> f32_val h \<le> 6 * 2 ^ 149) half_table"
  unfolding half_table_def list.pred_inject by (simp add: f32_eval f32_finite_def cong: let_weak_cong)

lemma tenth_vals:
  "list_all (\<lambda>t. f32_finite t \<and> 0 \<le> f32_val t \<and> f32_val t \<le> 2 ^ 149) tenth_table"
  unfolding tenth_table_def list.pred_inject by (simp add: f32_eval f32_finite_def cong: let_weak_cong)

definition base_units :: "bool \<Rightarrow> bool \<Rightarrow> int" where
  "base_units rep hit = (if hit then 10 else 0) - (if rep then 5 else 0)"

lemma base_score_val:
  "f32_finite (base_score rep hit)" "f32_val (base_score rep hit) = base_units rep hit * 2 ^ 149"
  by (cases rep; cases hit;
      simp add: base_score_def base_units_def f32_eval f32_finite_def cong: let_weak_cong)+

lemma length_bonus_val:
  assumes "length cand < 2 ^ 31"
  shows "f32_finite (length_bonus cand)" "0 \<le> f32_val (length_bonus cand)"
    "f32_val (length_bonus cand) \<le> 6 * 2 ^ 149"
proof -
  define m where "m = min (length cand) 12"
  have "sint (of_nat (length cand) :: i32) = int (length cand)"
    using assms by (simp add: signed_of_nat signed_take_bit_int_eq_self)
  then have "min (sint (of_nat (length cand) :: i32)) 12 = int m"
    by (simp add: m_def)
  then have "length_bonus cand = half_table ! m"
    by (simp only: length_bonus_def) (simp add: half_eval m_def)
  moreover have "half_table ! m \<in> set half_table"
    by (rule nth_mem) (simp add: length_tables m_def)
  ultimately show "f32_finite (length_bonus cand)" "0 \<le> f32_val (length_bonus cand)"
    "f32_val (length_bonus cand) \<le> 6 * 2 ^ 149"
    using half_vals by (auto simp: list_all_iff)
qed

lemma length_bonus_cong: "length a = length b \<Longrightarrow> length_bonus a = length_bonus b"
  by (simp add: length_bonus_def)

lemma tie_breaker_val:
  "f32_finite (tie_breaker cand ctx)" "0 \<le> f32_val (tie_breaker cand ctx)"
  "f32_val (tie_breaker cand ctx) \<le> 2 ^ 149"
proof -
  define k where "k = unat (FnvHash (cand @ ctx)) mod 7"
  have "uint (FnvHash (cand @ ctx) mod 7) = int k"
    by (simp add: k_def uint_mod zmod_int)
  then have "tie_breaker cand ctx = tenth_table ! k"
    by (simp only: tie_breaker_def) (simp add: tenth_eval k_def)
  moreover have "tenth_table ! k \<in> set tenth_table"
    by (rule nth_mem) (simp add: length_tables k_def)
  ultimately show "f32_finite (tie_breaker cand ctx)" "0 \<le> f32_val (tie_breaker cand ctx)"
    "f32_val (tie_breaker cand ctx) \<le> 2 ^ 149"
    using tenth_vals by (auto simp: list_all_iff)
qed

lemma ScoreCandidate_parts:
  "ScoreCandidate cand last_char ctx =
     f32_add (f32_add (base_score (repeats cand last_char) (bigram_hit cand last_char))
       (length_bonus cand)) (tie_breaker cand ctx)"
  by (simp add: ScoreCandidate_def base_score_def Let_def)

text \<open>The score is the exact sum up to the rounding of the two additions.\<close>

lemma ScoreCandidate_rounds:
  fixes cand last_char ctx
  assumes len: "length cand < 2 ^ 31"
  defines "s \<equiv> ScoreCandidate cand last_char ctx"
    and "exact \<equiv> base_units (repeats cand last_char) (bigram_hit cand last_char) * 2 ^ 149
      + f32_val (length_bonus cand) + f32_val (tie_breaker cand ctx)"
  shows "f32_finite s" and "\<bar>f32_val s - exact\<bar> < 2 ^ 140"
proof -
  define b where "b = base_score (repeats cand last_char) (bigram_hit cand last_char)"
  define u where "u = f32_add b (length_bonus cand)"
  note facts = base_score_val [of "repeats cand last_char" "bigram_hit cand last_char", folded b_def]
    length_bonus_val [OF len] tie_breaker_val [of cand ctx]
  have base: "\<bar>f32_val b\<bar> \<le> 10 * 2 ^ 149"
    unfolding facts(2) by (simp add: base_units_def)
  have "\<bar>f32_val b + f32_val (length_bonus cand)\<bar> \<le> 16 * 2 ^ 149"
    using base facts(4,5) by linarith
  then have u: "f32_finite u" "\<bar>f32_val u - (f32_val b + f32_val (length_bonus cand))\<bar> * 2 ^ 24 \<le> 16 * 2 ^ 149"
    using f32_add_rounds [OF facts(1,3), folded u_def] by (simp_all)
  have "\<bar>f32_val u + f32_val (tie_breaker cand ctx)\<bar> \<le> 18 * 2 ^ 149"
    using u(2) base facts(4,5,7,8) by simp
  then have v: "f32_finite s" "\<bar>f32_val s - (f32_val u + f32_val (tie_breaker cand ctx))\<bar> * 2 ^ 24 \<le> 18 * 2 ^ 149"
    using f32_add_rounds [OF u(1) facts(6)]
    by (simp_all add: s_def ScoreCandidate_parts u_def b_def)
  show "f32_finite s" by (rule v(1))
  have "exact = f32_val b + f32_val (length_bonus cand) + f32_val (tie_breaker cand ctx)"
    by (simp add: exact_def facts(2))
  then show "\<bar>f32_val s - exact\<bar> < 2 ^ 140"
    using u(2) v(2) by simp
qed

section \<open>The order of the reply\<close>

definition in_range :: "RerankRequest \<Rightarrow> bool" where
  "in_range req \<longleftrightarrow> few_candidates req \<and> list_all (\<lambda>c. length c < 2 ^ 31) (rq_candidates req)"

text \<open>The last character of the context, and what a score says of candidate \<open>i\<close>.\<close>

definition cand_score :: "RerankRequest \<Rightarrow> nat \<Rightarrow> f32" where
  "cand_score req i = ScoreCandidate (rq_candidates req ! i)
     (LastUtf8Char (rq_context_before req)) (rq_context_before req)"

definition cand_hit :: "RerankRequest \<Rightarrow> nat \<Rightarrow> bool" where
  "cand_hit req i = bigram_hit (rq_candidates req ! i) (LastUtf8Char (rq_context_before req))"

definition cand_repeats :: "RerankRequest \<Rightarrow> nat \<Rightarrow> bool" where
  "cand_repeats req i = repeats (rq_candidates req ! i) (LastUtf8Char (rq_context_before req))"

lemma cand_score_rounds:
  assumes "in_range req" "i < length (rq_candidates req)"
  shows "f32_finite (cand_score req i)"
    and "\<bar>f32_val (cand_score req i) - (base_units (cand_repeats req i) (cand_hit req i) * 2 ^ 149
      + f32_val (length_bonus (rq_candidates req ! i))
      + f32_val (tie_breaker (rq_candidates req ! i) (rq_context_before req)))\<bar> < 2 ^ 140"
  using assms ScoreCandidate_rounds [of "rq_candidates req ! i"]
  by (simp_all add: in_range_def list_all_length cand_score_def cand_hit_def cand_repeats_def)

lemma det_scored_cand:
  "few_candidates req \<Longrightarrow> det_scored req = map (\<lambda>i. (cand_score req i, i)) [0..<length (rq_candidates req)]"
  by (simp add: det_scored_def cand_score_def Let_def cand_count_small)

lemma det_order_sorted:
  assumes "in_range req"
  shows "sorted_wrt (\<lambda>i j. f32_val (cand_score req i) > f32_val (cand_score req j)
      \<or> f32_val (cand_score req i) = f32_val (cand_score req j) \<and> i < j)
    (order_of (Deterministic_Rerank lat req))"
proof -
  let ?xs = "det_scored req"
  have few: "few_candidates req" using assms by (simp add: in_range_def)
  have "by_score_desc a b = desc_no_nan a b" if "a \<in> set ?xs" "b \<in> set ?xs" for a b
    using that cand_score_rounds(1) [OF assms]
    by (auto simp: det_scored_cand [OF few] by_score_desc_def desc_no_nan_def f32_gt_finite)
  then have same: "sort_by by_score_desc ?xs = sort_by desc_no_nan ?xs"
    by (rule sort_by_cong)
  have "sorted_wrt (\<lambda>a b. snd a < snd b) ?xs"
    by (simp add: det_scored_cand [OF few] sorted_wrt_map)
  from score_desc.sort_by_keeps [OF this]
  have "sorted_wrt (\<lambda>a b. desc_no_nan a b \<or> \<not> desc_no_nan b a \<and> snd a < snd b)
    (sort_by by_score_desc ?xs)"
    by (simp only: same)
  moreover have "fst a = cand_score req (snd a)" if "a \<in> set (sort_by by_score_desc ?xs)" for a
    using that by (auto simp: det_scored_cand [OF few])
  ultimately show ?thesis
    unfolding order_det [OF few] sorted_wrt_map
    by (auto simp: desc_no_nan_def elim!: sorted_wrt_mono_rel [rotated])
qed

text \<open>A candidate cannot repeat the last character and follow it in the table.\<close>

lemma bigram_table:
  "list_all (\<lambda>(p, f). length p = 3 \<and> length f = 3 \<and> p \<noteq> f \<and> 0 \<notin> set p \<and> 0 \<notin> set f) kBigrams"
  unfolding kBigrams_def list.pred_inject by simp

lemma hit_not_repeat:
  assumes "bigram_hit cand last_char"
  shows "\<not> repeats cand last_char"
proof -
  obtain f where pf: "(last_char, f) \<in> set kBigrams" "StartsWith cand f"
    using assms by (auto simp: bigram_hit_def list_ex_iff)
  then have "length last_char = 3 \<and> length f = 3 \<and> last_char \<noteq> f \<and> 0 \<notin> set last_char \<and> 0 \<notin> set f"
    using bigram_table by (auto simp: list_all_iff)
  with pf(2) show ?thesis
    by (auto simp: repeats_def StartsWith_def)
qed

lemma hit_above_other:
  assumes "in_range req" "i < length (rq_candidates req)" "j < length (rq_candidates req)"
    and "cand_hit req i" "\<not> cand_hit req j"
  shows "f32_val (cand_score req j) < f32_val (cand_score req i)"
proof -
  have len: "length (rq_candidates req ! k) < 2 ^ 31" if "k < length (rq_candidates req)" for k
    using assms(1) that by (simp add: in_range_def list_all_length)
  have "\<not> cand_repeats req i"
    using assms(4) hit_not_repeat by (auto simp: cand_hit_def cand_repeats_def)
  then have "base_units (cand_repeats req i) (cand_hit req i) = 10"
    using assms(4) by (simp add: base_units_def)
  moreover have "base_units (cand_repeats req j) (cand_hit req j) \<le> 0"
    using assms(5) by (simp add: base_units_def)
  ultimately show ?thesis
    using cand_score_rounds(2) [OF assms(1,2)] cand_score_rounds(2) [OF assms(1,3)]
      length_bonus_val(2,3) [OF len [OF assms(2)]] length_bonus_val(2,3) [OF len [OF assms(3)]]
      tie_breaker_val(2,3) [of "rq_candidates req ! i" "rq_context_before req"]
      tie_breaker_val(2,3) [of "rq_candidates req ! j" "rq_context_before req"]
    by simp
qed

lemma plain_above_repeat:
  assumes "in_range req" "i < length (rq_candidates req)" "j < length (rq_candidates req)"
    and "\<not> cand_hit req i" "\<not> cand_hit req j" "\<not> cand_repeats req i" "cand_repeats req j"
    and "length (rq_candidates req ! i) = length (rq_candidates req ! j)"
  shows "f32_val (cand_score req j) < f32_val (cand_score req i)"
proof -
  have "base_units (cand_repeats req i) (cand_hit req i) = 0"
    "base_units (cand_repeats req j) (cand_hit req j) = -5"
    using assms(4-7) by (simp_all add: base_units_def)
  then show ?thesis
    using cand_score_rounds(2) [OF assms(1,2)] cand_score_rounds(2) [OF assms(1,3)]
      length_bonus_cong [OF assms(8)]
      tie_breaker_val(2,3) [of "rq_candidates req ! i" "rq_context_before req"]
      tie_breaker_val(2,3) [of "rq_candidates req ! j" "rq_context_before req"]
    by simp
qed

text \<open>An order sorted by score never puts a lower score first.\<close>

lemma det_order_pairs:
  assumes "in_range req"
    and "\<And>i j. i < length (rq_candidates req) \<Longrightarrow> j < length (rq_candidates req) \<Longrightarrow>
      f32_val (cand_score req i) \<ge> f32_val (cand_score req j) \<Longrightarrow> P i j"
  shows "sorted_wrt P (order_of (Deterministic_Rerank lat req))"
proof (rule sorted_wrt_mono_rel [OF _ det_order_sorted [OF assms(1)]])
  have few: "few_candidates req" using assms(1) by (simp add: in_range_def)
  fix i j
  assume "i \<in> set (order_of (Deterministic_Rerank lat req))"
    "j \<in> set (order_of (Deterministic_Rerank lat req))"
    "f32_val (cand_score req i) > f32_val (cand_score req j)
      \<or> f32_val (cand_score req i) = f32_val (cand_score req j) \<and> i < j"
  then show "P i j"
    using det.order_set [OF few] by (intro assms(2)) auto
qed

section \<open>Properties\<close>

text \<open>C7: Whatever backend is configured, linked and loadable, the service \<^verbatim>\<open>BuildReranker\<close>
  returns answers with the request's id and an order that is a permutation of the candidate positions, so
  that the reordered list has the same candidates with the same multiplicities; the scores are absent or
  one per candidate.\<close>

theorem BuildReranker_permutes:
  assumes "few_candidates req"
  shows "let resp = BuildReranker mlx_l llama_l kind path lat req in
     rs_request_id resp = rq_request_id req
     \<and> mset (order_of resp) = mset [0..<length (rq_candidates req)]
     \<and> mset (map ((!) (rq_candidates req)) (order_of resp)) = mset (rq_candidates req)
     \<and> (rs_scores resp = [] \<or> length (rs_scores resp) = length (rq_candidates req))"
  using built.keeps_id built.permutes [OF assms] built.reordered_candidates [OF assms]
    built.scores_fit built.order_length [OF assms]
  by (simp add: Let_def) metis

text \<open>The request of the witnesses: context "jin" (this), candidates "hao", "jin" and "tian" (day).\<close>

definition demo_request :: RerankRequest where
  "demo_request = \<lparr>rq_request_id = 9, rq_code = lit ''gd'', rq_context_before = [0xE4, 0xBB, 0x8A],
     rq_candidates = [[0xE5, 0xA5, 0xBD], [0xE4, 0xBB, 0x8A], [0xE5, 0xA4, 0xA9]], rq_app_id = []\<rparr>"

lemma demo_in_range: "in_range demo_request" "few_candidates demo_request"
  by (simp_all add: demo_request_def in_range_def few_candidates_def)

theorem BuildReranker_permutes_witness:
  "rs_request_id (BuildReranker Stub Stub kLlamaCpp [] 5 demo_request) = 9
   \<and> mset (order_of (BuildReranker Stub Stub kLlamaCpp [] 5 demo_request)) = {#0, 1, 2#}"
  using BuildReranker_permutes [OF demo_in_range(2), of Stub Stub kLlamaCpp "[]" 5]
  by (simp only: Let_def) (simp add: demo_request_def upt_conv_Cons)

text \<open>The deterministic backend orders by descending score, and candidates with equal scores keep
  the order the input method gave them; its scores are never NaN, so the comparison is a strict weak
  order.\<close>

theorem deterministic_order_stable:
  assumes "in_range req"
  shows "sorted_wrt (\<lambda>i j. f32_gt (cand_score req i) (cand_score req j)
      \<or> f32_val (cand_score req i) = f32_val (cand_score req j) \<and> i < j)
    (order_of (Deterministic_Rerank lat req))"
proof (rule sorted_wrt_mono_rel [OF _ det_order_sorted [OF assms]])
  have few: "few_candidates req" using assms by (simp add: in_range_def)
  fix i j
  assume "i \<in> set (order_of (Deterministic_Rerank lat req))"
    "j \<in> set (order_of (Deterministic_Rerank lat req))"
  then have "f32_finite (cand_score req i)" "f32_finite (cand_score req j)"
    using det.order_set [OF few] cand_score_rounds(1) [OF assms] by auto
  then show "f32_val (cand_score req j) < f32_val (cand_score req i)
      \<or> f32_val (cand_score req i) = f32_val (cand_score req j) \<and> i < j \<Longrightarrow>
    f32_gt (cand_score req i) (cand_score req j)
      \<or> f32_val (cand_score req i) = f32_val (cand_score req j) \<and> i < j"
    by (simp add: f32_gt_finite)
qed

theorem deterministic_order_stable_witness:
  "sorted_wrt (\<lambda>i j. f32_gt (cand_score demo_request i) (cand_score demo_request j)
      \<or> f32_val (cand_score demo_request i) = f32_val (cand_score demo_request j) \<and> i < j)
    (order_of (Deterministic_Rerank 0 demo_request))"
  by (rule deterministic_order_stable [OF demo_in_range(1)])

text \<open>C8: In the deterministic order every candidate that follows the last context character in the
  bigram table comes before every candidate that does not, whatever their lengths and hashes; and
  among non-followers of the same byte length, one that repeats the last character comes after every one
  that does not.\<close>

theorem bigram_followers_first:
  assumes "in_range req"
  shows "sorted_wrt (\<lambda>i j. (cand_hit req j \<longrightarrow> cand_hit req i)
      \<and> \<not> (\<not> cand_hit req i \<and> \<not> cand_hit req j \<and> cand_repeats req i \<and> \<not> cand_repeats req j
           \<and> length (rq_candidates req ! i) = length (rq_candidates req ! j)))
    (order_of (Deterministic_Rerank lat req))"
proof (rule det_order_pairs [OF assms], intro conjI impI notI)
  fix i j
  assume ij: "i < length (rq_candidates req)" "j < length (rq_candidates req)"
    and le: "f32_val (cand_score req j) \<le> f32_val (cand_score req i)"
  show "cand_hit req i" if "cand_hit req j"
    using hit_above_other [OF assms ij(2,1) that] le by fastforce
  show False if "\<not> cand_hit req i \<and> \<not> cand_hit req j \<and> cand_repeats req i \<and> \<not> cand_repeats req j
      \<and> length (rq_candidates req ! i) = length (rq_candidates req ! j)"
    using plain_above_repeat [OF assms ij(2,1)] that le by simp
qed

lemma demo_last: "LastUtf8Char (rq_context_before demo_request) = [0xE4, 0xBB, 0x8A]"
proof -
  have "last_start [0xE4, 0xBB, 0x8A] (Suc (Suc 0)) = 0" by (simp add: is_cont_def)
  then show ?thesis by (simp add: demo_request_def LastUtf8Char_def numeral_2_eq_2)
qed

lemma demo_hits:
  "\<not> cand_hit demo_request 0" "\<not> cand_hit demo_request 1" "cand_hit demo_request 2"
  unfolding cand_hit_def demo_last bigram_hit_def kBigrams_def list_ex_Nil_iff list_ex_Cons_iff prod.case
  by (simp_all add: demo_request_def StartsWith_def c_str_def)

text \<open>So "tian", the third candidate, comes first.\<close>

theorem bigram_followers_first_witness:
  "hd (order_of (Deterministic_Rerank 0 demo_request)) = 2"
proof -
  let ?o = "order_of (Deterministic_Rerank 0 demo_request)"
  have set: "set ?o = {..<3}"
    using det.order_set [OF demo_in_range(2)] by (simp add: demo_request_def)
  then have "?o \<noteq> []" by (metis empty_set lessThan_empty_iff zero_neq_numeral)
  then obtain x xs where o: "?o = x # xs" by (cases ?o) auto
  have two: "2 \<in> set ?o" unfolding set by simp
  have "x \<in> set ?o" by (simp add: o)
  then have x: "x < 3" unfolding set by simp
  have "x = 2 \<or> 2 \<in> set xs" using two unfolding o by auto
  then have "cand_hit demo_request x"
    using bigram_followers_first [OF demo_in_range(1), of 0] demo_hits(3) by (auto simp: o)
  then have "x \<noteq> 0" "x \<noteq> 1" using demo_hits(1,2) by metis+
  with x have "x = 2" by linarith
  with o show ?thesis by simp
qed

end
