(* ===== verification/Daemon_Correct.thy ===== *)
theory Daemon_Correct
  imports Daemon_Main Server_Correct Learning_Correct
begin

text \<open>
  What the composition of the parts in main.cc gives: which parts run after a start, that commits
  reach the history through the server, and that the learner of the daemon never uses a remote.
\<close>

section \<open>After a start\<close>

lemma daemon_start_cases:
  assumes "daemon_start de args = Inr dm"
  obtains opt ok where
    "daemon_args args (daemon_defaults (GetDaemonAddress (de_env de) (de_cwd de))) = Inr opt"
    "dm_options dm = opt"
    "ListenEndpoint (de_sun_len de) (de_os de) (do_addr opt) = (Some (dm_endpoint dm), dm_calls dm)"
    "MakeSqliteHistoryStore (de_open de) (join (GetDataDir (de_env de) (de_cwd de)) (lit ''history.db''))
       (GetDataDir (de_env de) (de_cwd de)) = (ok, dm_opened dm)"
    "dm_server_env dm = \<lparr>se_rerank = BuildReranker (de_mlx de) (de_llama de) (do_backend opt) (do_model_path opt),
       se_latency = de_latency de, se_uptime = de_uptime de, se_record = commit_record (de_sq de) (de_clock de)\<rparr>"
    "dm_server dm = Server_init (if ok then Some (de_db de) else None, 0)"
    "dm_learner dm = (if do_auto_learn opt \<and> ok
       then Some (learn_config_of (de_env de) (GetDataDir (de_env de) (de_cwd de)) opt,
              Start (de_learn_start de) (Count (de_sq de) (de_db de))
                (AutoLearn_ctor True (de_start de) (de_fs de) (de_git de)))
       else None)"
    "fst (sv_log (dm_server dm)) = None \<longleftrightarrow> \<not> ok"
proof -
  obtain opt where o: "daemon_args args (daemon_defaults (GetDaemonAddress (de_env de) (de_cwd de))) = Inr opt"
    using assms by (auto simp: daemon_start_def split: sum.splits)
  obtain ep calls where l: "ListenEndpoint (de_sun_len de) (de_os de) (do_addr opt) = (Some ep, calls)"
    using assms by (auto simp: daemon_start_def o split: option.splits prod.splits)
  obtain opened acts where m: "MakeSqliteHistoryStore (de_open de)
      (join (GetDataDir (de_env de) (de_cwd de)) (lit ''history.db'')) (GetDataDir (de_env de) (de_cwd de)) = (opened, acts)"
    by fastforce
  have start: "daemon_start de args = Inr dm" by (rule assms)
  show ?thesis
    by (rule that [OF o, of opened]; use start in \<open>auto simp: daemon_start_def o l m Let_def Server_init_def
        simp del: lit_simps\<close>)
qed

text \<open>C16: A daemon that starts listens on its address, opens no database but history.db of its data
  directory, runs the learner exactly if that is not switched off and the history is open, with the
  first round at least the minimal interval after the start and only for new entries, and has
  stopped it when it ends; without the history it serves with a logger that drops every commit.\<close>

theorem daemon_startup:
  assumes "daemon_start de args = Inr dm"
  shows "(\<exists>log. ListenEndpoint (de_sun_len de) (de_os de) (do_addr (dm_options dm)) = (Some (dm_endpoint dm), log))
    \<and> (\<forall>p. Open_db p \<in> set (dm_opened dm) \<longrightarrow> p = join (GetDataDir (de_env de) (de_cwd de)) (lit ''history.db''))
    \<and> (dm_learner dm \<noteq> None \<longleftrightarrow> do_auto_learn (dm_options dm) \<and> fst (sv_log (dm_server dm)) \<noteq> None)
    \<and> (\<forall>cfg al te. dm_learner dm = Some (cfg, al) \<and> ShouldRunLocked cfg te al \<longrightarrow>
         Count (de_sq de) (de_db de) < re_count (te_round te)
         \<and> (0 < sint (do_min_interval_s (dm_options dm)) \<longrightarrow>
              usec (sint (do_min_interval_s (dm_options dm))) \<le> te_now te - de_learn_start de))
    \<and> (\<forall>cfg al. dm_learner (snd (daemon_finish dm)) = Some (cfg, al) \<longrightarrow> al_stop al \<and> \<not> al_started al)
    \<and> (fst (sv_log (dm_server dm)) = None \<longrightarrow>
         (\<forall>ms. fst (sv_log (fst (serve (dm_server_env dm) (dm_server dm) ms))) = None))"
proof -
  obtain opt ok where opt: "dm_options dm = opt"
    "ListenEndpoint (de_sun_len de) (de_os de) (do_addr opt) = (Some (dm_endpoint dm), dm_calls dm)"
    and made: "MakeSqliteHistoryStore (de_open de) (join (GetDataDir (de_env de) (de_cwd de)) (lit ''history.db''))
       (GetDataDir (de_env de) (de_cwd de)) = (ok, dm_opened dm)"
    and env: "se_record (dm_server_env dm) = commit_record (de_sq de) (de_clock de)"
    and learner: "dm_learner dm = (if do_auto_learn opt \<and> ok
       then Some (learn_config_of (de_env de) (GetDataDir (de_env de) (de_cwd de)) opt,
              Start (de_learn_start de) (Count (de_sq de) (de_db de))
                (AutoLearn_ctor True (de_start de) (de_fs de) (de_git de)))
       else None)"
    and ok: "fst (sv_log (dm_server dm)) = None \<longleftrightarrow> \<not> ok"
    by (rule daemon_start_cases [OF assms]) simp
  have "p = join (GetDataDir (de_env de) (de_cwd de)) (lit ''history.db'')" if "Open_db p \<in> set (dm_opened dm)" for p
    using opened_path [OF made that] .
  moreover have "Count (de_sq de) (de_db de) < re_count (te_round te)
      \<and> (0 < sint (do_min_interval_s opt) \<longrightarrow>
           usec (sint (do_min_interval_s opt)) \<le> te_now te - de_learn_start de)"
    if "dm_learner dm = Some (cfg, al)" "ShouldRunLocked cfg te al" for cfg al te
    using that by (auto simp: learner ShouldRunLocked_def too_soon_def Start_def AutoLearn_ctor_def
        learn_config_of_def not_le not_less simp del: lit_simps split: if_splits)
  moreover have "al_stop al \<and> \<not> al_started al" if "dm_learner (snd (daemon_finish dm)) = Some (cfg, al)" for cfg al
    using that by (auto simp: daemon_finish_def learner Stop_def Start_def AutoLearn_ctor_def split: if_splits)
  moreover have "fst (fold (commit_record (de_sq de) (de_clock de)) evs l) = None" if "fst l = None" for evs l
    using that by (induction evs arbitrary: l) (auto simp: commit_record_def NullCommitLogger_Record_def)
  then have "fst (sv_log (fst (serve (dm_server_env dm) (dm_server dm) ms))) = None"
    if "fst (sv_log (dm_server dm)) = None" for ms
    using that by (simp add: serve_log env)
  ultimately show ?thesis using opt learner ok by (simp del: lit_simps)
qed

section \<open>Commits reach the history\<close>

text \<open>What a row holds besides its id, and what it should hold for the events from the \<open>k\<close>th on.\<close>

definition row_data :: "HistoryEntry \<Rightarrow> u64 \<times> bytes \<times> bytes \<times> bytes" where
  "row_data e = (he_ts_us e, he_code e, he_committed_text e, he_context_before e)"

fun event_data :: "(nat \<Rightarrow> u64) \<Rightarrow> nat \<Rightarrow> CommitEvent list \<Rightarrow> (u64 \<times> bytes \<times> bytes \<times> bytes) list" where
  "event_data clock k [] = []"
| "event_data clock k (ev # evs) =
     (clock k, bind_text (ev_code ev), bind_text (ev_committed_text ev), bind_text (ev_context_before ev))
       # event_data clock (Suc k) evs"

text \<open>Whether SQLite takes every one of the events.\<close>

fun all_taken :: "'d sqlite_api \<Rightarrow> (nat \<Rightarrow> u64) \<Rightarrow> nat \<Rightarrow> CommitEvent list \<Rightarrow> 'd \<Rightarrow> bool" where
  "all_taken sq clock k [] d = True"
| "all_taken sq clock k (ev # evs) d =
     (case Insert sq (clock k) ev d of (ok, d') \<Rightarrow> ok \<and> all_taken sq clock (Suc k) evs d')"

lemma commits_recorded:
  assumes "sqlite sq rows"
  shows "\<exists>d' added. fold (commit_record sq clock) evs (Some d, k) = (Some d', k + length evs)
    \<and> rows d' = rows d @ added \<and> subseq (map row_data added) (event_data clock k evs)
    \<and> (all_taken sq clock k evs d \<longrightarrow> map row_data added = event_data clock k evs)"
proof (induction evs arbitrary: d k)
  case (Cons ev evs)
  obtain ok d1 where ins: "Insert sq (clock k) ev d = (ok, d1)" by fastforce
  let ?new = "(clock k, bind_text (ev_code ev), bind_text (ev_committed_text ev), bind_text (ev_context_before ev))"
  have "\<exists>first. rows d1 = rows d @ first \<and> (map row_data first = [?new] \<or> \<not> ok \<and> first = [])"
  proof (cases ok)
    case True
    then show ?thesis
      using ins sqlite.insert_done [OF assms, of d] by (fastforce simp: Insert_def row_data_def split: if_splits)
  next
    case False
    then show ?thesis
      using ins sqlite.insert_failed [OF assms, of d] by (auto simp: Insert_def split: if_splits)
  qed
  then obtain first where first: "rows d1 = rows d @ first"
    "map row_data first = [?new] \<or> \<not> ok \<and> first = []" by (elim exE conjE)
  obtain d' added where rest: "fold (commit_record sq clock) evs (Some d1, Suc k) = (Some d', Suc k + length evs)"
    "rows d' = rows d1 @ added" "subseq (map row_data added) (event_data clock (Suc k) evs)"
    "all_taken sq clock (Suc k) evs d1 \<longrightarrow> map row_data added = event_data clock (Suc k) evs"
    using Cons.IH [of d1 "Suc k"] by blast
  have "fold (commit_record sq clock) (ev # evs) (Some d, k) = (Some d', k + length (ev # evs))"
    using rest(1) by (simp add: commit_record_def SqliteCommitLogger_Record_def ins)
  moreover have "subseq (map row_data (first @ added)) (event_data clock k (ev # evs))"
    using first(2) rest(3) by auto
  moreover have "all_taken sq clock k (ev # evs) d \<longrightarrow>
      map row_data (first @ added) = event_data clock k (ev # evs)"
    using first(2) rest(4) by (auto simp: ins)
  ultimately show ?case using rest(2) first(1) by (intro exI [of _ d'] exI [of _ "first @ added"]) simp
qed simp

lemma daemon_server:
  assumes "daemon_start de args = Inr dm"
  shows "se_record (dm_server_env dm) = commit_record (de_sq de) (de_clock de)"
    and "fst (sv_log (dm_server dm)) = Some d \<Longrightarrow> dm_server dm = Server_init (Some (de_db de), 0)"
  by (rule daemon_start_cases [OF assms]; simp)+

text \<open>C4: From the message to the row: after the daemon has handled a list of messages the history
  holds its old rows and then the commit events of the messages in order with the times of their
  recording, none invented or reordered, and none missing if SQLite took every insert; the commit counter
  counts them whether they were stored or not.\<close>

theorem commits_reach_history:
  assumes "sqlite (de_sq de) rows" and "daemon_start de args = Inr dm"
    and "fst (sv_log (dm_server dm)) = Some d"
    and "serve (dm_server_env dm) (dm_server dm) ms = (st, replies)"
  shows "\<exists>d' added. fst (sv_log st) = Some d' \<and> rows d' = rows d @ added
    \<and> subseq (map row_data added) (event_data (de_clock de) 0 (commits ms))
    \<and> (all_taken (de_sq de) (de_clock de) 0 (commits ms) d \<longrightarrow>
         map row_data added = event_data (de_clock de) 0 (commits ms))
    \<and> sv_commit_count st = of_nat (length (commits ms))"
proof -
  have env: "se_record (dm_server_env dm) = commit_record (de_sq de) (de_clock de)"
    and sv: "dm_server dm = Server_init (Some (de_db de), 0)"
    using assms(3) daemon_server [OF assms(2)] by simp_all
  have d: "de_db de = d" using assms(3) by (simp add: sv Server_init_def)
  have "sv_log st = fold (commit_record (de_sq de) (de_clock de)) (commits ms) (Some d, 0)"
    "sv_commit_count st = of_nat (length (commits ms))"
    using serve_log [of "dm_server_env dm" "dm_server dm" ms] assms(4)
    by (simp_all add: env sv Server_init_def d)
  then show ?thesis
    using commits_recorded [OF assms(1), of "de_clock de" "commits ms" d 0] by auto
qed

section \<open>No network\<close>

text \<open>C20: The background learner of the daemon never calls a remote: whatever the options, every round
  it can run leaves the repository unpushed.\<close>

theorem daemon_stays_local:
  assumes "daemon_start de args = Inr dm" and "dm_learner dm = Some (cfg, al)"
  shows "rd_calls (snd (RunLearningRound env api sync (round_config cfg) f ngram g)) = []
    \<and> \<not> lr_pushed (fst (RunLearningRound env api sync (round_config cfg) f ngram g))"
proof -
  have "\<not> lc_push_to_remote (round_config cfg)"
    using assms by (elim daemon_start_cases)
      (auto simp: round_config_def learn_config_of_def AutoLearnConfig_init_def simp del: lit_simps split: if_splits)
  note local_only = this
  obtain c p g' calls where gs: "git_step api (round_config cfg) sync g = ((c, p), g', calls)"
    by (metis surj_pair)
  have "calls = [] \<and> \<not> p"
  proof (cases sync)
    case None
    with gs show ?thesis by (simp add: git_step_def)
  next
    case (Some s)
    from git_step_calls [OF gs [unfolded Some]] local_only show ?thesis by blast
  qed
  then show ?thesis by (simp add: round_eq gs)
qed

section \<open>A concrete daemon\<close>

definition demo_daemon_env :: "(mem_db, mem_git) daemon_env" where
  "demo_daemon_env =
     \<lparr>de_env = (\<lambda>n. if n = lit ''DAFENG_DATA_DIR'' then Some [47, 100] else None), de_cwd = [47],
      de_mkdirs = \<lambda>p. True, de_sun_len = 104,
      de_os = \<lparr>lo_socket = 3, lo_bind = 0, lo_listen = 0, lo_connect = 0, lo_pipe = Some (4, 5)\<rparr>,
      de_mlx = Stub, de_llama = Stub,
      de_open = \<lparr>oe_canon = Some, oe_absolute = \<lambda>p. True, oe_parent = \<lambda>p. [47, 100], oe_mkdir = True,
        oe_open = True, oe_handle = True, oe_schema = True\<rparr>,
      de_sq = mem_sqlite, de_db = \<lparr>mem_rows = [], mem_changes = 0\<rparr>, de_clock = \<lambda>k. 7 + of_nat k,
      de_latency = \<lambda>k. 1, de_uptime = \<lambda>k. 0, de_start = 0, de_learn_start = 5, de_fs = \<lambda>_. None,
      de_git = \<lparr>mg_log = [], mg_work = 0, mg_staged = 0\<rparr>\<rparr>"

definition demo_daemon :: "(mem_db, mem_git) daemon" where
  "demo_daemon = (case daemon_start demo_daemon_env [] of Inr dm \<Rightarrow> dm)"

lemma demo_start: "daemon_start demo_daemon_env [] = Inr demo_daemon"
  by (simp add: demo_daemon_def demo_daemon_env_def daemon_start_def daemon_defaults_def GetDaemonAddress_def
      GetDataDir_def env_value_def ListenEndpoint_def UnixServer_ctor_def join_def MakeSqliteHistoryStore_def
      PathIsUnder_def separator_def Let_def)

lemma demo_daemon_parts:
  "fst (sv_log (dm_server demo_daemon)) = Some \<lparr>mem_rows = [], mem_changes = 0\<rparr>"
  "\<exists>cfg al. dm_learner demo_daemon = Some (cfg, al)"
  by (simp_all add: demo_daemon_def demo_daemon_env_def daemon_start_def daemon_defaults_def GetDaemonAddress_def
      GetDataDir_def env_value_def ListenEndpoint_def UnixServer_ctor_def join_def MakeSqliteHistoryStore_def
      PathIsUnder_def separator_def Server_init_def Let_def)

theorem daemon_startup_witness:
  "dm_learner demo_daemon \<noteq> None
   \<and> {p. Open_db p \<in> set (dm_opened demo_daemon)}
        \<subseteq> {join (GetDataDir (de_env demo_daemon_env) (de_cwd demo_daemon_env)) (lit ''history.db'')}"
  using daemon_startup [OF demo_start] demo_daemon_parts(2) by (auto simp del: lit_simps)

theorem daemon_stays_local_witness:
  "\<exists>cfg al. dm_learner demo_daemon = Some (cfg, al)
     \<and> rd_calls (snd (RunLearningRound demo_round_env mem_git_api None (round_config cfg) (\<lambda>_. None) []
          \<lparr>mg_log = [], mg_work = 0, mg_staged = 0\<rparr>)) = []"
proof -
  obtain cfg al where learner: "dm_learner demo_daemon = Some (cfg, al)"
    using demo_daemon_parts(2) by blast
  show ?thesis
    by (intro exI conjI, rule learner) (rule daemon_stays_local [OF demo_start learner, THEN conjunct1])
qed

theorem commits_reach_history_witness:
  "\<exists>d'. fst (sv_log (fst (serve (dm_server_env demo_daemon) (dm_server demo_daemon) [M_CommitEvent demo_event]))) = Some d'
     \<and> map row_data (mem_rows d') = [(7, [97], [98], [])]"
proof -
  have sq: "sqlite (de_sq demo_daemon_env) mem_rows" "de_clock demo_daemon_env 0 = 7"
    by (simp_all add: demo_daemon_env_def mem.sqlite_axioms)
  have ev: "commits [M_CommitEvent demo_event] = [demo_event]" by (simp add: commits_def)
  have "all_taken (de_sq demo_daemon_env) (de_clock demo_daemon_env) 0 [demo_event]
      \<lparr>mem_rows = [], mem_changes = 0\<rparr>"
    by (simp add: demo_daemon_env_def Insert_def mem_sqlite_def mem_insert_def max_id_def)
  note taken = this
  have data: "event_data (de_clock demo_daemon_env) 0 [demo_event] = [(7, [97], [98], [])]"
    by (simp add: sq(2) demo_event_def bind_text_id)
  show ?thesis
    using commits_reach_history [OF sq(1) demo_start demo_daemon_parts(1) prod.collapse [symmetric],
        of "[M_CommitEvent demo_event]"] taken
    unfolding ev data by auto
qed

end
