(* ===== verification/Phrase_Learning.thy ===== *)
theory Phrase_Learning
  imports Learning_Correct
begin

text \<open>
  What a learning round makes of two characters that are committed one after the other: each
  time is an occurrence the discovery counts, the word passes the noise filter, gets its wubi code
  and ends up in RIME's dictionary.
\<close>

section \<open>Pairs typed one after the other\<close>

text \<open>How often the texts \<open>a\<close> and \<open>b\<close> are committed in a row, at most two seconds apart; the
  list holds the commits with their times.\<close>

fun typed_pairs :: "u64 \<Rightarrow> bytes \<Rightarrow> bytes \<Rightarrow> (u64 \<times> bytes) list \<Rightarrow> nat" where
  "typed_pairs gap a b ((t, x) # (t', y) # r) =
     (if x = a \<and> y = b \<and> \<not> t' - t > gap then 1 else 0) + typed_pairs gap a b ((t', y) # r)"
| "typed_pairs gap a b _ = 0"

definition commit_time :: "HistoryEntry \<Rightarrow> u64 \<times> bytes" where
  "commit_time e = (he_ts_us e, he_committed_text e)"

lemma windows_2 [simp]:
  "windows 2 [] = []" "windows 2 [x] = []" "windows 2 (x # y # zs) = [x, y] # windows 2 (y # zs)"
proof -
  have "[0..<length (x # y # zs) - (2 - 1)] = 0 # map Suc [0..<length (y # zs) - (2 - 1)]"
    by (simp add: map_Suc_upt upt_conv_Cons del: upt_Suc)
  then show "windows 2 (x # y # zs) = [x, y] # windows 2 (y # zs)"
    by (simp add: windows_def comp_def del: upt_Suc)
qed (simp_all add: windows_def)

lemma occurrences_simps [simp]:
  "occurrences s [] = []"
  "occurrences s (w # ws) = (if gram_text w = s then w # occurrences s ws else occurrences s ws)"
  "occurrences s (ws @ ws') = occurrences s ws @ occurrences s ws'"
  by (simp_all add: occurrences_def)

text \<open>The pairs of a longer run of tokens include those of its end.\<close>

lemma occurrences_windows_end:
  "length (occurrences s (windows 2 ts)) \<le> length (occurrences s (windows 2 (us @ ts)))"
proof (induction us)
  case (Cons u us)
  have "length (occurrences s (windows 2 zs)) \<le> length (occurrences s (windows 2 (u # zs)))" for zs
    by (cases zs) simp_all
  from this [of "us @ ts"] Cons.IH show ?case by simp
qed simp

text \<open>A commit of one character is one token.\<close>

lemma tokens_single:
  assumes "utf8_char (he_committed_text e)"
  shows "\<exists>t. entry_to_tokens e = [t] \<and> tk_ch t = he_committed_text e"
proof -
  have "map tk_ch (entry_to_tokens e) = [he_committed_text e]"
    unfolding tokens_chars using pieces_CharOffsets [of "[he_committed_text e]"] assms by simp
  then show ?thesis by (auto simp: map_eq_Cons_conv)
qed

lemma typed_pairs_occurrences:
  assumes "utf8_char a" and "utf8_char b"
  shows "typed_pairs gap a b (map commit_time es)
    \<le> length (occurrences (a @ b) (concat (map (\<lambda>r. windows 2 (concat (map entry_to_tokens r))) (runs gap es))))"
    (is "_ \<le> ?n es")
proof (induction gap es rule: runs.induct)
  case (3 gap e e' es)
  obtain r rs where rs: "runs gap (e' # es) = (e' # r) # rs" using runs_Cons_ne by blast
  let ?rest = "entry_to_tokens e' @ concat (map entry_to_tokens r)"
  let ?occ = "\<lambda>ts. length (occurrences (a @ b) (windows 2 ts))"
  show ?case
  proof (cases "gap_between gap e e'")
    case True
    then show ?thesis using 3(1) by (simp add: commit_time_def gap_between_def)
  next
    case False
    have "?occ ?rest \<le> ?occ (entry_to_tokens e @ ?rest)" by (rule occurrences_windows_end)
    moreover have "Suc (?occ ?rest) \<le> ?occ (entry_to_tokens e @ ?rest)"
      if typed: "he_committed_text e = a" "he_committed_text e' = b"
    proof -
      obtain t t' where "entry_to_tokens e = [t]" "tk_ch t = a" "entry_to_tokens e' = [t']" "tk_ch t' = b"
        using tokens_single [of e] tokens_single [of e'] assms unfolding typed by blast
      then show ?thesis by (simp add: gram_text_def)
    qed
    ultimately show ?thesis
      using 3(2) [OF False] False by (auto simp: rs commit_time_def gap_between_def)
  qed
qed simp_all

section \<open>How many words a history can hold\<close>

lemma length_windows: "length (windows n xs) \<le> length xs"
  by (simp add: windows_def)

lemma offsets_bound: "length (offsets Utf8Len s i) \<le> length s - i"
proof (induction "length s - i" arbitrary: i rule: less_induct)
  case less
  show ?case
  proof (cases "i < length s \<and> Utf8Len s i \<noteq> 0")
    case True
    then have "length s - (i + Utf8Len s i) < length s - i" by arith
    with less [OF this] True show ?thesis by (subst offsets.simps) (simp add: Let_def)
  qed (auto simp: offsets.simps [of Utf8Len s i])
qed

lemma length_tokens: "length (entry_to_tokens e) \<le> length (he_committed_text e)"
  using offsets_bound [of "he_committed_text e" 0] by (simp add: entry_to_tokens_def CharOffsets_def Let_def)

definition text_size :: "HistoryEntry list \<Rightarrow> nat" where
  "text_size es = (\<Sum>e\<leftarrow>es. length (he_committed_text e))"

lemma length_run_tokens: "length (concat (map entry_to_tokens r)) \<le> text_size r"
  using length_tokens by (induction r) (auto simp: text_size_def intro: add_mono)

lemma text_size_concat: "text_size (concat rs) = sum_list (map text_size rs)"
  by (induction rs) (simp_all add: text_size_def)

lemma text_size_mset: "mset xs = mset ys \<Longrightarrow> text_size xs = text_size ys"
  unfolding text_size_def by (metis mset_map sum_mset_sum_list)

lemma length_all_grams:
  assumes "std_sort srt ts_less"
  shows "length (all_grams cfg srt es) \<le> 2 * text_size es"
proof -
  have run: "length (run_grams cfg toks) \<le> 2 * length toks" for toks
    using length_windows [of 2 toks] length_windows [of 3 toks] by (simp add: run_grams_def)
  have "length (concat (map (run_grams cfg) tss)) \<le> 2 * sum_list (map length tss)" for tss
    by (induction tss) (use run in \<open>auto simp: add_mono\<close>)
  moreover have "sum_list (map length (map (\<lambda>r. concat (map entry_to_tokens r)) rs)) \<le> text_size (concat rs)" for rs
    unfolding text_size_concat by (induction rs) (use length_run_tokens in \<open>auto simp: comp_def intro!: add_mono\<close>)
  moreover have "sum_list (map length (map entry_to_tokens xs)) \<le> text_size xs" for xs
    by (induction xs) (use length_tokens in \<open>auto simp: text_size_def intro!: add_mono\<close>)
  moreover have "text_size (srt es) = text_size es"
    using std_sort.sort_perm [OF assms] by (rule text_size_mset)
  ultimately show ?thesis
    unfolding all_grams_def token_runs_def
    by (smt (verit) concat_runs mult_le_mono2 order_trans)
qed

section \<open>Discovered pairs\<close>

lemma pair_candidate:
  assumes "utf8_char a" and "utf8_char b" and "\<exists>c \<in> set (a @ b). c \<ge> 0x80"
    and "\<forall>c \<in> set (a @ b). \<not> is_space c"
  shows "LooksLikeRealCandidate (a @ b)"
proof -
  have "length (CharOffsets (a @ b)) = 2"
    using pieces_CharOffsets [of "[a, b]"] assms(1,2) length_pieces [of "a @ b" "CharOffsets (a @ b)"] by simp
  moreover have "\<not> list_all (\<lambda>c. c < 0x80) (a @ b)"
    using assms(3) by (auto simp: list_all_iff not_less simp del: set_append)
  moreover have "a @ b \<noteq> []" using assms(3) by auto
  moreover have "\<not> list_ex is_space (a @ b)"
    using assms(4) unfolding list_ex_iff by blast
  ultimately show ?thesis by (simp add: LooksLikeRealCandidate_def Let_def del: list_ex_append list_all_append)
qed

lemma typed_pair_discovered:
  assumes "std_sort srt ts_less" and "std_sort srt_out word_less"
    and "utf8_char a" and "utf8_char b" and "\<exists>c \<in> set (a @ b). c \<ge> 0x80"
    and "\<forall>c \<in> set (a @ b). \<not> is_space c"
    and "dc_include_bigrams cfg" and "dc_chain_max_gap_us cfg \<noteq> 0" and "text_size es < 2 ^ 31"
    and "0 < typed_pairs (dc_chain_max_gap_us cfg) a b (map commit_time (srt es))"
    and "unat (dc_min_frequency cfg) \<le> typed_pairs (dc_chain_max_gap_us cfg) a b (map commit_time (srt es))"
  shows "\<exists>w \<in> set (Discover srt srt_out es cfg). dw_text w = a @ b
    \<and> typed_pairs (dc_chain_max_gap_us cfg) a b (map commit_time (srt es)) \<le> unat (dw_frequency w)"
proof -
  let ?gap = "dc_chain_max_gap_us cfg" and ?ws = "all_grams cfg srt es"
  let ?occ = "occurrences (a @ b) ?ws"
  have grams: "length (occurrences s (concat (map (\<lambda>r. windows 2 (concat (map entry_to_tokens r))) rs)))
      \<le> length (occurrences s (concat (map (run_grams cfg) (map (\<lambda>r. concat (map entry_to_tokens r)) rs))))" for s rs
    using assms(7) by (induction rs) (auto simp: run_grams_def)
  have "typed_pairs ?gap a b (map commit_time (srt es)) \<le> length ?occ"
    using typed_pairs_occurrences [OF assms(3,4), of ?gap "srt es"] grams [of "a @ b" "runs ?gap (srt es)"] assms(8)
    by (simp add: all_grams_def token_runs_def)
  note typed = this
  have "length ?occ \<le> length ?ws" by (simp add: occurrences_def)
  then have "length ?occ < 2 ^ 32"
    using length_all_grams [OF assms(1), of cfg es] assms(9) by simp
  then have occ: "unat (of_nat (length ?occ) :: u32) = length ?occ"
    by (simp add: unat_of_nat take_bit_nat_eq_self)
  have "dc_min_frequency cfg \<le> of_nat (length ?occ)"
    using typed assms(11) by (simp add: word_le_nat_alt occ)
  then have "frequent cfg (a @ b) ?ws"
    using typed assms(10) by (auto simp: frequent_def)
  then have "word_of_text (a @ b) ?ws \<in> set (Discover srt srt_out es cfg)"
    unfolding set_Discover [OF assms(2)] using pair_candidate [OF assms(3-6)] by blast
  moreover have "dw_text (word_of_text (a @ b) ?ws) = a @ b"
    "dw_frequency (word_of_text (a @ b) ?ws) = of_nat (length ?occ)"
    by (simp_all add: word_of_text_def word_of_counter_def count_gram_fields Counter_init_def)
  ultimately show ?thesis using typed occ by (intro bexI) simp_all
qed

section \<open>From the history to the dictionary\<close>

lemma encode_pair:
  assumes "utf8_char a" and "utf8_char b" and "FullCode m a \<noteq> []" and "FullCode m b \<noteq> []"
  shows "EncodePhrase m (a @ b) = take 2 (FullCode m a) @ take 2 (FullCode m b)"
  using SplitUtf8Chars_concat [of "[a, b]"] assms by (simp add: EncodePhrase_def look_up_codes_eq Let_def)

text \<open>A round over a history in which a pair was typed often enough writes the pair, with its wubi
  code and at least that frequency, into RIME's dictionary.\<close>

theorem typed_pair_written:
  assumes "RunLearningRound env api sync cfg f ngram g = (r, st)" and "lc_rime_user_dir cfg \<noteq> []"
    and "std_sort (re_sort env) ts_less" and "std_sort (re_sort_words env) word_less"
    and "fe_open (re_rime_events env)" "fe_stop (re_rime_events env) = None" "fe_rename (re_rime_events env)"
    and "0x0A \<notin> set (re_time env 1)" and "0x0A \<notin> set (re_time env 2)"
    and "lc_wubi_dict_path cfg \<noteq> []" and "LoadFromDict (lc_wubi_dict_path cfg) f = (True, codec)"
    and "FullCode codec a \<noteq> []" and "FullCode codec b \<noteq> []"
    and "utf8_char a" and "utf8_char b" and "\<exists>c \<in> set (a @ b). c \<ge> 0x80"
    and "\<forall>c \<in> set (a @ b). \<not> is_space c"
    and "lc_include_bigrams cfg"
    and "\<forall>e \<in> set (re_recent env (lc_scan_max_entries cfg)). field_ok (he_code e)"
    and "text_size (re_recent env (lc_scan_max_entries cfg)) < 2 ^ 31"
    and "typed_pairs 2000000 a b
      (map commit_time (re_sort env (re_recent env (lc_scan_max_entries cfg)))) = k"
    and "0 < k" and "unat (lc_min_new_word_freq cfg) \<le> k"
  shows "\<exists>n rows. k \<le> n \<and> map_option rime_rows (rd_fs st (rime_dict_path cfg)) = Some rows
    \<and> [a @ b, take 2 (FullCode codec a) @ take 2 (FullCode codec b), dec n] \<in> set rows"
proof -
  let ?es = "re_recent env (lc_scan_max_entries cfg)" and ?dc = "discovery_config cfg"
  have dc: "dc_include_bigrams ?dc" "dc_chain_max_gap_us ?dc = 2000000" "dc_min_frequency ?dc = lc_min_new_word_freq cfg"
    using assms(18) by (simp_all add: discovery_config_def DiscoveryConfig_init_def)
  obtain w where w: "w \<in> set (Discover (re_sort env) (re_sort_words env) ?es ?dc)" "dw_text w = a @ b"
      "k \<le> unat (dw_frequency w)"
    using typed_pair_discovered [OF assms(3,4) assms(14-17) dc(1), of ?es] assms(20-23) by (auto simp: dc)
  let ?w = "encode_word codec w" and ?code = "take 2 (FullCode codec a) @ take 2 (FullCode codec b)"
  have code: "?code \<noteq> []" using assms(12) by simp
  have "dw_text ?w = a @ b" "dw_code ?w = ?code" "dw_frequency ?w = dw_frequency w"
    using encode_pair [OF assms(14,15,12,13)] code by (simp_all add: encode_word_def w(2) Let_def)
  moreover have "?w \<in> set (round_words env cfg f)"
    using w(1) assms(10,11) by (simp add: round_words_def encode_words_def)
  moreover have "take 1 (a @ b) \<noteq> [0x23]"
    using load_codes_hash [OF assms(11,12)] by (cases a) simp_all
  ultimately have "[a @ b, ?code, dec (unat (dw_frequency w))]
      \<in> set (map word_row (row_words (round_words env cfg f)))"
    unfolding set_map row_words_def set_filter word_row_def
    by (intro image_eqI [where x = ?w]) (simp_all add: code del: append_is_Nil_conv take_append)
  moreover have "rime_taken env cfg" using assms(2,5-7) by (simp add: rime_taken_def)
  ultimately show ?thesis
    using rime_after_round [OF assms(1,3,4,19,8,9)] w(3) by (metis (no_types, lifting))
qed

end
