(* ===== verification/End_To_End.thy ===== *)
theory End_To_End
  imports Daemon_Correct Phrase_Learning
begin

text \<open>
  The program from end to end: commit messages go through the daemon into the history, through
  the gates of the background learner and a learning round into RIME's dictionary.  The theorem
  composes the models of the server, the history store, the learner, the discovery, the wubi encoder
  and the dictionary writer.
\<close>

section \<open>The history after some commits\<close>

text \<open>The times and texts of the commits as the daemon records them.\<close>

definition timeline :: "(nat \<Rightarrow> u64) \<Rightarrow> CommitEvent list \<Rightarrow> (u64 \<times> bytes) list" where
  "timeline clock evs = zip (map clock [0..<length evs]) (map ev_committed_text evs)"

lemma timeline_size:
  "sum_list (map (length \<circ> snd) (timeline clock evs)) = (\<Sum>ev\<leftarrow>evs. length (ev_committed_text ev))"
proof -
  have "map snd (timeline clock evs) = map ev_committed_text evs" by (simp add: timeline_def)
  then show ?thesis by (metis (no_types, lifting) comp_apply list.map_comp map_eq_conv)
qed

lemma event_data_nth:
  "i < length evs \<Longrightarrow> event_data clock k evs ! i =
     (clock (k + i), bind_text (ev_code (evs ! i)), bind_text (ev_committed_text (evs ! i)),
      bind_text (ev_context_before (evs ! i)))"
  by (induction evs arbitrary: k i) (auto simp: nth_Cons split: nat.split)

lemma length_event_data [simp]: "length (event_data clock k evs) = length evs"
  by (induction evs arbitrary: k) simp_all

lemma field_ok_bind: "field_ok s \<Longrightarrow> field_ok (bind_text s)"
  by (auto simp: field_ok_def bind_text_def Let_def dest: in_set_takeD set_takeWhileD)

text \<open>Rows recorded from events: their times, texts and codes.\<close>

lemma recorded_rows:
  assumes "map row_data es = event_data clock 0 evs"
    and "\<forall>ev \<in> set evs. length (ev_committed_text ev) < 2 ^ 31 \<and> field_ok (ev_code ev)"
  shows "map commit_time es = timeline clock evs" and "\<forall>e \<in> set es. field_ok (he_code e)"
    and "map he_ts_us es = map clock [0..<length evs]"
proof -
  have len: "length es = length evs" using assms(1) by (metis length_event_data length_map)
  have "row_data (es ! i) = (clock i, bind_text (ev_code (evs ! i)), ev_committed_text (evs ! i),
      bind_text (ev_context_before (evs ! i)))" if "i < length es" for i
    using that event_data_nth [of i evs clock 0] assms len
    by (metis add_0 bind_text_id nth_map nth_mem)
  then have nth: "he_ts_us (es ! i) = clock i" "he_committed_text (es ! i) = ev_committed_text (evs ! i)"
    "he_code (es ! i) = bind_text (ev_code (evs ! i))" if "i < length es" for i
    using that by (simp_all add: row_data_def)
  show "map commit_time es = timeline clock evs" "map he_ts_us es = map clock [0..<length evs]"
    by (auto intro!: nth_equalityI simp: len timeline_def commit_time_def nth)
  show "\<forall>e \<in> set es. field_ok (he_code e)"
  proof
    fix e assume "e \<in> set es"
    then obtain i where "i < length es" "e = es ! i" by (metis in_set_conv_nth)
    then show "field_ok (he_code e)" using nth(3) assms(2) len field_ok_bind nth_mem by metis
  qed
qed

text \<open>With increasing times the learner's chronological order is the order of the rows.\<close>

lemma recent_in_order:
  assumes "sqlite sq rows" and "sq_prepare sq d" and "length (rows d) \<le> 5000"
    and "sorted_wrt (<) (map he_ts_us (rows d))" and "std_sort srt ts_less"
  shows "mset (RecentEntries sq d 5000) = mset (rows d)" and "srt (RecentEntries sq d 5000) = rows d"
proof -
  obtain es where es: "mset es = mset (rows d)" "RecentEntries sq d 5000 = sql_limit 5000 es"
    using sqlite.RecentEntries_rows [OF assms(1,2), of 5000] by blast
  have "length es \<le> 5000" using es(1) assms(3) by (metis size_mset)
  then have "sql_limit 5000 es = es" by (simp add: sql_limit_def)
  then show mset: "mset (RecentEntries sq d 5000) = mset (rows d)" using es by simp
  have sorted: "sorted_wrt ts_less (rows d)" using assms(4) by (simp add: sorted_wrt_map ts_less_def [abs_def])
  have "distinct (map he_ts_us (rows d))" using assms(4) by (simp add: strict_sorted_iff)
  then have inj: "a = b" if "a \<in> set (rows d)" "b \<in> set (rows d)" "he_ts_us a = he_ts_us b" for a b
    using that by (auto simp: distinct_map dest: inj_onD)
  have "distinct (rows d)" using \<open>distinct (map he_ts_us (rows d))\<close> by (simp add: distinct_map)
  then have "distinct (RecentEntries sq d 5000)" using mset mset_eq_imp_distinct_iff by blast
  show "srt (RecentEntries sq d 5000) = rows d"
  proof (rule std_sort.sort_unique [OF assms(5)])
    show "mset (rows d) = mset (RecentEntries sq d 5000)" using mset by simp
    show "ts_less a b \<Longrightarrow> \<not> ts_less b a" for a b by (rule ts.lt_asym)
    show "ts_less a b \<or> ts_less b a"
      if "a \<in> set (RecentEntries sq d 5000)" "b \<in> set (RecentEntries sq d 5000)" "a \<noteq> b" for a b
      using that inj mset_eq_set [OF mset] by (fastforce simp: ts_less_def)
  qed fact+
qed

section \<open>A tick of the learner\<close>

text \<open>The round sees the database \<open>d\<close>, and its sorting algorithms sort.\<close>

definition sees_history :: "'d sqlite_api \<Rightarrow> 'd \<Rightarrow> round_env \<Rightarrow> bool" where
  "sees_history sq d env \<longleftrightarrow> sq_prepare sq d \<and> sq_count sq d \<noteq> None
     \<and> re_recent env = RecentEntries sq d \<and> re_count env = Count sq d
     \<and> std_sort (re_sort env) ts_less \<and> std_sort (re_sort_words env) word_less"

text \<open>RIME's directory can be written; time stamps are single lines.\<close>

definition rime_writable :: "round_env \<Rightarrow> bool" where
  "rime_writable env \<longleftrightarrow> fe_open (re_rime_events env) \<and> fe_stop (re_rime_events env) = None
     \<and> fe_rename (re_rime_events env) \<and> 0x0A \<notin> set (re_time env 1) \<and> 0x0A \<notin> set (re_time env 2)"

text \<open>The interval since \<open>started\<close> has passed and all the times \<open>ts\<close> are old enough.\<close>

definition due :: "AutoLearnConfig \<Rightarrow> int \<Rightarrow> u64 list \<Rightarrow> tick_env \<Rightarrow> bool" where
  "due cfg started ts te \<longleftrightarrow> te_throws te = None
     \<and> usec (ac_min_round_interval cfg) \<le> te_now te - started
     \<and> list_all (\<lambda>t. usec (ac_idle_threshold cfg) \<le> te_wall te - sint t) ts"

text \<open>A word of two characters that is not noise, both with a wubi code.\<close>

definition learnable :: "WubiCodec \<Rightarrow> bytes \<Rightarrow> bytes \<Rightarrow> bool" where
  "learnable codec a b \<longleftrightarrow> utf8_char a \<and> utf8_char b \<and> FullCode codec a \<noteq> [] \<and> FullCode codec b \<noteq> []
     \<and> list_ex (\<lambda>c. c \<ge> 0x80) (a @ b) \<and> list_all (\<lambda>c. \<not> is_space c) (a @ b)"

lemma tick_runs:
  assumes "ShouldRunLocked cfg te al" and "te_throws te = None"
  shows "al_fs (snd (Loop mk api cfg [(False, te)] al)) =
    rd_fs (snd (RunLearningRound (te_round te) api (mk (round_git_config cfg)) (round_config cfg) (al_fs al) [] (al_git al)))"
proof -
  obtain result rd where "RunLearningRound (te_round te) api (mk (round_git_config cfg)) (round_config cfg)
      (al_fs al) [] (al_git al) = (result, rd)" by fastforce
  then show ?thesis by (simp add: assms RunOneRoundLocked_def Let_def)
qed

context sqlite
begin

lemma recent_stored:
  "sq_prepare sq d \<Longrightarrow> sq_count sq d \<noteq> None \<Longrightarrow> set (RecentEntries sq d lim) \<subseteq> set (rows d)"
  by (rule store.recent_subset) simp

end

lemma due_runs:
  assumes "sqlite sq rows" and "sees_history sq d (te_round te)" and "rows d \<noteq> []"
    and "length (rows d) \<le> 5000"
    and "due cfg (al_last_at al) (map he_ts_us (rows d)) te"
    and "al_history al" and "al_last_count al = 0"
  shows "ShouldRunLocked cfg te al"
proof -
  have sees: "sq_prepare sq d" "sq_count sq d \<noteq> None" "re_recent (te_round te) = RecentEntries sq d"
    "re_count (te_round te) = Count sq d"
    using assms(2) by (simp_all add: sees_history_def)
  have "Count sq d = of_nat (length (rows d))"
    using sqlite.count_rows [OF assms(1)] sees(1,2) by (auto simp: Count_def)
  moreover have "(of_nat (length (rows d)) :: u64) \<noteq> 0"
    using assms(3,4) by (simp add: word_of_nat_eq_0_iff nat_dvd_not_less)
  moreover have "\<not> busy cfg te"
  proof -
    have "usec (ac_idle_threshold cfg) \<le> te_wall te - latest"
      if last: "LatestCommitTimestamp (te_round te) = Some latest" for latest
    proof -
      obtain e where "e \<in> set (RecentEntries sq d 1)" "latest = sint (he_ts_us e)"
        using last by (cases "RecentEntries sq d 1") (auto simp: LatestCommitTimestamp_def sees(3))
      then show ?thesis
        using sqlite.recent_stored [OF assms(1) sees(1,2), of 1] assms(5) by (auto simp: due_def list_all_iff)
    qed
    then show ?thesis by (auto simp: busy_def not_less split: option.splits)
  qed
  ultimately show ?thesis
    using assms(5-7) by (simp add: ShouldRunLocked_def sees(4) too_soon_def due_def not_less)
qed

section \<open>From the keyboard to the dictionary\<close>

lemma daemon_learner:
  assumes "daemon_start de args = Inr dm" and "dm_learner dm = Some (cfg, al)"
  shows "al_history al" "al_last_count al = Count (de_sq de) (de_db de)" "al_last_at al = de_learn_start de"
    and "al_fs al = de_fs de" "ac_rime_user_dir cfg \<noteq> []" "ac_wubi_dict_path cfg \<noteq> []" "ac_min_new_word_freq cfg = 2"
proof -
  obtain opt where l: "cfg = learn_config_of (de_env de) (GetDataDir (de_env de) (de_cwd de)) opt"
    "al = Start (de_learn_start de) (Count (de_sq de) (de_db de)) (AutoLearn_ctor True (de_start de) (de_fs de) (de_git de))"
    using assms by (elim daemon_start_cases) (auto split: if_splits)
  show "al_history al" "al_last_count al = Count (de_sq de) (de_db de)" "al_last_at al = de_learn_start de" "al_fs al = de_fs de"
    by (simp_all add: l(2) Start_def AutoLearn_ctor_def)
  have "default_rime_dir (de_env de) \<noteq> []"
    unfolding default_rime_dir_def by (rule join_nonempty) simp
  then show "ac_rime_user_dir cfg \<noteq> []" "ac_min_new_word_freq cfg = 2"
    by (simp_all add: l(1) learn_config_of_def AutoLearnConfig_init_def rime_dir_of_def del: lit_simps)
  have "wubi_dict_of (de_env de) opt \<noteq> []"
    unfolding wubi_dict_of_def using join_nonempty [of "lit ''wubi86.dict.yaml''"] by simp
  then show "ac_wubi_dict_path cfg \<noteq> []" by (simp add: l(1) learn_config_of_def)
qed

text \<open>The rows of a fresh history after the daemon has handled some messages.\<close>

lemma daemon_history:
  assumes "daemon_start de args = Inr dm" and "sqlite (de_sq de) rows"
    and "fst (sv_log (dm_server dm)) = Some d" and "rows d = []"
    and "serve (dm_server_env dm) (dm_server dm) ms = (st, replies)" and "fst (sv_log st) = Some d'"
    and "all_taken (de_sq de) (de_clock de) 0 (commits ms) d"
    and "(\<Sum>ev\<leftarrow>commits ms. length (ev_committed_text ev)) < 2 ^ 31"
    and "list_all (\<lambda>ev. field_ok (ev_code ev)) (commits ms)"
  shows "de_db de = d" and "length (rows d') = length (commits ms)"
    and "map commit_time (rows d') = timeline (de_clock de) (commits ms)"
    and "\<forall>e \<in> set (rows d'). field_ok (he_code e)"
    and "map he_ts_us (rows d') = map (de_clock de) [0..<length (commits ms)]"
    and "text_size (rows d') < 2 ^ 31"
proof -
  let ?evs = "commits ms"
  have sv: "dm_server dm = Server_init (Some (de_db de), 0)"
    and log: "se_record (dm_server_env dm) = commit_record (de_sq de) (de_clock de)"
    using assms(3) daemon_server [OF assms(1)] by simp_all
  then show d: "de_db de = d" using assms(3) by (simp add: Server_init_def)
  have "sv_log st = fold (commit_record (de_sq de) (de_clock de)) ?evs (Some d, 0)"
    using serve_log [of "dm_server_env dm" "dm_server dm" ms] assms(5) by (simp add: log sv d Server_init_def)
  then have rows: "map row_data (rows d') = event_data (de_clock de) 0 ?evs"
    using commits_recorded [OF assms(2), of "de_clock de" ?evs d 0] assms(4,6,7) by auto
  have texts: "\<forall>ev \<in> set ?evs. length (ev_committed_text ev) < 2 ^ 31 \<and> field_ok (ev_code ev)"
    using assms(8,9) member_le_sum_list [of _ "map (\<lambda>ev. length (ev_committed_text ev)) ?evs"]
    by (fastforce simp: list_all_iff)
  note recorded = recorded_rows [OF rows texts]
  show "length (rows d') = length ?evs" using rows by (metis length_event_data length_map)
  show "map commit_time (rows d') = timeline (de_clock de) ?evs" "\<forall>e \<in> set (rows d'). field_ok (he_code e)"
    "map he_ts_us (rows d') = map (de_clock de) [0..<length ?evs]"
    by (rule recorded)+
  have "text_size (rows d') = sum_list (map (length \<circ> snd) (map commit_time (rows d')))"
    by (simp add: text_size_def commit_time_def comp_def)
  also have "\<dots> = (\<Sum>ev\<leftarrow>?evs. length (ev_committed_text ev))"
    unfolding recorded(1) by (rule timeline_size)
  finally show "text_size (rows d') < 2 ^ 31" using assms(8) by simp
qed

text \<open>C2: From the keyboard to the dictionary: if two characters were committed to a fresh daemon one
  after the other at least twice (within two seconds each time), then the first due tick of its learner
  leaves a row in RIME's dictionary with the two characters, the wubi code made of the first two keys of
  each and a frequency of at least that number, provided SQLite took the commits, both characters have a
  code in the wubi dictionary, and RIME's directory can be written.\<close>

theorem typed_phrase_reaches_rime:
  assumes "daemon_start de args = Inr dm" and "dm_learner dm = Some (cfg, al)"
    and "sqlite (de_sq de) rows" and "fst (sv_log (dm_server dm)) = Some d" and "rows d = []"
    and "serve (dm_server_env dm) (dm_server dm) ms = (st, replies)" and "fst (sv_log st) = Some d'"
    and "all_taken (de_sq de) (de_clock de) 0 (commits ms) d"
    and "length (commits ms) \<le> 5000" and "sorted_wrt (<) (map (de_clock de) [0..<length (commits ms)])"
    and "(\<Sum>ev\<leftarrow>commits ms. length (ev_committed_text ev)) < 2 ^ 31"
    and "list_all (\<lambda>ev. field_ok (ev_code ev)) (commits ms)"
    and "sees_history (de_sq de) d' (te_round te)" and "rime_writable (te_round te)"
    and "due cfg (de_learn_start de) (map (de_clock de) [0..<length (commits ms)]) te"
    and "LoadFromDict (ac_wubi_dict_path cfg) (de_fs de) = (True, codec)" and "learnable codec a b"
    and "2 \<le> typed_pairs 2000000 a b (timeline (de_clock de) (commits ms))"
  shows "\<exists>n rs. typed_pairs 2000000 a b (timeline (de_clock de) (commits ms)) \<le> n
    \<and> map_option rime_rows (al_fs (snd (Loop mk api cfg [(False, te)] al)) (rime_dict_path (round_config cfg)))
        = Some rs
    \<and> [a @ b, take 2 (FullCode codec a) @ take 2 (FullCode codec b), dec n] \<in> set rs"
proof -
  let ?evs = "commits ms" and ?env = "te_round te" and ?rc = "round_config cfg"
  let ?k = "typed_pairs 2000000 a b (timeline (de_clock de) ?evs)"
  note learner = daemon_learner [OF assms(1,2)]
  note history = daemon_history [OF assms(1,3-8,11,12)]
  have sees: "sq_prepare (de_sq de) d'" "re_recent ?env = RecentEntries (de_sq de) d'"
    "std_sort (re_sort ?env) ts_less" "std_sort (re_sort_words ?env) word_less"
    using assms(13) by (simp_all add: sees_history_def)
  have order: "mset (RecentEntries (de_sq de) d' 5000) = mset (rows d')"
      "re_sort ?env (RecentEntries (de_sq de) d' 5000) = rows d'"
    using recent_in_order [OF assms(3) sees(1) _ _ sees(3)] assms(9,10) by (simp_all add: history(2,5))
  have rc: "lc_scan_max_entries ?rc = 5000" "lc_include_bigrams ?rc" "lc_min_new_word_freq ?rc = 2"
    "lc_rime_user_dir ?rc \<noteq> []" "lc_wubi_dict_path ?rc = ac_wubi_dict_path cfg"
    using learner by (simp_all add: round_config_def LearningRoundConfig_init_def)
  have evs: "?evs \<noteq> []" using assms(18) by (auto simp: timeline_def)
  have size: "text_size (RecentEntries (de_sq de) d' 5000) < 2 ^ 31"
    using text_size_mset [OF order(1)] history(6) by simp
  have fresh: "al_last_count al = 0"
    using sqlite.count_rows [OF assms(3), of d] assms(5) by (auto simp: learner(2) Count_def history(1) split: option.split)
  have "rows d' \<noteq> []" using evs history(2) by (metis length_0_conv)
  then have "ShouldRunLocked cfg te al"
    using due_runs [OF assms(3,13), of cfg al] learner(1,3) fresh assms(9,15) history(2) by (simp add: history(5))
  then have final: "al_fs (snd (Loop mk api cfg [(False, te)] al)) =
      rd_fs (snd (RunLearningRound ?env api (mk (round_git_config cfg)) ?rc (de_fs de) [] (al_git al)))"
    using tick_runs [of cfg te al mk api] assms(15) by (simp add: due_def learner(4))
  note parts = assms(14) [unfolded rime_writable_def] assms(17) [unfolded learnable_def list_ex_iff list_all_iff]
  show ?thesis
    unfolding final
  proof (rule typed_pair_written [OF prod.collapse [symmetric] rc(4) sees(3,4)])
    show "typed_pairs 2000000 a b (map commit_time (re_sort ?env (re_recent ?env (lc_scan_max_entries ?rc)))) = ?k"
      by (simp add: rc(1) sees(2) order(2) history(3))
    show "text_size (re_recent ?env (lc_scan_max_entries ?rc)) < 2 ^ 31" by (simp only: rc(1) sees(2) size)
    show "\<forall>e \<in> set (re_recent ?env (lc_scan_max_entries ?rc)). field_ok (he_code e)"
      using history(4) mset_eq_setD [OF order(1)] by (simp add: rc(1) sees(2))
    show "lc_wubi_dict_path ?rc \<noteq> []" using learner(6) by (simp add: rc(5))
    show "LoadFromDict (lc_wubi_dict_path ?rc) (de_fs de) = (True, codec)" using assms(16) by (simp add: rc(5))
  qed (use parts rc assms(18) in simp_all)
qed

section \<open>A concrete run\<close>

text \<open>The two characters of \<open>demo_text\<close>, typed twice; the wubi dictionary has a code for each.\<close>

definition typing_dict :: bytes where
  "typing_dict = [0xC3, 0xA4, 9, 120, 10, 0xC3, 0xB6, 9, 121, 10]"

definition typing_env :: "(mem_db, mem_git) daemon_env" where
  "typing_env = demo_daemon_env\<lparr>de_fs := \<lambda>p. Some typing_dict\<rparr>"

definition type_char :: "byte \<Rightarrow> byte \<Rightarrow> CommitEvent" where
  "type_char k c = \<lparr>ev_code = [k], ev_committed_text = [0xC3, c], ev_context_before = []\<rparr>"

definition typing :: "CommitEvent list" where
  "typing = [type_char 97 0xA4, type_char 98 0xB6, type_char 97 0xA4, type_char 98 0xB6]"

definition typing_daemon :: "(mem_db, mem_git) daemon" where
  "typing_daemon = (case daemon_start typing_env [] of Inr dm \<Rightarrow> dm)"

definition typed_db :: mem_db where
  "typed_db = \<lparr>mem_rows = [event_entry 1 7 (typing ! 0), event_entry 2 8 (typing ! 1),
     event_entry 3 9 (typing ! 2), event_entry 4 10 (typing ! 3)], mem_changes = 0\<rparr>"

definition typing_tick :: tick_env where
  "typing_tick = \<lparr>te_now = 300000005, te_end = 300000006, te_wall = 30000010,
     te_round = demo_round_env\<lparr>re_recent := RecentEntries mem_sqlite typed_db, re_count := 4\<rparr>,
     te_count_after = 4, te_throws = None, te_deploys = True\<rparr>"

lemma typing_start: "daemon_start typing_env [] = Inr typing_daemon"
  by (simp add: typing_daemon_def typing_env_def demo_daemon_env_def daemon_start_def daemon_defaults_def
      GetDaemonAddress_def GetDataDir_def env_value_def ListenEndpoint_def UnixServer_ctor_def join_def
      MakeSqliteHistoryStore_def PathIsUnder_def separator_def Let_def)

lemma typing_daemon_parts:
  "fst (sv_log (dm_server typing_daemon)) = Some \<lparr>mem_rows = [], mem_changes = 0\<rparr>"
  "\<exists>cfg al. dm_learner typing_daemon = Some (cfg, al) \<and> ac_min_round_interval cfg = 300 \<and> ac_idle_threshold cfg = 30"
  "dm_server typing_daemon = Server_init (Some \<lparr>mem_rows = [], mem_changes = 0\<rparr>, 0)"
  "se_record (dm_server_env typing_daemon) = commit_record mem_sqlite (\<lambda>k. 7 + of_nat k)"
  by (simp_all add: typing_daemon_def typing_env_def demo_daemon_env_def daemon_start_def daemon_defaults_def
      GetDaemonAddress_def GetDataDir_def env_value_def ListenEndpoint_def UnixServer_ctor_def join_def
      MakeSqliteHistoryStore_def PathIsUnder_def separator_def Server_init_def learn_config_of_def
      AutoLearnConfig_init_def Let_def)

lemma typing_inserts: "all_taken mem_sqlite (\<lambda>k. 7 + of_nat k) 0 typing \<lparr>mem_rows = [], mem_changes = 0\<rparr>"
  by (simp add: typing_def Insert_def mem_sqlite_def mem_insert_def max_id_def)

lemma typing_recorded:
  "fold (commit_record mem_sqlite (\<lambda>k. 7 + of_nat k)) typing (Some \<lparr>mem_rows = [], mem_changes = 0\<rparr>, 0)
     = (Some typed_db, 4)"
  by (simp add: typing_def type_char_def typed_db_def event_entry_def commit_record_def
      SqliteCommitLogger_Record_def Insert_def mem_sqlite_def mem_insert_def max_id_def bind_text_id)

definition typing_codec :: WubiCodec where
  "typing_codec = snd (LoadFromDict [] (\<lambda>p. Some typing_dict))"

lemma typing_codec: "LoadFromDict p (\<lambda>p. Some typing_dict) = (True, typing_codec)"
  by (simp add: typing_codec_def LoadFromDict_def)

lemma typing_codes: "FullCode typing_codec [0xC3, 0xA4] = [120]" "FullCode typing_codec [0xC3, 0xB6] = [121]"
proof -
  have "SplitUtf8Chars [0xC3, 0xA4] = [[0xC3, 0xA4]]" "SplitUtf8Chars [0xC3, 0xB6] = [[0xC3, 0xB6]]"
    using SplitUtf8Chars_concat [of "[[0xC3, 0xA4]]"] SplitUtf8Chars_concat [of "[[0xC3, 0xB6]]"] demo_char
    by simp_all
  then have "parse_entry [0xC3, 0xA4, 9, 120] = Some ([0xC3, 0xA4], [120])"
    "parse_entry [0xC3, 0xB6, 9, 121] = Some ([0xC3, 0xB6], [121])"
    by (simp_all add: parse_entry_def find_tab_from_def)
  moreover have "getlines typing_dict = [[0xC3, 0xA4, 9, 120], [0xC3, 0xB6, 9, 121]]"
    by (simp add: typing_dict_def getlines_eval)
  ultimately have "dict_entries typing_dict = [([0xC3, 0xA4], [120]), ([0xC3, 0xB6], [121])]"
    by (simp add: dict_entries_def map_filter_simps)
  then have "typing_codec = fold keep_longest [([0xC3, 0xA4], [120]), ([0xC3, 0xB6], [121])] []"
    by (simp only: typing_codec_def LoadFromDict_def option.case snd_conv load_lines_entries flip: dict_entries_def)
  then have codec: "typing_codec = keep_longest ([0xC3, 0xB6], [121]) (keep_longest ([0xC3, 0xA4], [120]) [])"
    by simp
  show "FullCode typing_codec [0xC3, 0xA4] = [120]" "FullCode typing_codec [0xC3, 0xB6] = [121]"
    unfolding codec FullCode_keep_longest by (simp_all add: FullCode_def)
qed

lemma typing_learnable: "learnable typing_codec [0xC3, 0xA4] [0xC3, 0xB6]"
  by (simp add: learnable_def demo_char typing_codes is_space_def)

lemma typing_times: "map (\<lambda>k. 7 + of_nat k :: u64) [0..<4] = [7, 8, 9, 10]"
  by (simp add: upt_conv_Cons)

lemma typing_pairs: "typed_pairs 2000000 [0xC3, 0xA4] [0xC3, 0xB6] (timeline (\<lambda>k. 7 + of_nat k) typing) = 2"
  using typing_times by (simp add: timeline_def typing_def type_char_def)

lemma typing_sees: "sees_history mem_sqlite typed_db (te_round typing_tick)"
  by (simp add: sees_history_def typing_tick_def demo_round_env_def mem_sqlite_def Count_def typed_db_def
      ts.stable.std_sort_axioms words.stable.std_sort_axioms)

text \<open>The first tick that is due writes the word with the code "xy" and a count of at least two.\<close>

theorem typed_phrase_reaches_rime_witness:
  "\<exists>cfg al n rs. dm_learner typing_daemon = Some (cfg, al) \<and> 2 \<le> n
     \<and> map_option rime_rows (al_fs (snd (Loop MakeGitSync_stub mem_git_api cfg [(False, typing_tick)] al))
          (rime_dict_path (round_config cfg))) = Some rs
     \<and> [[0xC3, 0xA4, 0xC3, 0xB6], [120, 121], dec n] \<in> set rs"
proof -
  obtain cfg al where learner: "dm_learner typing_daemon = Some (cfg, al)"
    and times: "ac_min_round_interval cfg = 300" "ac_idle_threshold cfg = 30"
    using typing_daemon_parts(2) by blast
  let ?ms = "map M_CommitEvent typing"
  have ms: "commits ?ms = typing" "length typing = 4" by (simp_all add: commits_def typing_def)
  have env: "de_clock typing_env = (\<lambda>k. 7 + of_nat k)" "de_sq typing_env = mem_sqlite"
      "de_fs typing_env = (\<lambda>p. Some typing_dict)" "de_learn_start typing_env = 5"
    by (simp_all add: typing_env_def demo_daemon_env_def)
  obtain st replies where served: "serve (dm_server_env typing_daemon) (dm_server typing_daemon) ?ms = (st, replies)"
    by fastforce
  have "sv_log (dm_server typing_daemon) = (Some \<lparr>mem_rows = [], mem_changes = 0\<rparr>, 0)"
    by (simp add: typing_daemon_parts(3) Server_init_def)
  then have "sv_log st = (Some typed_db, 4)"
    using serve_log(1) [of "dm_server_env typing_daemon" "dm_server typing_daemon" ?ms]
    by (simp only: served ms(1) typing_daemon_parts(4) typing_recorded fst_conv)
  then have db: "fst (sv_log st) = Some typed_db" by simp
  have "due cfg 5 [7, 8, 9, 10] typing_tick"
    by (simp add: due_def times typing_tick_def usec_def)
  moreover have "rime_writable (te_round typing_tick)"
    by (simp add: rime_writable_def typing_tick_def demo_round_env_def no_faults_def)
  moreover have "list_all (\<lambda>ev. field_ok (ev_code ev)) typing" "(\<Sum>ev\<leftarrow>typing. length (ev_committed_text ev)) < 2 ^ 31"
    by (simp_all add: typing_def type_char_def field_ok_def)
  ultimately have "\<exists>n rs. 2 \<le> n
     \<and> map_option rime_rows (al_fs (snd (Loop MakeGitSync_stub mem_git_api cfg [(False, typing_tick)] al))
          (rime_dict_path (round_config cfg))) = Some rs
     \<and> [[0xC3, 0xA4] @ [0xC3, 0xB6], take 2 [120] @ take 2 [121], dec n] \<in> set rs"
    using typed_phrase_reaches_rime [OF typing_start learner, of mem_rows, unfolded env, OF mem.sqlite_axioms
        typing_daemon_parts(1) _ served db, unfolded ms typing_pairs typing_times, OF _ typing_inserts _ _ _ _
        typing_sees _ _ typing_codec typing_learnable, unfolded typing_codes typing_pairs]
    by (simp del: Loop.simps)
  then show ?thesis using learner by auto
qed

end
