(* ===== verification/Endpoint_Win.thy ===== *)
theory Endpoint_Win
  imports Connection_Api
begin

text \<open>
  src/common/endpoint_win.cc: the connection over a named pipe with overlapped I/O, the listening
  probe, the accepting and the connecting side.  As on Unix the system is an input: one
  \<open>io_event\<close> per round of \<^verbatim>\<open>DoIo\<close>; the list ends when the deadline passes.  The
  connection provides the same interface \<open>connection\<close> as the Unix one, so everything proved of
  server and client over that interface holds here too.
\<close>

section \<open>One overlapped request\<close>

datatype wait_result = Wait_object | Wait_timeout | Wait_failed

text \<open>
  \<open>io_done\<close>: \<^verbatim>\<open>ReadFile\<close> or \<^verbatim>\<open>WriteFile\<close> completed at once; \<open>io_pending\<close>:
  the error was \<^verbatim>\<open>ERROR_IO_PENDING\<close>; \<open>io_result\<close>: \<^verbatim>\<open>GetOverlappedResult\<close>;
  \<open>io_bytes\<close>: what the request transferred in the end, also one that was cancelled.
\<close>

record io_event =
  io_rem :: int
  io_done :: bool
  io_pending :: bool
  io_wait :: wait_result
  io_result :: bool
  io_bytes :: nat

definition kMaxDword :: nat where
  "kMaxDword = 2 ^ 32 - 1"

definition RemainingMs_win :: "int \<Rightarrow> nat" where
  "RemainingMs_win rem = (if rem < 0 then 0 else if rem > int kMaxDword then kMaxDword else nat rem)"

datatype io_outcome = Moved | Failed | Timed_out | Left_pending

text \<open>What becomes of one request.\<close>

definition io_round :: "io_event \<Rightarrow> io_outcome" where
  "io_round e =
     (if io_done e then (if io_bytes e = 0 then Failed else Moved)
      else if \<not> io_pending e then Failed
      else case io_wait e of
        Wait_timeout \<Rightarrow> Timed_out
      | Wait_failed \<Rightarrow> Left_pending
      | Wait_object \<Rightarrow>
          if \<not> io_result e then Failed else if io_bytes e = 0 then Failed else Moved)"

section \<open>The connection\<close>

text \<open>\<open>wc_left_pending\<close>: a request was abandoned while the system still owns its
  \<^verbatim>\<open>OVERLAPPED\<close> and its buffer.\<close>

record WinPipeConnection =
  wc_pipe :: bool
  wc_event :: bool
  wc_os :: "io_event list"
  wc_kin :: bytes
  wc_kout :: bytes
  wc_left_pending :: bool

text \<open>The bytes of a request that timed out are gone: \<^verbatim>\<open>ignored\<close> is not added to the total.\<close>

fun win_read_loop ::
  "nat \<Rightarrow> bytes \<Rightarrow> io_event list \<Rightarrow> bytes \<Rightarrow> bytes option \<times> io_event list \<times> bytes \<times> bool" where
  "win_read_loop sz acc [] kin = (if length acc < sz then (None, [], kin, False) else (Some acc, [], kin, False))"
| "win_read_loop sz acc (e # es) kin =
     (if length acc \<ge> sz then (Some acc, e # es, kin, False)
      else if RemainingMs_win (io_rem e) = 0 then (None, es, kin, False)
      else let n = min (io_bytes e) (min (min (sz - length acc) kMaxDword) (length kin)) in
        case io_round e of
          Failed \<Rightarrow> (None, es, kin, False)
        | Timed_out \<Rightarrow> (None, es, drop n kin, False)
        | Left_pending \<Rightarrow> (None, es, kin, True)
        | Moved \<Rightarrow> if n = 0 then (None, es, kin, False)
                   else win_read_loop sz (acc @ take n kin) es (drop n kin))"

fun win_write_loop :: "bytes \<Rightarrow> io_event list \<Rightarrow> bytes \<Rightarrow> bool \<times> io_event list \<times> bytes \<times> bool" where
  "win_write_loop buf [] kout = (buf = [], [], kout, False)"
| "win_write_loop buf (e # es) kout =
     (if buf = [] then (True, e # es, kout, False)
      else if RemainingMs_win (io_rem e) = 0 then (False, es, kout, False)
      else let n = min (io_bytes e) (min (length buf) kMaxDword) in
        case io_round e of
          Failed \<Rightarrow> (False, es, kout, False)
        | Timed_out \<Rightarrow> (False, es, kout @ take n buf, False)
        | Left_pending \<Rightarrow> (False, es, kout, True)
        | Moved \<Rightarrow> win_write_loop (drop n buf) es (kout @ take n buf))"

definition Win_IsConnected :: "WinPipeConnection \<Rightarrow> bool" where
  "Win_IsConnected c = wc_pipe c"

definition Win_ReadFull :: "WinPipeConnection \<Rightarrow> nat \<Rightarrow> WinPipeConnection \<times> bytes option" where
  "Win_ReadFull c sz =
     (if \<not> Win_IsConnected c then (c, None)
      else if \<not> wc_event c then (c, None)
      else case win_read_loop sz [] (wc_os c) (wc_kin c) of
        (r, es, kin, p) \<Rightarrow> (c\<lparr>wc_os := es, wc_kin := kin, wc_left_pending := wc_left_pending c \<or> p\<rparr>, r))"

definition Win_WriteAll :: "WinPipeConnection \<Rightarrow> bytes \<Rightarrow> WinPipeConnection \<times> bool" where
  "Win_WriteAll c buf =
     (if \<not> Win_IsConnected c then (c, False)
      else if \<not> wc_event c then (c, False)
      else case win_write_loop buf (wc_os c) (wc_kout c) of
        (r, es, kout, p) \<Rightarrow> (c\<lparr>wc_os := es, wc_kout := kout, wc_left_pending := wc_left_pending c \<or> p\<rparr>, r))"

definition Win_Close :: "WinPipeConnection \<Rightarrow> WinPipeConnection" where
  "Win_Close c = (if wc_pipe c then c\<lparr>wc_pipe := False\<rparr> else c)"

definition win_ops :: "WinPipeConnection conn_ops" where
  "win_ops = \<lparr>ReadFull = Win_ReadFull, WriteAll = Win_WriteAll, Close = Win_Close,
     IsConnected = Win_IsConnected\<rparr>"

section \<open>The loops move exactly the bytes they report\<close>

lemma win_read_loop_some:
  "win_read_loop sz acc es kin = (Some bs, es', kin', p) \<Longrightarrow> length acc \<le> sz \<Longrightarrow>
     length bs = sz \<and> acc @ kin = bs @ kin'"
proof (induction es arbitrary: acc kin)
  case Nil
  then show ?case by (simp split: if_splits)
next
  case (Cons e es)
  define n where "n = min (io_bytes e) (min (min (sz - length acc) kMaxDword) (length kin))"
  have len: "length (acc @ take n kin) \<le> sz" using Cons.prems(2) by (simp add: n_def)
  consider "length acc \<ge> sz" | "length acc < sz" "win_read_loop sz (acc @ take n kin) es (drop n kin) = (Some bs, es', kin', p)"
    using Cons.prems(1) unfolding win_read_loop.simps Let_def n_def [symmetric]
    by (simp split: if_splits io_outcome.splits)
  then show ?case
  proof cases
    case 1
    with Cons.prems show ?thesis by simp
  next
    case 2
    with Cons.IH [OF 2(2) len] show ?thesis by simp
  qed
qed

lemma win_read_loop_suffix: "win_read_loop sz acc es kin = (r, es', kin', p) \<Longrightarrow> suffix kin' kin"
proof (induction es arbitrary: acc kin)
  case Nil
  then show ?case by (simp split: if_splits)
next
  case (Cons e es)
  define n where "n = min (io_bytes e) (min (min (sz - length acc) kMaxDword) (length kin))"
  have "kin' = kin \<or> kin' = drop n kin \<or> win_read_loop sz (acc @ take n kin) es (drop n kin) = (r, es', kin', p)"
    using Cons.prems unfolding win_read_loop.simps Let_def n_def [symmetric]
    by (simp split: if_splits io_outcome.splits)
  then show ?case
    using Cons.IH suffix_drop [of n kin] suffix_order.trans by blast
qed

lemma win_write_loop_result:
  "win_write_loop buf es kout = (ok, es', kout', p) \<Longrightarrow>
     \<exists>pre. prefix pre buf \<and> kout' = kout @ pre \<and> (ok \<longrightarrow> pre = buf)"
proof (induction es arbitrary: buf kout)
  case Nil
  then show ?case by auto
next
  case (Cons e es)
  define n where "n = min (io_bytes e) (min (length buf) kMaxDword)"
  consider "kout' = kout" "ok \<longrightarrow> buf = []" | "kout' = kout @ take n buf" "\<not> ok"
    | "win_write_loop (drop n buf) es (kout @ take n buf) = (ok, es', kout', p)"
    using Cons.prems unfolding win_write_loop.simps Let_def n_def [symmetric]
    by (simp split: if_splits io_outcome.splits)
  then show ?case
  proof cases
    case 1
    then show ?thesis by (intro exI [of _ "[]"]) simp
  next
    case 2
    then show ?thesis by (intro exI [of _ "take n buf"]) (simp add: take_is_prefix)
  next
    case 3
    from Cons.IH [OF this] obtain pre where pre: "prefix pre (drop n buf)"
      "kout' = (kout @ take n buf) @ pre" "ok \<longrightarrow> pre = drop n buf" by blast
    have "prefix (take n buf @ pre) (take n buf @ drop n buf)"
      using pre(1) by (simp only: same_prefix_prefix)
    with pre show ?thesis by (intro exI [of _ "take n buf @ pre"]) simp
  qed
qed

interpretation win: connection win_ops wc_kin wc_kout
proof
  fix c c' :: WinPipeConnection and n bs
  show "length bs = n \<and> wc_kin c = bs @ wc_kin c' \<and> wc_kout c' = wc_kout c"
    if "ReadFull win_ops c n = (c', Some bs)"
    using that win_read_loop_some [of n "[]" "wc_os c" "wc_kin c" bs]
    by (auto simp: win_ops_def Win_ReadFull_def split: if_splits prod.splits)
  show "suffix (wc_kin c') (wc_kin c) \<and> wc_kout c' = wc_kout c"
    if "ReadFull win_ops c n = (c', None)"
    using that win_read_loop_suffix [of n "[]" "wc_os c" "wc_kin c"]
    by (auto simp: win_ops_def Win_ReadFull_def split: if_splits prod.splits)
  show "wc_kout c' = wc_kout c @ bs \<and> wc_kin c' = wc_kin c"
    if "WriteAll win_ops c bs = (c', True)"
    using that win_write_loop_result [of bs "wc_os c" "wc_kout c" True]
    by (auto simp: win_ops_def Win_WriteAll_def split: if_splits prod.splits)
  show "(\<exists>pre. prefix pre bs \<and> wc_kout c' = wc_kout c @ pre) \<and> wc_kin c' = wc_kin c"
    if "WriteAll win_ops c bs = (c', False)"
    using that win_write_loop_result [of bs "wc_os c" "wc_kout c" False]
    by (fastforce simp: win_ops_def Win_WriteAll_def split: if_splits prod.splits)
qed (simp_all add: win_ops_def Win_Close_def Win_IsConnected_def Win_ReadFull_def Win_WriteAll_def)

section \<open>Listening and accepting\<close>

text \<open>The calls on pipe and event handles, in order.\<close>

datatype win_call =
    Create_pipe bool
  | Create_event
  | Connect_pipe
  | Wait_two
  | Cancel_io
  | Close_pipe
  | Close_event

text \<open>The outcome of \<^verbatim>\<open>ConnectNamedPipe\<close> and its last error.\<close>

datatype connect_result = Connected_nonzero | Err_pipe_connected | Err_io_pending | Err_other

text \<open>\<open>wa_wait\<close>: the index \<^verbatim>\<open>WaitForMultipleObjects\<close> returns, \<open>None\<close> for an error.\<close>

record accept_env =
  wa_shutdown_event :: bool
  wa_create :: bool
  wa_event :: bool
  wa_connect :: connect_result
  wa_wait :: "nat option"
  wa_overlapped :: bool

text \<open>\<open>True\<close>: a connection that owns the pipe is returned.\<close>

definition Accept_win :: "accept_env \<Rightarrow> bool \<times> win_call list" where
  "Accept_win env =
     (if \<not> wa_shutdown_event env then (False, [])
      else if \<not> wa_create env then (False, [])
      else if \<not> wa_event env then (False, [Create_pipe False, Close_pipe])
      else let calls = [Create_pipe False, Create_event, Connect_pipe] in
        case wa_connect env of
          Connected_nonzero \<Rightarrow> (False, calls @ [Close_pipe, Close_event])
        | Err_pipe_connected \<Rightarrow> (True, calls @ [Close_event])
        | Err_other \<Rightarrow> (False, calls @ [Close_pipe, Close_event])
        | Err_io_pending \<Rightarrow>
            if wa_wait env = Some 0
            then (if \<not> wa_overlapped env then (False, calls @ [Wait_two, Close_pipe, Close_event])
                  else (True, calls @ [Wait_two, Close_event]))
            else (False, calls @ [Wait_two, Cancel_io, Close_pipe, Close_event]))"

text \<open>\<open>wide\<close> is \<^verbatim>\<open>Utf8ToWide\<close>; the probe is created with
  \<^verbatim>\<open>FILE_FLAG_FIRST_PIPE_INSTANCE\<close> and closed again.\<close>

definition ListenEndpoint_win :: "(bytes \<Rightarrow> u16 list) \<Rightarrow> bool \<Rightarrow> bytes \<Rightarrow> u16 list option \<times> win_call list" where
  "ListenEndpoint_win wide probe_ok address =
     (if address = [] then (None, [])
      else let name = wide address in
        if name = [] then (None, [])
        else if \<not> probe_ok then (None, [])
        else (Some name, [Create_pipe True, Close_pipe]))"

section \<open>Connecting\<close>

datatype wait_pipe = Pipe_free | Pipe_not_found | Pipe_wait_timeout
datatype open_pipe = Opened | Open_busy | Open_error

text \<open>One round of the retry loop; the list ends with the budget of one second.\<close>

fun connect_loop :: "(wait_pipe \<times> open_pipe) list \<Rightarrow> bool" where
  "connect_loop [] = False"
| "connect_loop ((w, x) # rounds) =
     (case w of
        Pipe_not_found \<Rightarrow> False
      | Pipe_wait_timeout \<Rightarrow> connect_loop rounds
      | Pipe_free \<Rightarrow>
          (case x of Opened \<Rightarrow> True | Open_busy \<Rightarrow> connect_loop rounds | Open_error \<Rightarrow> False))"

definition ConnectEndpoint_win ::
  "(bytes \<Rightarrow> u16 list) \<Rightarrow> (wait_pipe \<times> open_pipe) list \<Rightarrow> WinPipeConnection \<Rightarrow> bytes \<Rightarrow> WinPipeConnection option" where
  "ConnectEndpoint_win wide rounds fresh address =
     (if address = [] then None
      else if wide address = [] then None
      else if connect_loop rounds then Some fresh else None)"

text \<open>A round that the loop repeats: a lost race for the instance, or a time-out.\<close>

definition lost_race :: "wait_pipe \<times> open_pipe \<Rightarrow> bool" where
  "lost_race r \<longleftrightarrow> r = (Pipe_free, Open_busy) \<or> fst r = Pipe_wait_timeout"

lemma connect_loop_races:
  "list_all lost_race rs \<Longrightarrow> connect_loop (rs @ rounds) = connect_loop rounds"
  by (induction rs) (auto simp: lost_race_def)

lemma connect_loop_iff:
  "connect_loop rounds \<longleftrightarrow> (\<exists>rs rest. rounds = rs @ (Pipe_free, Opened) # rest \<and> list_all lost_race rs)"
proof
  assume "connect_loop rounds"
  then show "\<exists>rs rest. rounds = rs @ (Pipe_free, Opened) # rest \<and> list_all lost_race rs"
  proof (induction rounds rule: connect_loop.induct)
    case (2 w x rounds)
    show ?case
    proof (cases "lost_race (w, x)")
      case True
      then have "connect_loop rounds" using 2(3) by (auto simp: lost_race_def split: wait_pipe.splits)
      moreover have "w = Pipe_wait_timeout \<or> w = Pipe_free \<and> x = Open_busy"
        using True by (auto simp: lost_race_def)
      ultimately obtain rs rest where "rounds = rs @ (Pipe_free, Opened) # rest" "list_all lost_race rs"
        using 2(1,2) by auto
      with True show ?thesis by (intro exI [of _ "(w, x) # rs"] exI [of _ rest]) simp
    next
      case False
      then have "w = Pipe_free \<and> x = Opened"
        using 2(3) by (cases w; cases x) (auto simp: lost_race_def)
      then show ?thesis by (intro exI [of _ "[]"] exI [of _ rounds]) simp
    qed
  qed simp
qed (auto simp: connect_loop_races)

text \<open>Connecting to a pipe succeeds exactly when, within the budget, an instance can be opened
  after any number of lost races and waits and before the pipe is missing or refused.\<close>

theorem win_connect_iff:
  "ConnectEndpoint_win wide rounds fresh address = Some c \<longleftrightarrow>
     address \<noteq> [] \<and> wide address \<noteq> [] \<and> c = fresh
     \<and> (\<exists>rs rest. rounds = rs @ (Pipe_free, Opened) # rest \<and> list_all lost_race rs)"
  by (auto simp: ConnectEndpoint_win_def connect_loop_iff)

section \<open>Handles and pending requests\<close>

text \<open>Accepting creates and closes its event, closes the pipe exactly when it returns no
  connection, and cancels a pending connect before closing the pipe; with the shutdown event set it can
  still return a connection, because a client that is already there, or arrives first, wins.\<close>

theorem win_accept_handles:
  "(fst (Accept_win env) \<longrightarrow> Close_pipe \<notin> set (snd (Accept_win env)) \<and> Create_pipe False \<in> set (snd (Accept_win env)))
   \<and> (\<not> fst (Accept_win env) \<longrightarrow>
        count_list (snd (Accept_win env)) Close_pipe = count_list (snd (Accept_win env)) (Create_pipe False))
   \<and> count_list (snd (Accept_win env)) Close_event = count_list (snd (Accept_win env)) Create_event
   \<and> fst (Accept_win (env\<lparr>wa_shutdown_event := True, wa_create := True, wa_event := True,
        wa_connect := Err_pipe_connected, wa_wait := Some 1\<rparr>))"
  by (auto simp: Accept_win_def Let_def split: connect_result.splits)

lemma left_pending_wait:
  "snd (snd (snd (win_read_loop sz acc es kin))) \<Longrightarrow> \<exists>e \<in> set es. io_pending e \<and> io_wait e = Wait_failed"
proof (induction es arbitrary: acc kin)
  case (Cons e es)
  define n where "n = min (io_bytes e) (min (min (sz - length acc) kMaxDword) (length kin))"
  have "io_round e = Left_pending \<or> snd (snd (snd (win_read_loop sz (acc @ take n kin) es (drop n kin))))"
    using Cons.prems unfolding win_read_loop.simps Let_def n_def [symmetric]
    by (simp split: if_splits io_outcome.splits)
  then show ?case
    using Cons.IH by (auto simp: io_round_def split: if_splits wait_result.splits)
qed (simp split: if_splits)

end
