(* ===== verification/Llama_Backend.thy ===== *)
theory Llama_Backend
  imports Files
begin

text \<open>
  reranker_llamacpp.cc: where the plugins of ggml are looked for before the first model is loaded.
  The calls into ggml and llama.cpp are recorded in order; the path of the executable is what
  \<^verbatim>\<open>canonical\<close> gives on macOS and \<open>None\<close> elsewhere or on an error.
\<close>

datatype ggml_call = Load_all_from path | Load_all | Llama_init | Silence_log

text \<open>\<^verbatim>\<open>path::parent_path\<close> of an absolute path without repeated separators.\<close>

definition parent_path :: "path \<Rightarrow> path" where
  "parent_path p =
     (let d = rev (dropWhile (\<lambda>c. c \<noteq> 0x2F) (rev p))
      in if length d \<le> 1 then d else butlast d)"

definition SiblingLibDafengDir :: "path option \<Rightarrow> path" where
  "SiblingLibDafengDir exe =
     (case exe of
        None \<Rightarrow> []
      | Some p \<Rightarrow> if p = [] then []
                  else join (join (parent_path (parent_path p)) (lit ''lib'')) (lit ''dafeng''))"

definition ggml_paths :: "path list" where
  "ggml_paths =
     [lit ''/usr/local/lib/dafeng'', lit ''/opt/homebrew/lib/dafeng'', lit ''/opt/homebrew/opt/ggml/libexec'',
      lit ''/usr/local/opt/ggml/libexec'', lit ''/opt/homebrew/lib/ggml'', lit ''/usr/local/lib/ggml'']"

text \<open>\<open>inited\<close> is the \<^verbatim>\<open>once_flag\<close>, \<open>override\<close> the variable
  \<^verbatim>\<open>DAFENG_GGML_LIBEXEC\<close>.\<close>

definition InitBackendOnce :: "path option \<Rightarrow> path option \<Rightarrow> bool \<times> ggml_call list \<Rightarrow> bool \<times> ggml_call list" where
  "InitBackendOnce exe override st =
     (case st of (inited, log) \<Rightarrow>
        if inited then (True, log)
        else let sibling = SiblingLibDafengDir exe in
          (True, log
             @ (if sibling \<noteq> [] then [Load_all_from sibling] else [])
             @ [Load_all]
             @ map Load_all_from ggml_paths
             @ (case override of None \<Rightarrow> [] | Some p \<Rightarrow> [Load_all_from p])
             @ [Llama_init, Silence_log]))"

lemma parent_path_child: "name \<noteq> [] \<Longrightarrow> 0x2F \<notin> set name \<Longrightarrow> p \<noteq> [] \<Longrightarrow> parent_path (p @ 0x2F # name) = p"
proof -
  assume "0x2F \<notin> set name" "p \<noteq> []"
  then have "dropWhile (\<lambda>c. c \<noteq> 0x2F) (rev name) = []" by (auto simp: dropWhile_eq_Nil_conv)
  with \<open>p \<noteq> []\<close> show ?thesis by (simp add: parent_path_def dropWhile_append butlast_append)
qed

text \<open>The directory is \<^verbatim>\<open>lib/dafeng\<close> beside the one of the binary, for any prefix.\<close>

lemma sibling_of_bin:
  assumes "prefix_dir \<noteq> []" "last prefix_dir \<noteq> 0x2F" "name \<noteq> []" "0x2F \<notin> set name" "bin \<noteq> []" "0x2F \<notin> set bin"
  shows "SiblingLibDafengDir (Some (prefix_dir @ 0x2F # bin @ 0x2F # name)) = prefix_dir @ lit ''/lib/dafeng''"
proof -
  have "parent_path ((prefix_dir @ 0x2F # bin) @ 0x2F # name) = prefix_dir @ 0x2F # bin"
    using assms by (intro parent_path_child) simp_all
  then have "parent_path (parent_path (prefix_dir @ 0x2F # bin @ 0x2F # name)) = prefix_dir"
    using parent_path_child [of bin prefix_dir] assms by simp
  then show ?thesis using assms(1,2) by (simp add: SiblingLibDafengDir_def join_def)
qed

text \<open>The plugins of the own bundle are tried first, everything is tried before llama.cpp starts, and a
  second initialisation does nothing.\<close>

theorem backend_init_order:
  assumes "InitBackendOnce exe override (False, []) = (inited, log)"
  shows "\<exists>before. log = before @ [Llama_init, Silence_log] \<and> Llama_init \<notin> set before \<and> Load_all \<in> set before
    \<and> Load_all_from ` set ggml_paths \<subseteq> set before
    \<and> (SiblingLibDafengDir exe \<noteq> [] \<longrightarrow> hd log = Load_all_from (SiblingLibDafengDir exe))
    \<and> InitBackendOnce exe override (inited, log) = (inited, log)"
  using assms by (auto simp: InitBackendOnce_def Let_def ggml_paths_def simp del: lit_simps split: option.splits)

end
