(* ===== verification/Plugin.thy ===== *)
theory Plugin
  imports Client Paths
begin

text \<open>
  The input-method side: the C interface (src/client/client_c.cc), the Lua bridge
  (src/plugin/dafeng_lua_bridge.c) and the Lua filter (dafeng_rerank.lua,
  dafeng_filter.lua).  A \<^verbatim>\<open>const char*\<close> that may be NULL is an option; a Lua integer
  is an \<open>int\<close> and Lua lists count from 1.
\<close>

section \<open>C interface\<close>

record rerank_result =
  rr_indices :: "i32 list"
  rr_latency_us :: u32
  rr_model_version :: byte

definition or_empty :: "bytes option \<Rightarrow> bytes" where
  "or_empty s = (case s of None \<Rightarrow> [] | Some b \<Rightarrow> b)"

definition c_request ::
    "bytes option \<Rightarrow> bytes option \<Rightarrow> bytes option list \<Rightarrow> bytes option \<Rightarrow> RerankRequest" where
  "c_request code ctx cands app = RerankRequest_init
     \<lparr>rq_code := or_empty code, rq_context_before := or_empty ctx, rq_app_id := or_empty app,
      rq_candidates := map or_empty cands\<rparr>"

text \<open>\<open>None\<close> is the return value 0; \<open>malloc_ok\<close>: the buffer for the indices is there.\<close>

definition dafeng_client_rerank :: "msgpack \<Rightarrow> 'c conn_ops \<Rightarrow> (nat \<Rightarrow> 'c option) \<Rightarrow> bool \<Rightarrow> 'c Client \<Rightarrow>
    bytes option \<Rightarrow> bytes option \<Rightarrow> bytes option list \<Rightarrow> bytes option \<Rightarrow> 'c Client \<times> rerank_result option" where
  "dafeng_client_rerank mp ops connect malloc_ok st code ctx cands app =
     (case Client_Rerank mp ops connect st (c_request code ctx cands app) of
        (st', None) \<Rightarrow> (st', None)
      | (st', Some resp) \<Rightarrow>
          if rs_reordered_indices resp \<noteq> [] \<and> \<not> malloc_ok then (st', None)
          else (st', Some \<lparr>rr_indices = rs_reordered_indices resp, rr_latency_us = rs_latency_us resp,
                           rr_model_version = rs_model_version resp\<rparr>))"

definition dafeng_client_record_commit :: "msgpack \<Rightarrow> 'c conn_ops \<Rightarrow> (nat \<Rightarrow> 'c option) \<Rightarrow> 'c Client \<Rightarrow>
    bytes option \<Rightarrow> bytes option \<Rightarrow> bytes option \<Rightarrow> 'c Client" where
  "dafeng_client_record_commit mp ops connect st code txt ctx =
     Client_RecordCommit mp ops connect st (or_empty code) (or_empty txt) (or_empty ctx)"

section \<open>Lua bridge\<close>

text \<open>The result of the bridge; a field that is not set reads as nil, which is \<open>None\<close>.\<close>

record lua_table =
  lt_indices :: "int list option"
  lt_latency_us :: "int option"
  lt_model_version :: "int option"

text \<open>What \<^verbatim>\<open>pcall\<close> around \<^verbatim>\<open>client:rerank\<close> gives: an error (as text), nil, or a table.\<close>

datatype lua_rerank = Lua_Error bytes | Lua_Nil | Lua_Table lua_table

text \<open>Strings cross as C strings, so a NUL byte ends them.\<close>

definition l_rerank :: "msgpack \<Rightarrow> 'c conn_ops \<Rightarrow> (nat \<Rightarrow> 'c option) \<Rightarrow> bool \<Rightarrow> 'c Client \<Rightarrow>
    bytes \<Rightarrow> bytes \<Rightarrow> bytes list \<Rightarrow> bytes \<Rightarrow> 'c Client \<times> lua_rerank" where
  "l_rerank mp ops connect malloc_ok st code ctx cands app =
     (if cands = []
      then (st, Lua_Table \<lparr>lt_indices = Some [], lt_latency_us = Some 0, lt_model_version = None\<rparr>)
      else if \<not> malloc_ok then (st, Lua_Nil)
      else case dafeng_client_rerank mp ops connect malloc_ok st (Some (c_str code)) (Some (c_str ctx))
                  (map (\<lambda>c. Some (c_str c)) cands) (Some (c_str app)) of
        (st', None) \<Rightarrow> (st', Lua_Nil)
      | (st', Some r) \<Rightarrow> 
          (st', Lua_Table \<lparr>lt_indices = Some (map (\<lambda>i. sint i + 1) (rr_indices r)),
                           lt_latency_us = Some (uint (rr_latency_us r)),
                           lt_model_version = Some (uint (rr_model_version r))\<rparr>))"

section \<open>The order of the filter\<close>

record filter_options =
  fo_enabled :: bool
  fo_protect_top_n :: "int option"
  fo_max_rerank :: "int option"

definition protect_count :: "filter_options \<Rightarrow> nat \<Rightarrow> int" where
  "protect_count opts n =
     max 0 (min (case fo_protect_top_n opts of None \<Rightarrow> 0 | Some p \<Rightarrow> p) (int n))"

definition rerank_end :: "filter_options \<Rightarrow> nat \<Rightarrow> int" where
  "rerank_end opts n =
     min (protect_count opts n + (case fo_max_rerank opts of None \<Rightarrow> 0 | Some k \<Rightarrow> k)) (int n)"

definition bypass :: "filter_options \<Rightarrow> bool \<Rightarrow> bool" where
  "bypass opts has_client \<longleftrightarrow> \<not> fo_enabled opts \<or> \<not> has_client
     \<or> (case fo_max_rerank opts of None \<Rightarrow> True | Some k \<Rightarrow> k < 1)"

text \<open>The candidates sent to the daemon.\<close>

definition rerank_texts :: "filter_options \<Rightarrow> bytes list \<Rightarrow> bytes list" where
  "rerank_texts opts texts =
     map (\<lambda>i. texts ! nat (i - 1))
       [protect_count opts (length texts) + 1..rerank_end opts (length texts)]"

text \<open>The indices of a result that is not nil and has some; else the daemon gave no order.\<close>

definition given_indices :: "lua_rerank \<Rightarrow> int list" where
  "given_indices result =
     (case result of
        Lua_Table t \<Rightarrow> (case lt_indices t of None \<Rightarrow> [] | Some is \<Rightarrow> is)
      | _ \<Rightarrow> [])"

text \<open>The block: usable indices in the daemon's order, then the ones it dropped.\<close>

definition rerank_block :: "int \<Rightarrow> int \<Rightarrow> int \<Rightarrow> lua_rerank \<Rightarrow> int list" where
  "rerank_block protect_n first final result =
     (if given_indices result \<noteq> [] then
        let emitted = filter (\<lambda>a. first \<le> a \<and> a \<le> final) (map (\<lambda>i. i + protect_n) (given_indices result))
        in emitted @ filter (\<lambda>a. a \<notin> set emitted) [first..final]
      else [first..final])"

text \<open>\<open>ask\<close> is the call of the client on the block's texts, \<open>None\<close> without a client.\<close>

definition compute_order ::
    "filter_options \<Rightarrow> bytes list \<Rightarrow> (bytes list \<Rightarrow> lua_rerank) option \<Rightarrow> int list" where
  "compute_order opts texts client =
     (let n = length texts in
      if n = 0 then []
      else case client of
        None \<Rightarrow> [1..int n]
      | Some ask \<Rightarrow>
          if bypass opts True then [1..int n]
          else let p = protect_count opts n; final = rerank_end opts n
               in [1..p]
                  @ (if final \<ge> p + 1 then rerank_block p (p + 1) final (ask (rerank_texts opts texts)) else [])
                  @ [final + 1..int n])"

section \<open>The log of fallbacks\<close>

text \<open>\<open>ts\<close> is the formatted date, \<open>can_open\<close> whether the file can be opened for appending.\<close>

definition log_path :: "bytes \<Rightarrow> path" where
  "log_path home = home @ lit ''/Library/Logs/dafeng-filter.log''"

definition log_entry :: "bytes \<Rightarrow> bytes \<Rightarrow> bytes \<Rightarrow> int \<Rightarrow> bytes" where
  "log_entry ts reason code n =
     [0x5B] @ ts @ lit ''] code='' @ code @ lit '' n='' @ dec (nat n) @ lit '' reason='' @ reason @ [0x0A]"

definition log_fallback ::
    "environment \<Rightarrow> (path \<Rightarrow> bool) \<Rightarrow> bytes \<Rightarrow> bytes \<Rightarrow> bytes \<Rightarrow> int \<Rightarrow> fs \<Rightarrow> fs" where
  "log_fallback env can_open ts reason code n f =
     (case env (lit ''HOME'') of
        None \<Rightarrow> f
      | Some home \<Rightarrow>
          if home = [] then f
          else if \<not> can_open (log_path home) then f
          else f(log_path home \<mapsto>
                 (case f (log_path home) of None \<Rightarrow> [] | Some old \<Rightarrow> old) @ log_entry ts reason code n))"

definition fallback_reason :: "lua_rerank \<Rightarrow> bytes" where
  "fallback_reason result =
     (case result of
        Lua_Error e \<Rightarrow> lit ''err: '' @ e
      | Lua_Nil \<Rightarrow> lit ''nil (daemon timeout/unreachable)''
      | Lua_Table t \<Rightarrow> lit ''empty indices'')"

text \<open>What computing an order does to the files.\<close>

definition compute_order_files ::
    "environment \<Rightarrow> (path \<Rightarrow> bool) \<Rightarrow> bytes \<Rightarrow> filter_options \<Rightarrow> bytes \<Rightarrow> bytes list \<Rightarrow>
       (bytes list \<Rightarrow> lua_rerank) option \<Rightarrow> fs \<Rightarrow> fs" where
  "compute_order_files env can_open ts opts code texts client f =
     (let n = length texts; p = protect_count opts n; final = rerank_end opts n in
      case client of
        None \<Rightarrow> f
      | Some ask \<Rightarrow>
          if n = 0 \<or> bypass opts True \<or> final < p + 1 then f
          else let result = ask (rerank_texts opts texts) in
               if given_indices result \<noteq> [] then f
               else log_fallback env can_open ts (fallback_reason result) code (final - p) f)"

text \<open>The candidates the filter yields.\<close>

definition filter_func ::
    "filter_options \<Rightarrow> bytes list \<Rightarrow> (bytes list \<Rightarrow> lua_rerank) option \<Rightarrow> bytes list" where
  "filter_func opts texts client =
     (if texts = [] then []
      else if \<not> fo_enabled opts \<or> client = None then texts
      else map (\<lambda>i. texts ! nat (i - 1)) (compute_order opts texts client))"

text \<open>\<^verbatim>\<open>string.sub(s, i)\<close>: negative positions count from the end, 0 is corrected to 1.\<close>

definition string_sub :: "bytes \<Rightarrow> int \<Rightarrow> bytes" where
  "string_sub s i =
     (let start = (if i > 0 then i else if i = 0 then 1 else max (int (length s) + i + 1) 1)
      in drop (nat (start - 1)) s)"

definition trim_context :: "bytes \<Rightarrow> int \<Rightarrow> bytes" where
  "trim_context s max_chars =
     (let cap = max_chars * 4
      in if int (length s) > cap then string_sub s (- cap) else s)"

section \<open>Lemmas\<close>

lemma order_bounds:
  "0 \<le> protect_count opts n" "protect_count opts n \<le> int n" "rerank_end opts n \<le> int n"
  by (auto simp: protect_count_def rerank_end_def)

lemma rerank_end_ge: "\<not> bypass opts True \<Longrightarrow> protect_count opts n \<le> rerank_end opts n"
  by (auto simp: bypass_def rerank_end_def protect_count_def split: option.splits)

lemma rerank_block_set: "set (rerank_block p a b r) = {a..b}"
  by (auto simp: rerank_block_def Let_def)

definition daemon_indices :: "int \<Rightarrow> int \<Rightarrow> int \<Rightarrow> lua_rerank \<Rightarrow> int list" where
  "daemon_indices p a b r = filter (\<lambda>x. a \<le> x \<and> x \<le> b) (map (\<lambda>i. i + p) (given_indices r))"

lemma distinct_upto [simp]: "distinct [a..b :: int]"
  by simp

lemma rerank_block_distinct:
  "distinct (rerank_block p a b r) \<longleftrightarrow> distinct (daemon_indices p a b r)"
  by (auto simp: rerank_block_def daemon_indices_def Let_def)

text \<open>The order as three pieces.\<close>

lemma compute_order_pieces:
  assumes "texts \<noteq> []" "\<not> bypass opts True"
  shows "compute_order opts texts (Some ask) =
    [1..protect_count opts (length texts)]
    @ (let p = protect_count opts (length texts); final = rerank_end opts (length texts)
       in if final \<ge> p + 1 then rerank_block p (p + 1) final (ask (rerank_texts opts texts)) else [])
    @ [rerank_end opts (length texts) + 1..int (length texts)]"
  using assms by (simp add: compute_order_def Let_def)

lemma compute_order_bypass:
  "client = None \<or> bypass opts True \<Longrightarrow> compute_order opts texts client = [1..int (length texts)]"
  by (auto simp: compute_order_def Let_def split: option.splits)

lemma compute_order_set: "set (compute_order opts texts client) = {1..int (length texts)}"
proof (cases "client = None \<or> bypass opts True \<or> texts = []")
  case True
  then show ?thesis using compute_order_bypass by (auto simp: compute_order_def)
next
  case False
  then obtain ask where c: "client = Some ask" "texts \<noteq> []" "\<not> bypass opts True" by auto
  show ?thesis
    unfolding c(1) compute_order_pieces [OF c(2,3)]
    using order_bounds [of opts "length texts"] rerank_end_ge [OF c(3), of "length texts"]
    by (auto simp: Let_def rerank_block_set)
qed

lemma perm_iff_distinct:
  "set xs = {1..int n} \<Longrightarrow> mset xs = mset [1..int n] \<longleftrightarrow> distinct xs"
  by (metis set_upto distinct_upto mset_eq_imp_distinct_iff set_eq_iff_mset_eq_distinct)

lemma compute_order_distinct:
  assumes "texts \<noteq> []" "\<not> bypass opts True"
  shows "distinct (compute_order opts texts (Some ask)) \<longleftrightarrow>
    distinct (daemon_indices (protect_count opts (length texts)) (protect_count opts (length texts) + 1)
      (rerank_end opts (length texts)) (ask (rerank_texts opts texts)))"
proof -
  let ?p = "protect_count opts (length texts)" and ?e = "rerank_end opts (length texts)"
  let ?r = "ask (rerank_texts opts texts)"
  have "daemon_indices ?p (?p + 1) ?e ?r = []" if "\<not> ?e \<ge> ?p + 1"
    using that by (auto simp: daemon_indices_def filter_empty_conv)
  then show ?thesis
    unfolding compute_order_pieces [OF assms]
    using rerank_block_set [of ?p "?p + 1" ?e ?r] rerank_block_distinct [of ?p "?p + 1" ?e ?r]
      rerank_end_ge [OF assms(2), of "length texts"]
    by (auto simp: Let_def)
qed

section \<open>Properties\<close>

lemma upto_pieces:
  assumes "0 \<le> p" and "p \<le> e" and "e \<le> n"
  shows "[1..p] @ [p + 1..e] @ [e + 1..n] = [1..n :: int]"
proof -
  have "[p + 1..e] @ [e + 1..n] = [p + 1..n]" if "p < n"
    using assms that upto_split1 [of "p + 1" "e + 1" n] by (cases "e = n"; cases "p = e") simp_all
  moreover have "[1..p] @ [p + 1..n] = [1..n]" if "p < n"
    using assms that upto_split1 [of 1 "p + 1" n] by simp
  ultimately show ?thesis using assms by (cases "p = n") (simp_all flip: append_assoc)
qed

text \<open>The log of fallbacks only grows, by one line and only when the daemon gave no order, and then
  the list keeps the input method's order.\<close>

theorem fallback_logged:
  assumes "compute_order_files env can_open ts opts code texts client f = f'" and "f' \<noteq> f"
  shows "\<exists>home ask. env (lit ''HOME'') = Some home \<and> client = Some ask
    \<and> f' = f(log_path home \<mapsto> (case f (log_path home) of None \<Rightarrow> [] | Some old \<Rightarrow> old)
        @ log_entry ts (fallback_reason (ask (rerank_texts opts texts))) code
            (rerank_end opts (length texts) - protect_count opts (length texts)))
    \<and> compute_order opts texts client = [1..int (length texts)]"
proof -
  obtain ask where c: "client = Some ask" "texts \<noteq> []" "\<not> bypass opts True"
    "given_indices (ask (rerank_texts opts texts)) = []"
    "protect_count opts (length texts) + 1 \<le> rerank_end opts (length texts)"
    using assms by (auto simp: compute_order_files_def Let_def not_less split: option.splits if_splits)
  have "[1..protect_count opts (length texts)] @ [protect_count opts (length texts) + 1..rerank_end opts (length texts)]
      @ [rerank_end opts (length texts) + 1..int (length texts)] = [1..int (length texts)]"
    using order_bounds c(5) by (intro upto_pieces) simp_all
  then have "compute_order opts texts client = [1..int (length texts)]"
    unfolding c(1) compute_order_pieces [OF c(2,3)] using c(4,5) by (simp add: rerank_block_def Let_def)
  then show ?thesis
    using assms c by (auto simp: compute_order_files_def log_fallback_def Let_def simp del: lit_simps
        split: option.splits if_splits)
qed

text \<open>C31: The filter shows every candidate: its order contains each position 1..n and no other,
  keeps the protected prefix in front and the tail behind in the input method's order, whatever the daemon
  returns (an error, nil, no indices, indices out of range or repeated ones); it is a permutation exactly
  when the daemon repeats no index of the block, so a repeated index shows a candidate twice.\<close>

theorem compute_order_complete:
  "let n = length texts; order = compute_order opts texts client in
     set order = {1..int n}
     \<and> (\<exists>block. order = [1..protect_count opts n] @ block @ [rerank_end opts n + 1..int n]
          \<or> bypass opts (client \<noteq> None) \<and> order = [1..int n])
     \<and> (case client of
          None \<Rightarrow> mset order = mset [1..int n]
        | Some ask \<Rightarrow> mset order = mset [1..int n] \<longleftrightarrow>
            (bypass opts True \<or> distinct (daemon_indices (protect_count opts n) (protect_count opts n + 1)
                  (rerank_end opts n) (ask (rerank_texts opts texts)))))"
proof (cases "client = None \<or> bypass opts True")
  case True
  then have "compute_order opts texts client = [1..int (length texts)]"
    by (rule compute_order_bypass)
  then show ?thesis
    using True by (auto simp: Let_def bypass_def split: option.splits)
next
  case False
  then obtain ask where c: "client = Some ask" "\<not> bypass opts True" by auto
  show ?thesis
  proof (cases "texts = []")
    case True
    have "daemon_indices 0 1 (rerank_end opts 0) r = []" for r
      using order_bounds(3) [of opts 0]
      by (auto simp: daemon_indices_def filter_empty_conv)
    moreover have "protect_count opts 0 = 0" "rerank_end opts 0 = 0"
      using order_bounds [of opts 0] rerank_end_ge [OF c(2), of 0] by simp_all
    ultimately show ?thesis
      using True c by (simp add: Let_def compute_order_def)
  next
    case ne: False
    have "mset (compute_order opts texts (Some ask)) = mset [1..int (length texts)] \<longleftrightarrow>
        distinct (compute_order opts texts (Some ask))"
      by (rule perm_iff_distinct [OF compute_order_set])
    then have "mset (compute_order opts texts (Some ask)) = mset [1..int (length texts)] \<longleftrightarrow>
        bypass opts True \<or> distinct (daemon_indices (protect_count opts (length texts))
          (protect_count opts (length texts) + 1) (rerank_end opts (length texts))
          (ask (rerank_texts opts texts)))"
      by (simp only: compute_order_distinct [OF ne c(2)] c(2) simp_thms)
    moreover have "\<exists>block. compute_order opts texts (Some ask) = [1..protect_count opts (length texts)]
        @ block @ [rerank_end opts (length texts) + 1..int (length texts)]"
      using compute_order_pieces [OF ne c(2), of ask] by (simp only: Let_def) blast
    ultimately show ?thesis
      using compute_order_set [of opts texts "Some ask"] by (simp only: Let_def c(1) option.case) blast
  qed
qed

text \<open>The tail of a text of characters of at most four bytes each.\<close>

lemma tail_suffix:
  assumes "list_all (\<lambda>c. length c \<le> 4) cs"
  shows "suffix (concat (drop (length cs - k) cs)) (drop (length (concat cs) - 4 * k) (concat cs))"
proof -
  let ?front = "concat (take (length cs - k) cs)" and ?tail = "concat (drop (length cs - k) cs)"
  have "length (concat ds) \<le> 4 * length ds" if "list_all (\<lambda>c. length c \<le> 4) ds" for ds
    using that by (induction ds) auto
  moreover have "list_all (\<lambda>c. length c \<le> 4) (drop (length cs - k) cs)"
    using assms by (auto simp: list_all_iff dest: in_set_dropD)
  ultimately have "length ?tail \<le> 4 * length (drop (length cs - k) cs)" by blast
  also have "\<dots> \<le> 4 * k" by simp
  finally have "length ?tail \<le> 4 * k" .
  moreover have cs: "concat cs = ?front @ ?tail" by (simp flip: concat_append)
  then have "length (concat cs) = length ?front + length ?tail" by (metis length_append)
  ultimately have "length (concat cs) - 4 * k \<le> length ?front" by simp
  then show ?thesis by (subst cs) (simp add: suffix_def del: concat_append append_take_drop_id)
qed

text \<open>C32: For a positive number of characters \<^verbatim>\<open>trim_context\<close> sends exactly the last four bytes
  per configured character of the commit history, or all of it if it is shorter; since a character of
  UTF-8 has at most four bytes, at least the configured number of characters arrives.  But with
  \<open>context_chars = 0\<close> it sends the whole history, because \<^verbatim>\<open>string.sub(s, -0)\<close> is the whole
  string, and with a negative number all but the first bytes.\<close>

theorem trim_context_suffix:
  "trim_context s k =
     (if k > 0 then drop (length s - nat (4 * k)) s
      else if k = 0 then s else drop (nat (- 4 * k - 1)) s)
   \<and> (k > 0 \<and> list_all utf8_char cs \<longrightarrow>
       suffix (concat (drop (length cs - nat k) cs)) (trim_context (concat cs) k))"
proof -
  have trim: "trim_context s k = (if k > 0 then drop (length s - nat (4 * k)) s
      else if k = 0 then s else drop (nat (- 4 * k - 1)) s)" for s
    by (auto simp: trim_context_def string_sub_def Let_def nat_diff_distrib intro!: arg_cong2 [where f = drop])
  have "suffix (concat (drop (length cs - nat k) cs)) (trim_context (concat cs) k)"
    if "k > 0" "list_all utf8_char cs"
  proof -
    have "list_all (\<lambda>c. length c \<le> 4) cs"
      using that(2) unfolding list_all_iff utf8_char_def by (metis strict.len_le4)
    from tail_suffix [OF this, of "nat k"] show ?thesis
      using that(1) by (simp add: trim nat_mult_distrib)
  qed
  then show ?thesis using trim [of s] by blast
qed

theorem trim_context_suffix_witness:
  "trim_context [1, 2, 3, 4, 5, 6] 1 = [3, 4, 5, 6] \<and> trim_context [1, 2, 3] 0 = [1, 2, 3]
   \<and> suffix [0xC3, 0xB6] (trim_context [97, 98, 0xC3, 0xA4, 0xC3, 0xB6] 1)"
proof -
  have "utf8_char [97]" "utf8_char [98]" "utf8_char [0xC3, 0xA4]" "utf8_char [0xC3, 0xB6]"
    by (simp_all add: utf8_char_def Utf8Len_def lead_need_def is_cont_def)
  then show ?thesis
    using trim_context_suffix [of "[1, 2, 3, 4, 5, 6]" 1 "[[97], [98], [0xC3, 0xA4], [0xC3, 0xB6]]"]
      trim_context_suffix [of "[1, 2, 3]" 0 "[]"]
    by simp
qed

end
