(* ===== verification/Client_Correct.thy ===== *)
theory Client_Correct
  imports Plugin Server_Correct
begin

text \<open>
  Properties of the client: no failure leaves a connection behind on which a late reply
  could be taken for the next one, a successful rerank carries the server's answer to that
  very request although the reply's id is not compared, and the input method's list survives
  the whole round trip.
\<close>

lemma Rerank_conn:
  "(snd (Client_Rerank mp ops connect st req) = None) = (cl_conn (fst (Client_Rerank mp ops connect st req)) = None)"
proof -
  obtain st1 ok where e: "EnsureConnectedLocked ops connect st = (st1, ok)" by fastforce
  obtain st2 r where x: "exchange mp ops (take_id st1) (M_RerankRequest (req \<lparr>rq_request_id := cl_next_request_id st1\<rparr>)) = (st2, r)" by fastforce
  show ?thesis
    using Ensure_conn [OF e] exchange_conn [OF x]
    by (cases ok; cases r; cases "the r") (auto simp: Client_Rerank_def e x ResetLocked_def)
qed

lemma GetStats_conn:
  "(snd (Client_GetStats mp ops connect st) = None) = (cl_conn (fst (Client_GetStats mp ops connect st)) = None)"
proof -
  obtain st1 ok where e: "EnsureConnectedLocked ops connect st = (st1, ok)" by fastforce
  obtain st2 r where x: "exchange mp ops (take_id st1) (M_StatsRequest \<lparr>sq_request_id = cl_next_request_id st1\<rparr>) = (st2, r)" by fastforce
  show ?thesis
    using Ensure_conn [OF e] exchange_conn [OF x]
    by (cases ok; cases r; cases "the r") (auto simp: Client_GetStats_def e x ResetLocked_def)
qed

lemma Ping_conn:
  "(\<not> snd (Client_Ping mp ops connect st)) = (cl_conn (fst (Client_Ping mp ops connect st)) = None)"
proof -
  obtain st1 ok where e: "EnsureConnectedLocked ops connect st = (st1, ok)" by fastforce
  obtain st2 r where x: "exchange mp ops (take_id st1) (M_Ping \<lparr>ping_request_id = cl_next_request_id st1\<rparr>) = (st2, r)" by fastforce
  show ?thesis
  proof (cases ok)
    case False
    then show ?thesis using Ensure_conn [OF e] by (simp add: Client_Ping_def e)
  next
    case True
    then show ?thesis
      using exchange_conn [OF x]
      by (cases r; cases "the r") (auto simp: Client_Ping_def e x ResetLocked_def)
  qed
qed

text \<open>C22: After each of \<^verbatim>\<open>Rerank\<close>, \<^verbatim>\<open>GetStats\<close> and \<^verbatim>\<open>Ping\<close> the client has a
  connection if and only if the call succeeded: every failure (connect, write, short read, bad length,
  undecodable or unexpected reply, wrong id) resets it, so a reply that arrives late is never read by
  a later call.\<close>

theorem client_failure_resets:
  "(snd (Client_Rerank mp ops connect st req) = None) = (cl_conn (fst (Client_Rerank mp ops connect st req)) = None)
   \<and> (snd (Client_GetStats mp ops connect st) = None) = (cl_conn (fst (Client_GetStats mp ops connect st)) = None)
   \<and> snd (Client_Ping mp ops connect st) = (cl_conn (fst (Client_Ping mp ops connect st)) \<noteq> None)"
proof (intro conjI)
  show "snd (Client_Ping mp ops connect st) = (cl_conn (fst (Client_Ping mp ops connect st)) \<noteq> None)"
    unfolding Ping_conn [symmetric] by simp
qed (rule Rerank_conn, rule GetStats_conn)

context connection
begin

lemma rerank_in_sync:
  assumes "msgpack_api mp" and "reranker (se_rerank env)"
    and "cl_conn st = Some c" "IsConnected ops c"
    and "in_sync mp env sv incoming outgoing stream ms c"
    and "server_agrees mp env sv stream (ms @ [M_RerankRequest (req \<lparr>rq_request_id := cl_next_request_id st\<rparr>)])"
    and "\<forall>lat. sendable mp (M_RerankResponse
           (se_rerank env lat (req \<lparr>rq_request_id := cl_next_request_id st\<rparr>)))"
    and "Client_Rerank mp ops connect st req = (st', Some resp)"
  shows "\<exists>lat c'. resp = se_rerank env lat (req \<lparr>rq_request_id := cl_next_request_id st\<rparr>)
    \<and> rs_request_id resp = cl_next_request_id st
    \<and> cl_conn st' = Some c'
    \<and> in_sync mp env sv incoming outgoing stream
        (ms @ [M_RerankRequest (req \<lparr>rq_request_id := cl_next_request_id st\<rparr>)]) c'"
proof -
  let ?req = "req \<lparr>rq_request_id := cl_next_request_id st\<rparr>"
  let ?sv = "fst (serve env sv ms)"
  let ?resp = "se_rerank env (se_latency env (sv_tick ?sv)) ?req"
  have e: "EnsureConnectedLocked ops connect st = (st, True)"
    using assms(3,4) by (rule Ensure_stays)
  have x: "exchange mp ops (take_id st) (M_RerankRequest ?req) = (st', Some (M_RerankResponse resp))"
    using assms(8)
    by (auto simp: Client_Rerank_def e ResetLocked_def split: prod.splits option.splits Message.splits)
  have h: "\<exists>sv'. handle_message env ?sv (M_RerankRequest ?req) = (sv', Some (M_RerankResponse ?resp))"
    by (simp add: handle_message_def Let_def)
  have "cl_conn (take_id st) = Some c" using assms(3) by (simp add: take_id_def)
  from exchange_in_sync [OF assms(1) this x assms(5,6)] h assms(7)
  have "resp = ?resp" "\<exists>c'. cl_conn st' = Some c'
    \<and> in_sync mp env sv incoming outgoing stream (ms @ [M_RerankRequest ?req]) c'"
    by blast+
  then show ?thesis
    using reranker.keeps_id [OF assms(2)] by fastforce
qed

end

text \<open>C6: On a connection that is in step with a server answering as the abstract server does, a
  successful \<^verbatim>\<open>Rerank\<close> returns exactly the server's response to this request, with the id the
  client assigned, although the client does not compare ids, and leaves the connection in step for
  the next call.\<close>

theorem rerank_returns_own_answer:
  assumes "msgpack_api mp" and "reranker (se_rerank env)"
    and "cl_conn st = Some c" "Unix_IsConnected c"
    and "in_sync mp env sv uc_kin uc_kout stream ms c"
    and "server_agrees mp env sv stream (ms @ [M_RerankRequest (req \<lparr>rq_request_id := cl_next_request_id st\<rparr>)])"
    and "\<forall>lat. sendable mp (M_RerankResponse
           (se_rerank env lat (req \<lparr>rq_request_id := cl_next_request_id st\<rparr>)))"
    and "Client_Rerank mp unix_ops connect st req = (st', Some resp)"
  shows "\<exists>lat c'. resp = se_rerank env lat (req \<lparr>rq_request_id := cl_next_request_id st\<rparr>)
    \<and> rs_request_id resp = cl_next_request_id st
    \<and> cl_conn st' = Some c'
    \<and> in_sync mp env sv uc_kin uc_kout stream
        (ms @ [M_RerankRequest (req \<lparr>rq_request_id := cl_next_request_id st\<rparr>)]) c'"
  using assms by (intro unix.rerank_in_sync) (simp_all add: unix_ops_def)

text \<open>A server with the mock backend, whose whole output is its answer to the first request.\<close>

definition mock_env :: "unit server_env" where
  "mock_env = \<lparr>se_rerank = MockReverse_Rerank, se_latency = (\<lambda>_. 3), se_uptime = (\<lambda>_. 0),
     se_record = (\<lambda>_ l. l)\<rparr>"

definition two_request :: RerankRequest where
  "two_request = RerankRequest_init \<lparr>rq_candidates := [[1], [2]]\<rparr>"

definition two_response :: RerankResponse where
  "two_response = \<lparr>rs_request_id = 1, rs_reordered_indices = [1, 0], rs_scores = [],
     rs_latency_us = 3, rs_model_version = 0\<rparr>"

definition good_event :: os_event where
  "good_event = \<lparr>ev_rem = 30, ev_poll = 1, ev_poll_errno = EOTHER, ev_ret = 4096, ev_ret_errno = EOTHER\<rparr>"

definition two_stream :: bytes where
  "two_stream = frame msgpack_std (M_RerankResponse two_response)"

definition two_client :: "UnixConnection Client" where
  "two_client = \<lparr>cl_conn = Some \<lparr>uc_fd = 3, uc_os = [good_event, good_event, good_event],
     uc_kin = two_stream, uc_kout = []\<rparr>, cl_next_request_id = 1, cl_attempts = 1\<rparr>"

lemma two_answer:
  "MockReverse_Rerank lat (two_request \<lparr>rq_request_id := 1\<rparr>) = two_response \<lparr>rs_latency_us := lat\<rparr>"
proof -
  have "[0..1 :: int] = [0, 1]" by (simp add: upto_rec1)
  then show ?thesis
    by (simp add: MockReverse_Rerank_def cand_count_def two_request_def two_response_def msg_init_defs)
qed

lemma ser_uint_length: "length (ser_uint n) \<le> 9"
  by (simp add: ser_uint_def del: be_bytes.simps)

lemma two_body:
  "EncodeBody msgpack_std (M_RerankResponse (two_response \<lparr>rs_latency_us := lat\<rparr>)) =
     [0x87, 0xA1, 0x76, 1, 0xA1, 0x74, 2, 0xA2, 0x69, 0x64, 1,
      0xA5, 0x6F, 0x72, 0x64, 0x65, 0x72, 0x92, 1, 0,
      0xA6, 0x73, 0x63, 0x6F, 0x72, 0x65, 0x73, 0x90,
      0xA6, 0x6C, 0x61, 0x74, 0x5F, 0x75, 0x73] @ ser_uint (unat lat) @ [0xA4, 0x6D, 0x76, 0x65, 0x72, 0]"
proof -
  have u: "ser_uint 0 = [0]" "ser_uint (Suc 0) = [1]" "ser_uint 2 = [2]" by (simp_all add: ser_uint_def)
  show ?thesis
    by (simp add: EncodeBody_def two_response_def calls_defs key_defs msgpack_std_def ser_map_header_def
        ser_str_header_def ser_array_header_def ser_i32_def kProtocolVersion_def i32_sign u)
qed

lemma two_response_sendable: "sendable msgpack_std (M_RerankResponse (two_response \<lparr>rs_latency_us := lat\<rparr>))"
  using ser_uint_length [of "unat lat"]
  by (simp add: sendable_def two_body kMaxFrameBodyBytes_def) (simp add: two_response_def fits_u32_def)

lemma two_request_body:
  "length (EncodeBody msgpack_std (M_RerankRequest (two_request \<lparr>rq_request_id := 1\<rparr>))) \<le> 100"
proof -
  have u: "ser_uint 0 = [0]" "ser_uint (Suc 0) = [1]" by (simp_all add: ser_uint_def)
  show ?thesis
    by (simp add: EncodeBody_def two_request_def calls_defs key_defs msgpack_std_def ser_map_header_def
        ser_str_header_def ser_array_header_def ser_string_def kProtocolVersion_def msg_init_defs u)
qed

lemma good_write:
  "buf \<noteq> [] \<Longrightarrow> length buf \<le> 4096 \<Longrightarrow> write_loop buf (good_event # es) kout = (True, es, kout @ buf)"
  by (cases es) (simp_all add: good_event_def RemainingMs_def kMaxInt_def)

lemma good_read:
  "0 < n \<Longrightarrow> n \<le> 4096 \<Longrightarrow> n \<le> length kin \<Longrightarrow>
     read_loop n [] (good_event # es) kin = (Some (take n kin), es, drop n kin)"
  by (cases es) (simp_all add: good_event_def RemainingMs_def kMaxInt_def min_def)

lemma two_call:
  "snd (Client_Rerank msgpack_std unix_ops (\<lambda>_. None) two_client two_request) = Some two_response"
proof -
  let ?m = "M_RerankRequest (two_request \<lparr>rq_request_id := 1\<rparr>)"
  let ?r = "M_RerankResponse (two_response \<lparr>rs_latency_us := 3\<rparr>)"
  let ?body = "EncodeBody msgpack_std ?r"
  have r: "two_response \<lparr>rs_latency_us := 3\<rparr> = two_response" by (simp add: two_response_def)
  have send: "sendable msgpack_std ?r" by (rule two_response_sendable)
  have "length (frame msgpack_std ?m) \<le> 4096" "frame msgpack_std ?m \<noteq> []"
    using two_request_body by (simp_all add: frame_def EncodeFrame_def WriteFrameLength_def)
  then have w: "write_loop (frame msgpack_std ?m) [good_event, good_event, good_event] []
      = (True, [good_event, good_event], frame msgpack_std ?m)"
    by (simp add: good_write del: write_loop.simps)
  have len: "length ?body = 42" by (simp add: two_body ser_uint_def)
  have st: "two_stream = frame msgpack_std ?r @ []" by (simp add: two_stream_def r)
  note frame_parts = msgpack_api.frame_parts [OF std.msgpack_api_axioms send]
  note parts = frame_parts(1) frame_parts(3) [of "[]", folded st] frame_parts(4)
    msgpack_api.frame_length [OF std.msgpack_api_axioms send, of "[]", folded st]
  have h: "read_loop kFrameHeaderBytes [] [good_event, good_event] two_stream
      = (Some (take kFrameHeaderBytes two_stream), [good_event], ?body)"
    using parts(1,2) len good_read [of kFrameHeaderBytes two_stream "[good_event]"]
    by (simp add: st kFrameHeaderBytes_def)
  have b: "read_loop (length ?body) [] [good_event] ?body = (Some ?body, [], [])"
    using len good_read [of 42 ?body "[]"] by simp
  have d: "DecodeBody msgpack_std ?body = Some (M_RerankResponse two_response)"
    using std.decode_encode [of ?r] send by (simp add: sendable_def r)
  show ?thesis
    using w h b d parts(3,4) len
    by (simp add: Client_Rerank_def EnsureConnectedLocked_def exchange_def two_client_def unix_ops_def
        Unix_IsConnected_def take_id_def write_message_def Unix_WriteAll_def read_message_def
        Unix_ReadFull_def)
qed

theorem rerank_returns_own_answer_witness:
  "\<exists>st'. Client_Rerank msgpack_std unix_ops (\<lambda>_. None) two_client two_request = (st', Some two_response)
    \<and> rs_request_id two_response = cl_next_request_id two_client"
proof -
  let ?m = "M_RerankRequest (two_request \<lparr>rq_request_id := cl_next_request_id two_client\<rparr>)"
  have replies: "snd (serve mock_env (Server_init ()) [?m]) = [M_RerankResponse two_response]"
    using two_answer [of 3]
    by (simp add: two_client_def handle_message_def mock_env_def Let_def two_response_def)
  have call: "\<exists>st'. Client_Rerank msgpack_std unix_ops (\<lambda>_. None) two_client two_request
      = (st', Some two_response)"
    using two_call by (metis prod.collapse)
  then obtain st' where st': "Client_Rerank msgpack_std unix_ops (\<lambda>_. None) two_client two_request
      = (st', Some two_response)" by blast
  obtain c where c: "cl_conn two_client = Some c" "Unix_IsConnected c" "uc_kin c = two_stream" "uc_kout c = []"
    by (simp add: two_client_def Unix_IsConnected_def)
  have "\<exists>lat c'. two_response = se_rerank mock_env lat (two_request \<lparr>rq_request_id := cl_next_request_id two_client\<rparr>)
    \<and> rs_request_id two_response = cl_next_request_id two_client
    \<and> cl_conn st' = Some c'
    \<and> in_sync msgpack_std mock_env (Server_init ()) uc_kin uc_kout two_stream ([] @ [?m]) c'"
  proof (rule rerank_returns_own_answer [OF std.msgpack_api_axioms _ c(1,2) _ _ _ st'])
    show "reranker (se_rerank mock_env)" by (simp add: mock_env_def mock.reranker_axioms)
    show "in_sync msgpack_std mock_env (Server_init ()) uc_kin uc_kout two_stream [] c"
      using c by (simp add: in_sync_def)
    show "server_agrees msgpack_std mock_env (Server_init ()) two_stream ([] @ [?m])"
      unfolding server_agrees_def append_Nil replies by (simp add: two_stream_def)
    show "\<forall>lat. sendable msgpack_std (M_RerankResponse (se_rerank mock_env lat
        (two_request \<lparr>rq_request_id := cl_next_request_id two_client\<rparr>)))"
      using two_response_sendable two_answer by (simp add: two_client_def mock_env_def)
  qed
  with st' show ?thesis by blast
qed

end
