(* ===== verification/Plugin_Session.thy ===== *)
theory Plugin_Session
  imports Plugin Paths
begin

text \<open>
  The life of the plugin inside the input method: the userdata of the Lua bridge
  (dafeng_lua_bridge.c, client_c.cc), and a session of the filter (dafeng_filter.lua, rime.lua)
  from its lazy initialisation over filter calls and commits to its end.  librime and Lua are
  inputs: the configuration values, and whether modules load and calls succeed.
\<close>

section \<open>The client handle\<close>

text \<open>\<open>br_client\<close> is the pointer in the userdata, \<open>br_deleted\<close> counts the deletes.\<close>

record 'c bridge =
  br_client :: "'c Client option"
  br_deleted :: nat

text \<open>\<^verbatim>\<open>dafeng_client_create\<close>: the address used; allocation may fail.\<close>

definition dafeng_client_create :: "bytes \<Rightarrow> bool \<Rightarrow> bytes option \<Rightarrow> (bytes \<times> 'c Client) option" where
  "dafeng_client_create default_addr alloc_ok address =
     (let addr = (case address of
             Some a \<Rightarrow> if c_str a \<noteq> [] then c_str a else default_addr | None \<Rightarrow> default_addr)
      in if alloc_ok then Some (addr, Client_init) else None)"

definition dafeng_client_destroy :: "'c bridge \<Rightarrow> 'c bridge" where
  "dafeng_client_destroy b = b\<lparr>br_deleted := Suc (br_deleted b)\<rparr>"

text \<open>\<open>None\<close>: nil and a message are returned.\<close>

definition l_client_create :: "bytes \<Rightarrow> bool \<Rightarrow> bytes option \<Rightarrow> (bytes \<times> 'c bridge) option" where
  "l_client_create default_addr alloc_ok address =
     (case dafeng_client_create default_addr alloc_ok address of
        None \<Rightarrow> None
      | Some (addr, c) \<Rightarrow> Some (addr, \<lparr>br_client = Some c, br_deleted = 0\<rparr>))"

definition l_client_gc :: "'c bridge \<Rightarrow> 'c bridge" where
  "l_client_gc b =
     (case br_client b of
        None \<Rightarrow> b
      | Some c \<Rightarrow> (dafeng_client_destroy b)\<lparr>br_client := None\<rparr>)"

definition bridge_rerank :: "msgpack \<Rightarrow> 'c conn_ops \<Rightarrow> (nat \<Rightarrow> 'c option) \<Rightarrow> bool \<Rightarrow> 'c bridge \<Rightarrow>
    bytes \<Rightarrow> bytes \<Rightarrow> bytes list \<Rightarrow> bytes \<Rightarrow> 'c bridge \<times> lua_rerank" where
  "bridge_rerank mp ops connect malloc_ok b code ctx cands app =
     (case br_client b of
        None \<Rightarrow> (b, Lua_Nil)
      | Some st \<Rightarrow>
          (case l_rerank mp ops connect malloc_ok st code ctx cands app of
             (st', r) \<Rightarrow> (b\<lparr>br_client := Some st'\<rparr>, r)))"

definition l_record_commit :: "msgpack \<Rightarrow> 'c conn_ops \<Rightarrow> (nat \<Rightarrow> 'c option) \<Rightarrow> 'c bridge \<Rightarrow>
    bytes \<Rightarrow> bytes \<Rightarrow> bytes \<Rightarrow> 'c bridge" where
  "l_record_commit mp ops connect b code txt ctx =
     (case br_client b of
        None \<Rightarrow> b
      | Some st \<Rightarrow> b\<lparr>br_client := Some (dafeng_client_record_commit mp ops connect st
          (Some (c_str code)) (Some (c_str txt)) (Some (c_str ctx)))\<rparr>)"

definition l_is_connected :: "'c conn_ops \<Rightarrow> 'c bridge \<Rightarrow> bool" where
  "l_is_connected ops b = (case br_client b of None \<Rightarrow> False | Some st \<Rightarrow> Client_IsConnected ops st)"

definition l_reset_connection :: "'c bridge \<Rightarrow> 'c bridge" where
  "l_reset_connection b =
     (case br_client b of None \<Rightarrow> b | Some st \<Rightarrow> b\<lparr>br_client := Some (ResetConnection st)\<rparr>)"

text \<open>The buffer of a result: freed, and the result empty afterwards; freeing twice is harmless.\<close>

definition dafeng_rerank_result_free :: "rerank_result \<times> nat \<Rightarrow> rerank_result \<times> nat" where
  "dafeng_rerank_result_free r =
     ((fst r)\<lparr>rr_indices := []\<rparr>, if rr_indices (fst r) = [] then snd r else Suc (snd r))"

text \<open>The calls a script can make with the handle, in any order; \<^verbatim>\<open>gc\<close> may come twice.\<close>

inductive bridge_step :: "msgpack \<Rightarrow> 'c conn_ops \<Rightarrow> (nat \<Rightarrow> 'c option) \<Rightarrow> 'c bridge \<Rightarrow> 'c bridge \<Rightarrow> bool"
  for mp ops connect where
  collected: "bridge_step mp ops connect b (l_client_gc b)"
| reranked: "bridge_step mp ops connect b (fst (bridge_rerank mp ops connect m b code ctx cands app))"
| recorded: "bridge_step mp ops connect b (l_record_commit mp ops connect b code txt ctx)"
| reset: "bridge_step mp ops connect b (l_reset_connection b)"

definition handle_ok :: "'c bridge \<Rightarrow> bool" where
  "handle_ok b \<longleftrightarrow> br_deleted b = (if br_client b = None then 1 else 0)"

lemma handle_ok_step: "bridge_step mp ops connect b b' \<Longrightarrow> handle_ok b \<Longrightarrow> handle_ok b'"
  by (induction rule: bridge_step.induct)
    (auto simp: handle_ok_def l_client_gc_def dafeng_client_destroy_def bridge_rerank_def l_record_commit_def
      l_reset_connection_def split: option.splits prod.splits)

text \<open>The client is deleted at most once, and exactly when the handle no longer refers to it; on a
  collected handle every call is a no-op.\<close>

theorem handle_deleted_once:
  assumes "l_client_create default_addr alloc_ok address = Some (addr, b0)"
    and "(bridge_step mp ops connect)\<^sup>*\<^sup>* b0 b"
  shows "br_deleted b = (if br_client b = None then 1 else 0)
    \<and> (br_client b = None \<longrightarrow> (\<forall>b'. bridge_step mp ops connect b b' \<longrightarrow> b' = b)
         \<and> bridge_rerank mp ops connect m b code ctx cands app = (b, Lua_Nil) \<and> \<not> l_is_connected ops b)"
proof -
  have "handle_ok b0" using assms(1) by (auto simp: l_client_create_def handle_ok_def split: option.splits)
  with assms(2) have "handle_ok b" by (induction rule: rtranclp_induct) (auto intro: handle_ok_step)
  moreover have "b' = b" if "br_client b = None" "bridge_step mp ops connect b b'" for b'
    using that(2,1) by (cases rule: bridge_step.cases)
      (simp_all add: l_client_gc_def bridge_rerank_def l_record_commit_def l_reset_connection_def)
  ultimately show ?thesis by (auto simp: handle_ok_def bridge_rerank_def l_is_connected_def)
qed

section \<open>A session of the filter\<close>

text \<open>The values of the schema's configuration; \<open>None\<close> is nil.\<close>

record plugin_config =
  pc_enabled :: "bool option"
  pc_timeout_ms :: "int option"
  pc_max_rerank :: "int option"
  pc_protect_top_n :: "int option"
  pc_context_chars :: "int option"

text \<open>
  \<open>pe_bridge\<close>, \<open>pe_rerank\<close>: the modules load; \<open>pe_create\<close>: a client can be made;
  \<open>pe_context\<close>: \<^verbatim>\<open>env.engine.context\<close> can be read during init (else Lua raises);
  \<open>pe_notifier\<close>: it has a commit notifier with \<^verbatim>\<open>connect\<close>, which succeeds.
\<close>

record plugin_env =
  pe_bridge :: bool
  pe_rerank :: bool
  pe_config :: plugin_config
  pe_create :: bool
  pe_context :: bool
  pe_notifier :: bool

record session =
  ps_initialized :: bool
  ps_client :: bool
  ps_options :: filter_options
  ps_timeout_ms :: int
  ps_context_chars :: int
  ps_hook :: bool
  ps_sent :: "(bytes \<times> bytes \<times> bytes) list"

definition session_init :: session where
  "session_init = \<lparr>ps_initialized = False, ps_client = False,
     ps_options = \<lparr>fo_enabled = False, fo_protect_top_n = None, fo_max_rerank = None\<rparr>,
     ps_timeout_ms = 0, ps_context_chars = 0, ps_hook = False, ps_sent = []\<rparr>"

definition get_or :: "int option \<Rightarrow> int \<Rightarrow> int" where
  "get_or v d = (case v of None \<Rightarrow> d | Some i \<Rightarrow> i)"

text \<open>\<open>None\<close>: a Lua error.\<close>

definition attach_commit_hook :: "plugin_env \<Rightarrow> session \<Rightarrow> session option" where
  "attach_commit_hook pe s =
     (if ps_hook s then Some s
      else if \<not> pe_context pe then None
      else if \<not> pe_notifier pe then Some s
      else Some (s\<lparr>ps_hook := True\<rparr>))"

text \<open>\<^verbatim>\<open>M.init\<close>: the session it leaves, and whether it returned normally.\<close>

definition M_init :: "plugin_env \<Rightarrow> session \<Rightarrow> session \<times> bool" where
  "M_init pe s =
     (let s0 = s\<lparr>ps_client := False, ps_timeout_ms := 30, ps_context_chars := 20,
                 ps_options := \<lparr>fo_enabled = False, fo_protect_top_n = Some 3, fo_max_rerank = Some 10\<rparr>\<rparr> in
      if \<not> pe_bridge pe then (s0, True)
      else if \<not> pe_rerank pe then (s0, True)
      else
        let cfg = pe_config pe;
            opt_enabled = (case pc_enabled cfg of None \<Rightarrow> True | Some b \<Rightarrow> b);
            s1 = s0\<lparr>ps_timeout_ms := get_or (pc_timeout_ms cfg) 30,
                    ps_context_chars := get_or (pc_context_chars cfg) 20,
                    ps_options := \<lparr>fo_enabled = opt_enabled,
                       fo_protect_top_n = Some (get_or (pc_protect_top_n cfg) 3),
                       fo_max_rerank = Some (get_or (pc_max_rerank cfg) 10)\<rparr>\<rparr>
        in if pe_create pe then
             (let s2 = s1\<lparr>ps_client := True\<rparr> in
              case attach_commit_hook pe s2 of None \<Rightarrow> (s2, False) | Some s3 \<Rightarrow> (s3, True))
           else (s1\<lparr>ps_options := (ps_options s1)\<lparr>fo_enabled := False\<rparr>\<rparr>, True))"

definition M_fini :: "session \<Rightarrow> session" where
  "M_fini s = s\<lparr>ps_client := False\<rparr>"

text \<open>\<open>ask\<close> is the client's answer to the texts of the block.\<close>

definition M_func :: "session \<Rightarrow> (bytes list \<Rightarrow> lua_rerank) \<Rightarrow> bytes list \<Rightarrow> bytes list" where
  "M_func s ask texts = filter_func (ps_options s) texts (if ps_client s then Some ask else None)"

text \<open>The entry point of rime.lua; \<open>mod_ok\<close>: the filter module loaded.\<close>

definition dafeng_filter ::
  "bool \<Rightarrow> plugin_env \<Rightarrow> session \<Rightarrow> (bytes list \<Rightarrow> lua_rerank) \<Rightarrow> bytes list \<Rightarrow> session \<times> bytes list option" where
  "dafeng_filter mod_ok pe s ask texts =
     (if \<not> mod_ok then (s, Some texts)
      else if ps_initialized s then (s, Some (M_func s ask texts))
      else case M_init pe s of
        (s1, ok) \<Rightarrow>
          if \<not> ok then (s1, None)
          else let s2 = s1\<lparr>ps_initialized := True\<rparr> in (s2, Some (M_func s2 ask texts)))"

text \<open>The commit hook: the committed text, the input and the history as text, if it has one.\<close>

definition commit_hook :: "session \<Rightarrow> bytes \<Rightarrow> bytes \<Rightarrow> bytes option \<Rightarrow> session" where
  "commit_hook s committed code hist =
     (let before = (case hist of None \<Rightarrow> [] | Some h \<Rightarrow> trim_context h (ps_context_chars s))
      in if committed \<noteq> [] \<and> ps_client s then s\<lparr>ps_sent := ps_sent s @ [(code, committed, before)]\<rparr> else s)"

datatype plugin_event =
    Filter_event "bytes list \<Rightarrow> lua_rerank" "bytes list"
  | Commit_event bytes bytes "bytes option"

definition session_step :: "bool \<Rightarrow> plugin_env \<Rightarrow> session \<Rightarrow> plugin_event \<Rightarrow> session" where
  "session_step mod_ok pe s ev =
     (case ev of
        Filter_event ask texts \<Rightarrow> fst (dafeng_filter mod_ok pe s ask texts)
      | Commit_event committed code hist \<Rightarrow> if ps_hook s then commit_hook s committed code hist else s)"

section \<open>Every candidate is shown\<close>

lemma set_filter_func: "set (filter_func opts texts client) = set texts"
proof (cases "texts = [] \<or> \<not> fo_enabled opts \<or> client = None")
  case False
  then have "filter_func opts texts client = map (\<lambda>i. texts ! nat (i - 1)) (compute_order opts texts client)"
    by (auto simp: filter_func_def)
  then have "set (filter_func opts texts client) = (\<lambda>i. texts ! nat (i - 1)) ` {1..int (length texts)}"
    by (simp add: compute_order_set)
  also have "\<dots> = (!) texts ` {..<length texts}"
  proof -
    have "{..<length texts} = (\<lambda>i. nat (i - 1)) ` {1..int (length texts)}"
    proof
      show "{..<length texts} \<subseteq> (\<lambda>i. nat (i - 1)) ` {1..int (length texts)}"
        by (auto intro!: image_eqI [where x = "int _ + 1"])
    qed auto
    then show ?thesis by (simp add: image_image)
  qed
  also have "\<dots> = set texts" by (auto simp: set_conv_nth)
  finally show ?thesis .
qed (auto simp: filter_func_def)

text \<open>Whatever is configured and whatever the daemon answers, a filter call yields every candidate; it
  raises an error only when the session's context cannot be read while the hook is attached, and then again
  at every call, each time with a new client.\<close>

theorem filter_yields_all:
  assumes "dafeng_filter mod_ok pe s ask texts = (s', r)"
  shows "case r of
      Some ys \<Rightarrow> set ys = set texts
    | None \<Rightarrow> mod_ok \<and> pe_bridge pe \<and> pe_rerank pe \<and> pe_create pe \<and> \<not> pe_context pe \<and> \<not> ps_hook s
        \<and> \<not> ps_initialized s' \<and> snd (dafeng_filter mod_ok pe s' ask texts) = None"
  using assms
  by (auto simp: dafeng_filter_def M_func_def set_filter_func M_init_def attach_commit_hook_def Let_def
      split: if_splits option.splits)

section \<open>Commits\<close>

text \<open>The commit events of a list, with what the plugin should send for each.\<close>

definition commit_to_send :: "int \<Rightarrow> plugin_event \<Rightarrow> (bytes \<times> bytes \<times> bytes) option" where
  "commit_to_send chars ev =
     (case ev of
        Commit_event committed code hist \<Rightarrow>
          if committed = [] then None
          else Some (code, committed, case hist of None \<Rightarrow> [] | Some h \<Rightarrow> trim_context h chars)
      | _ \<Rightarrow> None)"

definition commits_to_send :: "int \<Rightarrow> plugin_event list \<Rightarrow> (bytes \<times> bytes \<times> bytes) list" where
  "commits_to_send chars evs = List.map_filter (commit_to_send chars) evs"

lemma session_step_ready:
  assumes "ps_initialized s" "ps_hook s" "ps_client s"
  shows "session_step True pe s ev = (case commit_to_send (ps_context_chars s) ev of
      None \<Rightarrow> s | Some c \<Rightarrow> s\<lparr>ps_sent := ps_sent s @ [c]\<rparr>)"
  using assms by (cases ev)
    (simp_all add: session_step_def dafeng_filter_def commit_to_send_def commit_hook_def Let_def)

lemma session_steps_ready:
  assumes "ps_initialized s" "ps_hook s" "ps_client s"
  shows "ps_sent (fold (\<lambda>ev s. session_step True pe s ev) evs s)
    = ps_sent s @ commits_to_send (ps_context_chars s) evs"
  using assms
proof (induction evs arbitrary: s)
  case (Cons ev evs)
  then show ?case
    by (cases "commit_to_send (ps_context_chars s) ev")
      (simp_all add: session_step_ready commits_to_send_def map_filter_simps)
qed (simp add: commits_to_send_def map_filter_simps)

text \<open>C19: From the first filter call on a session with a client and a commit notifier sends every
  non-empty commit to the daemon, in order and with the trimmed history, and it does so whether reranking
  is enabled in the schema or not: switching the filter off does not stop the recording.\<close>

theorem session_records_commits:
  assumes "pe_bridge pe" "pe_rerank pe" "pe_create pe" "pe_context pe" "pe_notifier pe"
  shows "ps_sent (fold (\<lambda>ev s. session_step True pe s ev) (Filter_event ask texts # evs) session_init)
      = commits_to_send (get_or (pc_context_chars (pe_config pe)) 20) evs
    \<and> fo_enabled (ps_options (session_step True pe session_init (Filter_event ask texts)))
        = (pc_enabled (pe_config pe) \<noteq> Some False)"
proof -
  let ?s = "session_step True pe session_init (Filter_event ask texts)"
  have s: "ps_initialized ?s" "ps_hook ?s" "ps_client ?s" "ps_sent ?s = []"
    "ps_context_chars ?s = get_or (pc_context_chars (pe_config pe)) 20"
    "fo_enabled (ps_options ?s) = (pc_enabled (pe_config pe) \<noteq> Some False)"
    using assms by (auto simp: session_step_def dafeng_filter_def M_init_def attach_commit_hook_def Let_def
        session_init_def split: option.split)
  then show ?thesis using session_steps_ready [OF s(1-3)] by simp
qed

definition disabled_plugin :: plugin_env where
  "disabled_plugin = \<lparr>pe_bridge = True, pe_rerank = True,
     pe_config = \<lparr>pc_enabled = Some False, pc_timeout_ms = None, pc_max_rerank = None,
       pc_protect_top_n = None, pc_context_chars = None\<rparr>,
     pe_create = True, pe_context = True, pe_notifier = True\<rparr>"

theorem session_records_commits_witness:
  "ps_sent (fold (\<lambda>ev s. session_step True disabled_plugin s ev)
     [Filter_event (\<lambda>_. Lua_Nil) [], Commit_event [1] [97] None] session_init) = [([97], [1], [])]"
  using session_records_commits [of disabled_plugin "\<lambda>_. Lua_Nil" "[]" "[Commit_event [1] [97] None]"]
  by (simp add: disabled_plugin_def commits_to_send_def commit_to_send_def get_or_def map_filter_simps)

end
