(* ===== verification/Rerank_Path.thy ===== *)
theory Rerank_Path
  imports Client_Correct Plugin_Session
begin

text \<open>
  A filter call from end to end: the Lua filter, the bridge, the C interface, the client, a Unix socket
  and a server whose backend keeps the contract \<open>reranker\<close>.
\<close>

section \<open>The pieces of the list\<close>

lemma slice_map:
  assumes "0 \<le> a" and "a \<le> b" and "b \<le> int (length xs)"
  shows "map (\<lambda>i. xs ! nat (i - 1)) [a + 1..b] = take (nat (b - a)) (drop (nat a) xs)"
proof (rule nth_equalityI)
  show len: "length (map (\<lambda>i. xs ! nat (i - 1)) [a + 1..b]) = length (take (nat (b - a)) (drop (nat a) xs))"
    using assms by auto
  fix k assume "k < length (map (\<lambda>i. xs ! nat (i - 1)) [a + 1..b])"
  then have k: "int k < b - a" by auto
  then have "nat (a + int k) = nat a + k" using assms(1) by (simp add: nat_add_distrib)
  with k assms show "map (\<lambda>i. xs ! nat (i - 1)) [a + 1..b] ! k = take (nat (b - a)) (drop (nat a) xs) ! k"
    by (simp add: nth_upto)
qed

lemma rerank_texts_slice:
  assumes "\<not> bypass opts True"
  shows "rerank_texts opts texts =
    take (nat (rerank_end opts (length texts) - protect_count opts (length texts)))
      (drop (nat (protect_count opts (length texts))) texts)"
  unfolding rerank_texts_def
  using order_bounds [of opts "length texts"] rerank_end_ge [OF assms] by (intro slice_map)

text \<open>Without an order from the daemon, or without a block, nothing moves.\<close>

lemma compute_order_unchanged:
  assumes "texts \<noteq> []" and "\<not> bypass opts True"
    and "given_indices (ask (rerank_texts opts texts)) = [] \<or> rerank_texts opts texts = []"
  shows "compute_order opts texts (Some ask) = [1..int (length texts)]"
proof -
  let ?p = "protect_count opts (length texts)" and ?e = "rerank_end opts (length texts)"
  have b: "0 \<le> ?p" "?p \<le> ?e" "?e \<le> int (length texts)"
    using order_bounds [of opts "length texts"] rerank_end_ge [OF assms(2)] by auto
  have "(if ?e \<ge> ?p + 1 then rerank_block ?p (?p + 1) ?e (ask (rerank_texts opts texts)) else []) = [?p + 1..?e]"
    using assms(3) b by (auto simp: rerank_block_def rerank_texts_def)
  moreover have "[1..?p] @ [?p + 1..?e] @ [?e + 1..int (length texts)] = [1..int (length texts)]"
    using b by (rule upto_pieces)
  ultimately show ?thesis
    unfolding compute_order_pieces [OF assms(1,2)] Let_def by simp
qed

text \<open>Positions of a block in the order \<open>js\<close>, which counts from 0 within the block.\<close>

lemma rerank_block_given:
  assumes "given_indices r = map (\<lambda>j. int j + 1) js" and "mset js = mset [0..<k]" and "0 < k"
  shows "rerank_block p (p + 1) (p + int k) r = map (\<lambda>j. int j + 1 + p) js"
proof -
  have set: "set js = {..<k}" using mset_eq_setD [OF assms(2)] by (simp add: lessThan_atLeast0)
  let ?es = "map (\<lambda>j. int j + 1 + p) js"
  have "filter (\<lambda>a. p + 1 \<le> a \<and> a \<le> p + int k) ?es = ?es"
    unfolding filter_id_conv set_map set by auto
  moreover have "filter (\<lambda>a. a \<notin> set ?es) [p + 1..p + int k] = []"
  proof -
    have "a \<in> set ?es" if "p + 1 \<le> a" "a \<le> p + int k" for a
    proof -
      have "nat (a - p - 1) \<in> set js" "a = int (nat (a - p - 1)) + 1 + p" using that set by auto
      then show ?thesis by (metis (mono_tags, lifting) image_eqI list.set_map)
    qed
    then show ?thesis by (auto simp: filter_empty_conv simp del: set_map)
  qed
  moreover have "0 \<in> set js" unfolding set using assms(3) by simp
  then have "js \<noteq> []" by auto
  ultimately show ?thesis
    by (simp add: rerank_block_def assms(1) comp_def Let_def)
qed

lemma filter_func_unchanged:
  assumes "given_indices (ask (rerank_texts opts texts)) = [] \<or> rerank_texts opts texts = []
    \<or> bypass opts True \<or> texts = [] \<or> \<not> fo_enabled opts"
  shows "filter_func opts texts (Some ask) = texts"
proof -
  have "map (\<lambda>i. texts ! nat (i - 1)) [1..int (length texts)] = texts"
    using slice_map [of 0 "int (length texts)" texts] by simp
  then show ?thesis
    using assms compute_order_bypass [of "Some ask" opts texts] compute_order_unchanged [of texts opts ask]
    by (cases "bypass opts True") (auto simp: filter_func_def)
qed

text \<open>What the filter shows: the texts, or the block in the given order.\<close>

lemma filter_func_given:
  assumes "length (rerank_texts opts texts) = k"
    and "given_indices (ask (rerank_texts opts texts)) = map (\<lambda>j. int j + 1) js" and "mset js = mset [0..<k]"
  shows "filter_func opts texts (Some ask) = texts
    \<or> filter_func opts texts (Some ask) = take (nat (protect_count opts (length texts))) texts
        @ map ((!) (rerank_texts opts texts)) js @ drop (nat (protect_count opts (length texts)) + k) texts"
proof (cases "texts = [] \<or> \<not> fo_enabled opts \<or> bypass opts True \<or> k = 0")
  case True
  then have "rerank_texts opts texts = [] \<or> bypass opts True \<or> texts = [] \<or> \<not> fo_enabled opts"
    using assms(1) by auto
  then show ?thesis by (rule disjI1 [OF filter_func_unchanged [OF disjI2]])
next
  case False
  let ?n = "length texts"
  let ?p = "protect_count opts ?n" and ?e = "rerank_end opts ?n" and ?block = "rerank_texts opts texts"
  have b: "0 \<le> ?p" "?p \<le> ?e" "?e \<le> int ?n" "?e = ?p + int k"
    using False assms(1) order_bounds [of opts ?n] rerank_end_ge [of opts ?n]
    by (auto simp: rerank_texts_slice)
  have "compute_order opts texts (Some ask)
      = [1..?p] @ map (\<lambda>j. int j + 1 + ?p) js @ [?e + 1..int ?n]"
    using False compute_order_pieces [of texts opts ask] b(4) rerank_block_given [OF assms(2,3), of ?p]
    by (simp add: Let_def)
  moreover have "map (\<lambda>i. texts ! nat (i - 1)) [1..?p] = take (nat ?p) texts"
    "map (\<lambda>i. texts ! nat (i - 1)) [?e + 1..int ?n] = drop (nat ?e) texts"
    using slice_map [of 0 ?p texts] slice_map [of ?e "int ?n" texts] b by simp_all
  moreover have "map (\<lambda>i. texts ! nat (i - 1)) (map (\<lambda>j. int j + 1 + ?p) js) = map ((!) ?block) js"
  proof -
    have "texts ! nat (int j + ?p) = ?block ! j" if "j \<in> set js" for j
      using that mset_eq_setD [OF assms(3)] b False
      by (auto simp: rerank_texts_slice nat_add_distrib add.commute)
    then show ?thesis by simp
  qed
  moreover have "nat ?e = nat ?p + k" using b by simp
  ultimately show ?thesis using False by (simp add: filter_func_def)
qed

lemma permuted_pieces:
  assumes "mset js = mset [0..<length block]" and "block = take m (drop p xs)"
  shows "mset (take p xs @ map ((!) block) js @ drop (p + length block) xs) = mset xs"
proof -
  have "mset (map ((!) block) js) = image_mset ((!) block) (mset [0..<length block])"
    using assms(1) by simp
  also have "\<dots> = mset block" by (metis map_nth mset_map)
  finally have "mset (map ((!) block) js) = mset block" .
  moreover have "block @ drop (length block) (drop p xs) = drop p xs"
    unfolding assms(2) by (cases "m \<le> length (drop p xs)") (simp_all del: drop_drop)
  then have "take p xs @ block @ drop (p + length block) xs = xs"
    by (simp add: add.commute)
  ultimately show ?thesis by (metis mset_append)
qed

section \<open>The call\<close>

text \<open>The request the bridge makes of a block.\<close>

definition bridge_request :: "bytes \<Rightarrow> bytes \<Rightarrow> bytes \<Rightarrow> bytes list \<Rightarrow> RerankRequest" where
  "bridge_request code ctx app cands =
     c_request (Some (c_str code)) (Some (c_str ctx)) (map (\<lambda>c. Some (c_str c)) cands) (Some (c_str app))"

lemma sint_small: "unat (i :: i32) < 2 ^ 31 \<Longrightarrow> sint i = int (unat i)"
proof -
  assume "unat i < 2 ^ 31"
  then have "int (unat i) < int (2 ^ 31)" by (simp only: of_nat_less_iff)
  then have upper: "uint i < 2 ^ 31" by simp
  have lower: "- (2 ^ 31) \<le> uint i" by (rule order_trans [of _ 0]) simp_all
  show ?thesis using signed_take_bit_int_eq_self [OF lower upper] by (simp add: sint_uint)
qed

text \<open>The bridge gives Lua the client's order, counted from 1, or no order.\<close>

lemma bridge_indices:
  assumes "br_client b = Some st" and "cands \<noteq> []"
    and "bridge_rerank mp ops connect malloc_ok b code ctx cands app = (b', result)"
    and "given_indices result \<noteq> []"
  shows "\<exists>st' resp. Client_Rerank mp ops connect st (bridge_request code ctx app cands) = (st', Some resp)
    \<and> given_indices result = map (\<lambda>i. sint i + 1) (rs_reordered_indices resp)"
  using assms
  by (auto simp: bridge_rerank_def l_rerank_def dafeng_client_rerank_def bridge_request_def given_indices_def comp_def
      split: prod.splits option.splits if_splits)

text \<open>C5: A filter call through the bridge, the client and a socket that is in step with the server shows
  every candidate exactly once, whether or not the call succeeds: either the list is unchanged, or the
  block after the protected prefix is in the order of the server's answer to this very request, and the
  prefix and the tail are unchanged.\<close>

theorem filter_call_permutes:
  assumes "msgpack_api mp" and "reranker (se_rerank env)"
    and "br_client b = Some st" and "cl_conn st = Some c" "Unix_IsConnected c"
    and "in_sync mp env sv uc_kin uc_kout stream ms c"
    and "req = (bridge_request code ctx app (rerank_texts opts texts)) \<lparr>rq_request_id := cl_next_request_id st\<rparr>"
    and "server_agrees mp env sv stream (ms @ [M_RerankRequest req])"
    and "\<forall>lat. sendable mp (M_RerankResponse (se_rerank env lat req))"
    and "length texts < 2 ^ 31"
    and "filter_func opts texts
      (Some (\<lambda>block. snd (bridge_rerank mp unix_ops connect malloc_ok b code ctx block app))) = shown"
  shows "mset shown = mset texts
    \<and> (shown = texts \<or> (\<exists>lat. shown = take (nat (protect_count opts (length texts))) texts
          @ map ((!) (rerank_texts opts texts)) (order_of (se_rerank env lat req))
          @ drop (nat (protect_count opts (length texts)) + length (rerank_texts opts texts)) texts))"
proof -
  let ?block = "rerank_texts opts texts" and ?p = "nat (protect_count opts (length texts))"
  let ?ask = "\<lambda>block. snd (bridge_rerank mp unix_ops connect malloc_ok b code ctx block app)"
  let ?result = "?ask ?block"
  show ?thesis
  proof (cases "given_indices ?result = [] \<or> ?block = [] \<or> bypass opts True \<or> texts = [] \<or> \<not> fo_enabled opts")
    case True
    then have "shown = texts" unfolding assms(11) [symmetric] by (intro filter_func_unchanged)
    then show ?thesis by simp
  next
    case False
    obtain b' where br: "bridge_rerank mp unix_ops connect malloc_ok b code ctx ?block app = (b', ?result)"
      by (metis prod.collapse)
    obtain st' resp where call: "Client_Rerank mp unix_ops connect st (bridge_request code ctx app ?block) = (st', Some resp)"
      and given: "given_indices ?result = map (\<lambda>i. sint i + 1) (rs_reordered_indices resp)"
      using bridge_indices [OF assms(3) _ br] False by blast
    obtain lat where resp: "resp = se_rerank env lat req"
      using unix.rerank_in_sync [OF assms(1,2,4) _ assms(6) _ _ call] assms(5,7-9) by (auto simp: unix_ops_def)
    have block: "?block = take (nat (rerank_end opts (length texts) - protect_count opts (length texts))) (drop ?p texts)"
      using False by (intro rerank_texts_slice) simp
    have "length ?block \<le> length texts" unfolding block by simp
    then have few: "length ?block < 2 ^ 31" using assms(10) by simp
    have cands: "length (rq_candidates req) = length ?block"
      by (simp add: assms(7) bridge_request_def c_request_def)
    have perm: "mset (order_of resp) = mset [0..<length ?block]"
      using reranker.permutes [OF assms(2), of req lat] few by (simp add: few_candidates_def cands resp)
    have "unat i < 2 ^ 31" if "i \<in> set (rs_reordered_indices resp)" for i
    proof -
      have "unat i \<in> set (order_of resp)" using that by (simp add: order_of_def)
      then show ?thesis using mset_eq_setD [OF perm] few by auto
    qed
    then have "given_indices ?result = map (\<lambda>j. int j + 1) (order_of resp)"
      by (simp add: given order_of_def sint_small)
    from filter_func_given [where ask = ?ask, OF refl this perm] have
      "shown = texts \<or> shown = take ?p texts @ map ((!) ?block) (order_of resp) @ drop (?p + length ?block) texts"
      using assms(11) by simp
    moreover have "mset (take ?p texts @ map ((!) ?block) (order_of resp) @ drop (?p + length ?block) texts) = mset texts"
      using permuted_pieces [OF perm block] .
    ultimately show ?thesis unfolding resp by metis
  qed
qed

section \<open>A concrete call\<close>

text \<open>The first candidate is protected; the mock server reverses the other two.\<close>

definition two_options :: filter_options where
  "two_options = \<lparr>fo_enabled = True, fo_protect_top_n = Some 1, fo_max_rerank = Some 10\<rparr>"

definition two_bridge :: "UnixConnection bridge" where
  "two_bridge = \<lparr>br_client = Some two_client, br_deleted = 0\<rparr>"

definition two_shown :: "bytes list" where
  "two_shown = filter_func two_options [[7], [1], [2]]
     (Some (\<lambda>block. snd (bridge_rerank msgpack_std unix_ops (\<lambda>_. None) True two_bridge [] [] block [])))"

lemma two_block: "rerank_texts two_options [[7], [1], [2]] = [[1], [2]]"
  by (simp add: rerank_texts_def two_options_def protect_count_def rerank_end_def upto_rec1)

lemma two_bridge_request: "bridge_request [] [] [] [[1], [2]] = two_request"
  by (simp add: bridge_request_def c_request_def or_empty_def two_request_def RerankRequest_init_def c_str_def)

theorem filter_call_permutes_witness:
  "mset two_shown = mset [[7], [1], [2]] \<and> two_shown \<in> {[[7], [1], [2]], [[7], [2], [1]]}"
proof -
  let ?req = "two_request \<lparr>rq_request_id := cl_next_request_id two_client\<rparr>"
  have replies: "snd (serve mock_env (Server_init ()) [M_RerankRequest ?req]) = [M_RerankResponse two_response]"
    using two_answer [of 3]
    by (simp add: two_client_def handle_message_def mock_env_def Let_def two_response_def)
  obtain c where c: "cl_conn two_client = Some c" "Unix_IsConnected c" "uc_kin c = two_stream" "uc_kout c = []"
    by (simp add: two_client_def Unix_IsConnected_def)
  have order: "order_of (se_rerank mock_env lat ?req) = [1, 0]" for lat
    using two_answer [of lat] by (simp add: mock_env_def two_client_def order_of_def two_response_def)
  have count: "protect_count two_options (length [[7], [1], [2 :: byte]]) = 1" by (simp add: two_options_def protect_count_def)
  have "mset two_shown = mset [[7], [1], [2]]
    \<and> (two_shown = [[7], [1], [2]] \<or> (\<exists>lat. two_shown = take (nat (protect_count two_options (length [[7], [1], [2 :: byte]]))) [[7], [1], [2]]
        @ map ((!) (rerank_texts two_options [[7], [1], [2]])) (order_of (se_rerank mock_env lat ?req))
        @ drop (nat (protect_count two_options (length [[7], [1], [2 :: byte]])) + length (rerank_texts two_options [[7], [1], [2]]))
            [[7], [1], [2]]))"
  proof (rule filter_call_permutes [OF std.msgpack_api_axioms _ _ c(1,2) _ _ _ _ _ two_shown_def [symmetric]])
    show "reranker (se_rerank mock_env)" by (simp add: mock_env_def mock.reranker_axioms)
    show "br_client two_bridge = Some two_client" by (simp add: two_bridge_def)
    show "in_sync msgpack_std mock_env (Server_init ()) uc_kin uc_kout two_stream [] c"
      using c by (simp add: in_sync_def)
    show "?req = bridge_request [] [] [] (rerank_texts two_options [[7], [1], [2]])
        \<lparr>rq_request_id := cl_next_request_id two_client\<rparr>"
      by (simp add: two_block two_bridge_request)
    show "server_agrees msgpack_std mock_env (Server_init ()) two_stream ([] @ [M_RerankRequest ?req])"
      unfolding server_agrees_def append_Nil replies by (simp add: two_stream_def)
    show "\<forall>lat. sendable msgpack_std (M_RerankResponse (se_rerank mock_env lat ?req))"
      using two_response_sendable two_answer by (simp add: two_client_def mock_env_def)
  qed simp
  then show ?thesis by (simp only: order two_block count) auto
qed

end
