(* ===== verification/Server_Counters.thy ===== *)
theory Server_Counters
  imports Server
begin

text \<open>
  The counter updates of server.cc under concurrency.  The daemon runs a detached thread per
  client, and all of them update the same atomics.  A worker that has a backend's response
  goes through the atomic operations of the rerank branch one at a time; \<open>run_step\<close> lets any
  worker take its next one.  \<^verbatim>\<open>compare_exchange_weak\<close> may fail spuriously, and a failure
  reloads the expected value.
\<close>

datatype worker =
    Called RerankResponse
  | Counted RerankResponse
  | Summed RerankResponse
  | Looping RerankResponse u32
  | Maxed RerankResponse
  | Finished RerankResponse

inductive worker_step :: "worker \<Rightarrow> 'l Server \<Rightarrow> worker \<Rightarrow> 'l Server \<Rightarrow> bool" where
  count: "worker_step (Called r) st (Counted r) (st \<lparr>sv_rerank_count := sv_rerank_count st + 1\<rparr>)"
| sum: "worker_step (Counted r) st (Summed r)
    (st \<lparr>sv_rerank_latency_sum_us := sv_rerank_latency_sum_us st + ucast (rs_latency_us r)\<rparr>)"
| load: "worker_step (Summed r) st (Looping r (sv_rerank_latency_max_us st)) st"
| exit: "\<not> rs_latency_us r > prev_max \<Longrightarrow> worker_step (Looping r prev_max) st (Maxed r) st"
| cas: "rs_latency_us r > prev_max \<Longrightarrow> sv_rerank_latency_max_us st = prev_max \<Longrightarrow>
    worker_step (Looping r prev_max) st (Maxed r) (st \<lparr>sv_rerank_latency_max_us := rs_latency_us r\<rparr>)"
| cas_fail: "rs_latency_us r > prev_max \<Longrightarrow>
    worker_step (Looping r prev_max) st (Looping r (sv_rerank_latency_max_us st)) st"
| version: "worker_step (Maxed r) st (Finished r)
    (st \<lparr>sv_rerank_model_version := rs_model_version r\<rparr>)"

inductive_cases worker_stepE: "worker_step w st w' st'"

inductive run_step :: "worker list \<times> 'l Server \<Rightarrow> worker list \<times> 'l Server \<Rightarrow> bool" where
  "i < length ws \<Longrightarrow> worker_step (ws ! i) st w' st' \<Longrightarrow> run_step (ws, st) (ws[i := w'], st')"

inductive_simps run_step_simp: "run_step (ws, st) (ws', st')"

fun response_of :: "worker \<Rightarrow> RerankResponse" where
  "response_of (Called r) = r"
| "response_of (Counted r) = r"
| "response_of (Summed r) = r"
| "response_of (Looping r _) = r"
| "response_of (Maxed r) = r"
| "response_of (Finished r) = r"

fun counted :: "worker \<Rightarrow> u64" where
  "counted (Called _) = 0"
| "counted _ = 1"

fun summed :: "worker \<Rightarrow> u64" where
  "summed (Called _) = 0"
| "summed (Counted _) = 0"
| "summed w = ucast (rs_latency_us (response_of w))"

fun max_seen :: "worker \<Rightarrow> u32 \<Rightarrow> bool" where
  "max_seen (Looping _ prev_max) m \<longleftrightarrow> prev_max \<le> m"
| "max_seen (Maxed r) m \<longleftrightarrow> rs_latency_us r \<le> m"
| "max_seen (Finished r) m \<longleftrightarrow> rs_latency_us r \<le> m"
| "max_seen _ m \<longleftrightarrow> True"

fun finished :: "worker \<Rightarrow> bool" where
  "finished (Finished _) = True"
| "finished _ = False"

lemma sum_list_replace:
  fixes f :: "'a \<Rightarrow> 'b :: ab_group_add"
  shows "i < length ws \<Longrightarrow> sum_list (map f (ws[i := w])) = sum_list (map f ws) - f (ws ! i) + f w"
  by (induction ws arbitrary: i) (auto split: nat.splits simp: algebra_simps)

text \<open>The invariant of a run that started with the responses \<open>rs\<close> from the counters \<open>s0\<close>.\<close>

definition counters_inv :: "RerankResponse list \<Rightarrow> 'l Server \<Rightarrow> worker list \<times> 'l Server \<Rightarrow> bool" where
  "counters_inv rs s0 = (\<lambda>(ws, st). map response_of ws = rs
     \<and> sv_rerank_count st = sv_rerank_count s0 + sum_list (map counted ws)
     \<and> sv_rerank_latency_sum_us st = sv_rerank_latency_sum_us s0 + sum_list (map summed ws)
     \<and> sv_rerank_latency_max_us s0 \<le> sv_rerank_latency_max_us st
     \<and> (\<forall>w \<in> set ws. max_seen w (sv_rerank_latency_max_us st))
     \<and> sv_rerank_latency_max_us st \<in> insert (sv_rerank_latency_max_us s0) (rs_latency_us ` set rs))"

lemma worker_step_response: "worker_step w st w' st' \<Longrightarrow> response_of w' = response_of w"
  by (induction rule: worker_step.induct) simp_all

lemma worker_step_count:
  "worker_step w st w' st' \<Longrightarrow>
     sv_rerank_count st' - counted w' = sv_rerank_count st - counted w
     \<and> sv_rerank_latency_sum_us st' - summed w' = sv_rerank_latency_sum_us st - summed w"
  by (induction rule: worker_step.induct) simp_all

lemma worker_step_max:
  "worker_step w st w' st' \<Longrightarrow> max_seen w (sv_rerank_latency_max_us st) \<Longrightarrow>
     sv_rerank_latency_max_us st \<le> sv_rerank_latency_max_us st'
     \<and> max_seen w' (sv_rerank_latency_max_us st')
     \<and> sv_rerank_latency_max_us st' \<in> {sv_rerank_latency_max_us st, rs_latency_us (response_of w)}"
  by (induction rule: worker_step.induct) auto

lemma max_seen_mono: "max_seen w m \<Longrightarrow> m \<le> m' \<Longrightarrow> max_seen w m'"
  by (cases w) auto

lemma counters_inv_step:
  assumes "run_step (ws, st) (ws', st')" and inv: "counters_inv rs s0 (ws, st)"
  shows "counters_inv rs s0 (ws', st')"
proof -
  obtain i w' where i: "i < length ws" "worker_step (ws ! i) st w' st'" "ws' = ws[i := w']"
    using assms(1) by (auto simp: run_step_simp)
  have seen: "max_seen (ws ! i) (sv_rerank_latency_max_us st)"
    using inv i(1) by (simp add: counters_inv_def)
  note m = worker_step_max [OF i(2) seen]
  have resp: "map response_of ws' = rs"
    using inv i worker_step_response [OF i(2)] by (simp add: counters_inv_def map_update list_update_id)
      (metis list_update_id nth_map)
  have all: "\<forall>w \<in> set ws'. max_seen w (sv_rerank_latency_max_us st')"
  proof
    fix w assume "w \<in> set ws'"
    then have "w = w' \<or> w \<in> set ws"
      using set_update_subset_insert [of ws i w'] i(3) by auto
    then show "max_seen w (sv_rerank_latency_max_us st')"
      using m inv max_seen_mono [of w "sv_rerank_latency_max_us st"] by (auto simp: counters_inv_def)
  qed
  have in_rs: "response_of (ws ! i) \<in> set rs"
    using inv i(1) by (auto simp: counters_inv_def)
  show ?thesis
    using inv worker_step_count [OF i(2)] m resp all in_rs i
    by (auto simp: counters_inv_def sum_list_replace algebra_simps)
qed

lemma counters_inv_run:
  "run_step\<^sup>*\<^sup>* x y \<Longrightarrow> counters_inv rs s0 x \<Longrightarrow> counters_inv rs s0 y"
  by (induction rule: rtranclp_induct) (metis counters_inv_step surj_pair)+

lemma counters_inv_start: "counters_inv rs s0 (map Called rs, s0)"
  by (simp add: counters_inv_def comp_def)

section \<open>No worker is ever stuck\<close>

definition worker_run :: "worker \<times> 'l Server \<Rightarrow> worker \<times> 'l Server \<Rightarrow> bool" where
  "worker_run = (\<lambda>(w, st) (w', st'). worker_step w st w' st')\<^sup>*\<^sup>*"

lemma worker_run_step:
  assumes "worker_step w st w' st'" and "\<exists>st''. worker_run (w', st') (v, st'')"
  shows "\<exists>st''. worker_run (w, st) (v, st'')"
proof -
  obtain st'' where "worker_run (w', st') (v, st'')" using assms(2) by blast
  then have "worker_run (w, st) (v, st'')"
    unfolding worker_run_def
    by (rule converse_rtranclp_into_rtranclp [where b = "(w', st')", rotated]) (simp add: assms(1))
  then show ?thesis by blast
qed

lemma worker_run_refl: "\<exists>st'. worker_run (w, st) (w, st')"
  unfolding worker_run_def by blast

lemma worker_run_maxed: "\<exists>st'. worker_run (Maxed r, st) (Finished r, st')"
  by (rule worker_run_step [OF worker_step.version worker_run_refl])

lemma worker_run_loaded:
  "\<exists>st'. worker_run (Looping r (sv_rerank_latency_max_us st), st) (Finished r, st')"
proof (cases "rs_latency_us r > sv_rerank_latency_max_us st")
  case True
  show ?thesis by (rule worker_run_step [OF worker_step.cas [OF True refl] worker_run_maxed])
next
  case False
  show ?thesis by (rule worker_run_step [OF worker_step.exit [OF False] worker_run_maxed])
qed

lemma worker_run_looping: "\<exists>st'. worker_run (Looping r p, st) (Finished r, st')"
proof (cases "rs_latency_us r > p")
  case True
  show ?thesis by (rule worker_run_step [OF worker_step.cas_fail [OF True] worker_run_loaded])
next
  case False
  show ?thesis by (rule worker_run_step [OF worker_step.exit [OF False] worker_run_maxed])
qed

lemma worker_run_finishes: "\<exists>st'. worker_run (w, st) (Finished (response_of w), st')"
proof -
  have summed: "\<exists>st'. worker_run (Summed r, st) (Finished r, st')" for r and st :: "'a Server"
    by (rule worker_run_step [OF worker_step.load worker_run_loaded])
  have counted: "\<exists>st'. worker_run (Counted r, st) (Finished r, st')" for r and st :: "'a Server"
    by (rule worker_run_step [OF worker_step.sum summed])
  have called: "\<exists>st'. worker_run (Called r, st) (Finished r, st')" for r and st :: "'a Server"
    by (rule worker_run_step [OF worker_step.count counted])
  show ?thesis
    by (cases w) (simp_all add: called counted summed worker_run_looping worker_run_maxed worker_run_refl)
qed

lemma worker_run_lift:
  assumes "worker_run x y" and "i < length ws"
  shows "run_step\<^sup>*\<^sup>* (ws[i := fst x], snd x) (ws[i := fst y], snd y)"
  using assms(1) unfolding worker_run_def
proof (induction rule: rtranclp_induct)
  case (step y z)
  have "run_step (ws[i := fst y], snd y) (ws[i := fst y, i := fst z], snd z)"
    using step(2) assms(2) by (intro run_step.intros) (auto split: prod.splits)
  with step(3) show ?case by (simp add: rtranclp.rtrancl_into_rtrancl)
qed simp

lemma all_finish:
  "k \<le> length ws \<Longrightarrow> \<exists>st'. run_step\<^sup>*\<^sup>* (ws, st)
     (map (\<lambda>w. Finished (response_of w)) (take k ws) @ drop k ws, st')"
proof (induction k)
  case (Suc k)
  then obtain st1 where r: "run_step\<^sup>*\<^sup>* (ws, st)
      (map (\<lambda>w. Finished (response_of w)) (take k ws) @ drop k ws, st1)" (is "run_step\<^sup>*\<^sup>* _ (?v, _)")
    by auto
  have k: "k < length ws" using Suc.prems by simp
  have vk: "?v ! k = ws ! k" "k < length ?v" using k by (simp_all add: nth_append)
  obtain st2 where "worker_run (ws ! k, st1) (Finished (response_of (ws ! k)), st2)"
    using worker_run_finishes by blast
  from worker_run_lift [OF this vk(2)]
  have "run_step\<^sup>*\<^sup>* (?v, st1) (?v[k := Finished (response_of (ws ! k))], st2)"
    using vk(1) by (simp only: fst_conv snd_conv) (metis list_update_id)
  moreover have "?v[k := Finished (response_of (ws ! k))]
      = map (\<lambda>w. Finished (response_of w)) (take (Suc k) ws) @ drop (Suc k) ws"
    using k by (simp add: take_Suc_conv_app_nth list_update_append flip: Cons_nth_drop_Suc)
  ultimately show ?case using r by (metis rtranclp_trans)
qed auto

text \<open>C15: Any number of worker threads may run the rerank branch of \<^verbatim>\<open>HandleConnection\<close> at the
  same time, their atomic operations interleaved in any way and with spurious failures of
  \<^verbatim>\<open>compare_exchange_weak\<close>: once all have finished, the count and the latency sum have grown by
  exactly their contributions (modulo 2^64) and the maximum is the largest of the old maximum and all
  latencies.\<close>

theorem concurrent_counters:
  assumes "run_step\<^sup>*\<^sup>* (map Called rs, s0) (ws, st)" and "list_all finished ws"
  shows "sv_rerank_count st = sv_rerank_count s0 + of_nat (length rs)
    \<and> sv_rerank_latency_sum_us st
        = sv_rerank_latency_sum_us s0 + sum_list (map (\<lambda>r. ucast (rs_latency_us r)) rs)
    \<and> sv_rerank_latency_max_us st = fold max (map rs_latency_us rs) (sv_rerank_latency_max_us s0)"
proof -
  have inv: "counters_inv rs s0 (ws, st)"
    using counters_inv_run [OF assms(1) counters_inv_start] .
  have "finished w \<Longrightarrow> Finished (response_of w) = w" for w by (cases w) auto
  then have "map (\<lambda>w. Finished (response_of w)) ws = ws"
    using assms(2) by (intro map_idI) (auto simp: list_all_iff)
  then have "map Finished (map response_of ws) = ws" by (simp add: comp_def)
  moreover have "map response_of ws = rs" using inv by (simp add: counters_inv_def)
  ultimately have ws: "ws = map Finished rs" by simp
  let ?m = "sv_rerank_latency_max_us st" and ?old = "sv_rerank_latency_max_us s0"
  have le0: "?old \<le> ?m" and le: "\<And>r. r \<in> set rs \<Longrightarrow> rs_latency_us r \<le> ?m"
    and mem: "?m \<in> set (?old # map rs_latency_us rs)"
    using inv by (simp_all add: counters_inv_def ws)
  have "Max (set (?old # map rs_latency_us rs)) = ?m"
    by (rule Max_eqI [OF _ _ mem]) (use le0 le in auto)
  then have "?m = fold max (map rs_latency_us rs) ?old"
    by (simp only: Max.set_eq_fold)
  moreover have "sum_list (map counted (map Finished rs)) = of_nat (length rs)"
    by (induction rs) simp_all
  moreover have "sum_list (map (summed \<circ> Finished) rs) = sum_list (map (\<lambda>r. ucast (rs_latency_us r)) rs)"
    by (induction rs) simp_all
  ultimately show ?thesis
    using inv by (simp add: counters_inv_def ws)
qed

definition demo_response :: "u32 \<Rightarrow> RerankResponse" where
  "demo_response lat = RerankResponse_init \<lparr>rs_latency_us := lat\<rparr>"

theorem concurrent_counters_witness:
  "\<exists>ws st. run_step\<^sup>*\<^sup>* (map Called [demo_response 5, demo_response 9], Server_init ()) (ws, st)
     \<and> sv_rerank_count st = 2 \<and> sv_rerank_latency_sum_us st = 14 \<and> sv_rerank_latency_max_us st = 9"
proof -
  obtain st where r: "run_step\<^sup>*\<^sup>* (map Called [demo_response 5, demo_response 9], Server_init ())
      ([Finished (demo_response 5), Finished (demo_response 9)], st)"
    using all_finish [of 2 "map Called [demo_response 5, demo_response 9]" "Server_init ()"] by auto
  then show ?thesis
    using concurrent_counters [OF r] by (auto simp: Server_init_def demo_response_def max_def intro!: exI)
qed

end
