(* ===== verification/Spec2Isabelle.thy ===== *)
theory Spec2Isabelle
  imports Auto_Learn_Correct Cli_Correct End_To_End Endpoint_Win Llama_Backend Rerank_Path Server_Counters
begin

text \<open>
  Verification of dafeng-wubi, a companion of the RIME Wubi 86 input method: a daemon reranks the
  candidates of the input method, records what the user commits, learns phrases and character pairs
  from that history and writes them where RIME reads them.

  \<^bold>\<open>The program.\<close>  The Lua filter inside the input method (src/plugin) calls, through the C
  interface, the client (src/client), which sends length-prefixed msgpack messages (src/common) over a
  Unix socket or a Windows pipe to the daemon (src/daemon).  The daemon's server answers reranks with
  one of four backends, counts, and hands commits to the history store.  A background thread runs
  learning rounds over the history: discovered phrases, bigram counts, the RIME dictionary, a sentinel
  and a local git commit.  src/cli is a command line client for all of it.

  \<^bold>\<open>Theories and sources.\<close>
  \<^item> \<open>Dafeng_Prelude\<close>, \<open>Text_Output\<close>: machine types, association lists as unordered maps, the
    promises of \<^verbatim>\<open>std::sort\<close>, \<^verbatim>\<open>std::stable_sort\<close> and
    \<^verbatim>\<open>std::partial_sort\<close> (locales \<open>compare\<close>, \<open>std_sort\<close>, \<open>partial_sort\<close>), printed and
    read numbers.
  \<^item> \<open>Wire_Types\<close>, \<open>Msgpack_Api\<close>, \<open>Wire_Protocol\<close>, \<open>Wire_Correct\<close>: types.h, protocol.h and
    protocol.cc over a msgpack library with stated laws (locale \<open>msgpack_api\<close>);
    \<open>Msgpack_Format\<close> implements the msgpack format and shows that the laws hold of it.
  \<^item> \<open>Float32\<close>, \<open>Rerankers\<close>, \<open>Rerank_Scores\<close>, \<open>Llama_Backend\<close>: the backends, with single
    precision arithmetic on bit patterns; contract \<open>reranker\<close>, interpreted by every backend.
  \<^item> \<open>Connection_Api\<close>, \<open>Endpoint_Unix\<close>, \<open>Endpoint_Win\<close>, \<open>Frame_IO\<close>: the interface
    \<^verbatim>\<open>Connection\<close> (locale \<open>connection\<close>), provided by both endpoints, and reading and writing
    of whole messages over it.
  \<^item> \<open>Server\<close>, \<open>Server_Correct\<close>, \<open>Server_Counters\<close>, \<open>Client\<close>, \<open>Client_Correct\<close>: server.cc and
    client.cc over any \<open>connection\<close>.
  \<^item> \<open>Plugin\<close>, \<open>Plugin_Session\<close>: client_c.cc, dafeng_lua_bridge.c and the Lua files.
  \<^item> \<open>Utf8_Text\<close>: the UTF-8 scanners of three files (locale \<open>utf8_scanner\<close>); \<open>Utf8_Valid\<close>: what
    well-formed UTF-8 is, for the readers of the files that are written.
  \<^item> \<open>Files\<close>, \<open>Ngram\<close>, \<open>Ngram_Correct\<close>, \<open>Ngram_History\<close>, \<open>New_Word\<close>, \<open>New_Word_Correct\<close>,
    \<open>Wubi_Codec\<close>, \<open>User_Dict\<close>: file replacement, ngram.cc, new_word.cc, wubi_codec.cc and
    user_dict.cc; the counter interface is the locale \<open>ngram_table\<close>.
  \<^item> \<open>History_Types\<close>, \<open>History_Store\<close>, \<open>History_Correct\<close>, \<open>Git_Sync\<close>: history_store.cc over
    SQLite and git_sync.cc over libgit2, each library a record of its calls with its documented
    promises as a locale (\<open>sqlite\<close>, \<open>libgit2\<close>); \<open>history_store\<close> is what the learner uses.
  \<^item> \<open>Learning_Round\<close>, \<open>Learning_Correct\<close>, \<open>Shell\<close>, \<open>Auto_Learn\<close>, \<open>Auto_Learn_Correct\<close>:
    learning_round.cc and auto_learn.cc, with how a POSIX shell splits a command line.
  \<^item> \<open>Paths\<close>, \<open>Logging\<close>, \<open>Daemon_Main\<close>, \<open>Daemon_Correct\<close>: paths_mac.cc, paths_win.cc,
    logging.cc and daemon/main.cc.
  \<^item> \<open>Cli\<close>, \<open>Cli_Main\<close>, \<open>Cli_Correct\<close>: cli/main.cc.
  \<^item> \<open>Rerank_Path\<close>: a filter call through all the layers to the server and back;
    \<open>Phrase_Learning\<close>, \<open>End_To_End\<close>: from commit messages to RIME's dictionary.

  Definitions carry the names of the source; a suffix tells the Windows variant or the owner of a
  method.  A class is a record of its fields and one function per method, an error or early return is a
  branch with \<open>None\<close>, \<open>Inl\<close> or \<open>False\<close>.  What the outside answers (system calls, clocks, libraries,
  the shell) is an argument.

  \<^bold>\<open>What the lemmas show.\<close>
  \<^item> \<^emph>\<open>Messages\<close>: every message decodes to itself, unknown keys are ignored, frames have the
    documented bounds.
  \<^item> \<^emph>\<open>Server and client\<close>: a connection handler always returns with the connection closed, having done
    what the abstract server (\<open>serve\<close>, a fold over the messages) does for a prefix of the stream; the
    counters are right under every interleaving of the threads; a successful call of the client returns
    the server's answer to that call.
  \<^item> \<^emph>\<open>Ranking\<close>: all backends return permutations, and the deterministic one orders by its rules in
    floating point as it is; the filter shows every candidate whatever the daemon answers.
  \<^item> \<^emph>\<open>History and learning\<close>: commits become rows in order; pruning, reading and the privacy guard;
    bigram counts are the adjacent pairs of the runs of the history; discovered words are exactly the
    frequent n-grams; files are replaced atomically and read back as what was written, whatever fails;
    the sentinel, which is written in place, may be cut.
  \<^item> \<^emph>\<open>Policy\<close>: when rounds run, that the network is used only when all switches are on, that the daemon's
    learner never uses it, which parts a started daemon runs, and that stopping ends them.
  \<^item> \<^emph>\<open>End to end\<close>: a filter call shows every candidate exactly once, reordered as the server answered
    this request or not at all; two characters that are committed one after the other twice are, after the first tick of
    the learner that is due, a word of RIME's dictionary with its wubi code.
  \<^item> \<^emph>\<open>Command line\<close>: options, exit codes, how the shell reads the commands that are built, and that
    pausing and resuming end.

  Several of these state what the code does where it differs from what it means to do: the learning
  command counts the history again in every run, setup returns a wait status as its exit code and quotes
  a path wrongly, the pipe names of two users can coincide, an empty context limit sends the whole
  history, commits are recorded with the filter switched off, a failed push is reported as done when
  pushing is off, a word that is not UTF-8 makes the word list unreadable, a word that starts with
  \<^verbatim>\<open>#\<close> is a comment to RIME, bigrams are counted across entries, and pause gives up on a
  daemon that does not exit.

  \<^bold>\<open>Bounds and recursion.\<close>  Integers of the code are words of their width, so that all counters wrap
  as in the code; sizes that the code casts down are cast down here.  Loops over data are structural.
  The read and write loops take one event per system call, and a list that ends is a deadline that
  passes.  \<open>HandleConnection\<close> is a \<open>partial_function\<close>, proved to return on every finite stream.  The
  argument loops are \<open>function\<close>s with a termination proof; the retry loops of the command line client
  have the code's own numbers of tries (30 and 5) as their fuel, so no run is cut off by the model.

  \<^bold>\<open>Assumptions.\<close>  Floating-point sums are not contracted to fused operations.  The byte in the self-pipe
  of the Unix server stays there once written.  The history does not change during one round.  The
  accesses of the learner to its fields are those of one thread.  Mutexes make the operations they guard
  atomic.  \<^verbatim>\<open>atoi\<close> of a number outside \<^verbatim>\<open>int\<close>, which C leaves undefined, wraps.  The scores
  of llama.cpp are numbers: a NaN would break the precondition of \<^verbatim>\<open>std::stable_sort\<close>, which the
  model takes to permute all the same.  libgit2 finds the head of a repository that has a commit.  The
  results of \<^verbatim>\<open>chmod\<close> do not matter to the code and are not modelled, so that the mode is set
  means that the call is made.

  \<^bold>\<open>Files.\<close>  The file system is a map from paths to the contents of regular files.  Directories, the
  database (a parameter of its own, whose opening is a list of actions) and the git repository
  (\<open>rd_git\<close>) are not in it.

  \<^bold>\<open>Not modelled.\<close>  Log messages of the C++ code and their call sites, usage and progress texts, the formatting of time
  stamps (a parameter), the installation of signal handlers, the Lua stack and module registration, the
  conversion between UTF-8 and UTF-16, the schema of the database beyond its five statements, errors of
  single row fetches, and freeing of library handles other than the database and the descriptors of the
  endpoints.  The Swift inspector, packaging, tests and scripts are other programs.
\<close>

end
